theory Spec2Isabelle
  imports Main
begin

section \<open>The data of lazymap.go\<close>

text \<open>
  The package is a concurrent cache: goroutines call \<open>LoadOrCtor\<close> and \<open>Delete\<close> on one
  shared \<open>Map\<close>, and \<open>LoadOrCtor\<close> starts one more goroutine (\<open>observeEntry\<close>) per entry
  when the map has a lifetime. The model is an interleaving semantics: a state holds the
  fields of the \<open>Map\<close>, the store of the \<open>entity\<close> objects the map points to, and one frame
  per goroutine with its program counter and its local variables. One step executes one
  statement of lazymap.go in one goroutine; the program counters are the line numbers of
  that file.
\<close>

type_synonym tid = nat
type_synonym eid = nat

text \<open>Go's \<open>error\<close>: \<open>None\<close> is nil. \<open>ErrCtorNotProvided\<close> is the package's own error value
  (line 45); a constructor returns errors of its own.\<close>

datatype error = ErrCtorNotProvided | CtorError string

text \<open>A caller's \<open>context.Context\<close>: the background context, or a cancellable context with
  its identity and whether it has been cancelled.\<close>

datatype "context" = Background | WithCancel nat bool

text \<open>\<open>ctorFunc\<close> (line 42). A nil function is \<open>None\<close> of the option type below.\<close>

type_synonym ('k, 'v) ctorFunc = "context \<Rightarrow> 'k \<Rightarrow> 'v \<times> error option"

text \<open>A \<open>time.Timer\<close>, as far as the package uses it: running (\<open>Armed\<close>), expired with its
  value waiting in the channel \<open>C\<close> (\<open>Fired\<close>), or inactive with the channel empty
  (\<open>Stopped\<close>). When a running timer expires is up to the clock: it is a step of its own
  (\<open>Expire\<close> below) that may happen at any moment.\<close>

datatype timer = Armed | Fired | Stopped

text \<open>\<open>entity\<close> (lines 26-33). \<open>wg\<close> is the counter of the WaitGroup; \<open>timer\<close> is a pointer,
  nil is \<open>None\<close>; \<open>ctx_done\<close> stands for the pair \<open>ctx\<close>, \<open>cacenl\<close> of line 76: it is set by
  calling \<open>cacenl\<close> and it is what \<open>ctx.Done()\<close> signals. The zero value of the value type
  \<open>V\<close> is \<open>0\<close>.\<close>

record 'v entity =
  wg :: nat
  val :: 'v
  err :: "error option"
  timer :: "timer option"
  ctx_done :: bool

text \<open>Program counters: \<open>Lnn\<close> is the statement at line nn of lazymap.go that the goroutine
  executes next. \<open>L81\<close> is the call of the constructor and \<open>L81r\<close> its return (with the
  assignment of line 81), so that a constructor call takes time. \<open>L51\<close> to \<open>L94\<close> are in
  \<open>LoadOrCtor\<close>, \<open>L98\<close> to \<open>L103\<close> in \<open>observeEntry\<close>, \<open>L108\<close> to \<open>L121\<close> in \<open>Delete\<close>.\<close>

datatype pc =
    L51 | L56 | L60 | L61 | L65 | L66 | L69 | L70 | L71
  | L74 | L77 | L78 | L79 | L81 | L81r | L83 | L84 | L85 | L86 | L88 | L89 | L92 | L94
  | L98 | L100 | L103
  | L108 | L110 | L112 | L116 | L117 | L118 | L120 | L121
  | Returned

text \<open>The frame of a goroutine: the arguments \<open>ctx\<close>, \<open>key\<close>, \<open>fn\<close>, the local \<open>e\<close> of
  \<open>LoadOrCtor\<close> and \<open>observeEntry\<close> (\<open>ent\<close>), the local \<open>e\<close> of \<open>Delete\<close> (\<open>del_ent\<close>), whether
  the goroutine is an \<open>observeEntry\<close> (then \<open>Delete\<close> returns to line 103), and what
  \<open>LoadOrCtor\<close> returned. \<open>ent\<close> and \<open>del_ent\<close> are read only after they were assigned.\<close>

record ('k, 'v) frame =
  pc :: pc
  ctx :: "context option"
  key :: 'k
  fn :: "('k, 'v) ctorFunc option"
  ent :: eid
  del_ent :: eid
  observer :: bool
  result :: "('v \<times> error option) option"

text \<open>What the outside sees of a run: every call of a constructor (by which goroutine,
  for which entity and key) and every call of \<open>OnDelete\<close> with its arguments (and the
  entity whose \<open>val\<close> was passed).\<close>

datatype ('k, 'v) event = CtorCall tid eid 'k | OnDeleteCall tid eid 'k 'v

text \<open>\<open>Map\<close> (lines 12-24) with the store and the goroutines. \<open>OnDelete\<close> says whether the
  callback field is non-nil; \<open>mu\<close> is the mutex, \<open>None\<close> when unlocked, and when locked
  it records which goroutine locked it; \<open>mm\<close> is the field \<open>m\<close>, \<open>None\<close> while it is the nil
  map. \<open>heap ! e\<close> is the entity at address \<open>e\<close>. Two components are history only, written
  but never read by a statement: \<open>creator ! e\<close> is the goroutine that allocated the entity
  at \<open>e\<close>, and \<open>trace\<close> lists the events so far.\<close>

record ('k, 'v) state =
  Lifetime :: int
  OnDelete :: bool
  mu :: "tid option"
  mm :: "('k \<rightharpoonup> eid) option"
  heap :: "'v entity list"
  creator :: "tid list"
  threads :: "('k, 'v) frame list"
  trace :: "('k, 'v) event list"

section \<open>The statements\<close>

definition set_frame :: "tid \<Rightarrow> ('k, 'v) frame \<Rightarrow> ('k, 'v) state \<Rightarrow> ('k, 'v) state" where
  "set_frame t f s = s\<lparr>threads := (threads s)[t := f]\<rparr>"

definition goto :: "tid \<Rightarrow> pc \<Rightarrow> ('k, 'v) state \<Rightarrow> ('k, 'v) state" where
  "goto t p s = set_frame t ((threads s ! t)\<lparr>pc := p\<rparr>) s"

definition upd_entity :: "eid \<Rightarrow> ('v entity \<Rightarrow> 'v entity) \<Rightarrow> ('k, 'v) state \<Rightarrow> ('k, 'v) state" where
  "upd_entity e g s = s\<lparr>heap := (heap s)[e := g (heap s ! e)]\<rparr>"

text \<open>\<open>m.m[key]\<close> read: a nil map has no key.\<close>

definition lookup :: "('k, 'v) state \<Rightarrow> 'k \<Rightarrow> eid option" where
  "lookup s k = (case mm s of None \<Rightarrow> None | Some mp \<Rightarrow> mp k)"

text \<open>\<open>delete(m.m, key)\<close>: a no-op on a nil map.\<close>

definition delete_key :: "'k \<Rightarrow> ('k, 'v) state \<Rightarrow> ('k, 'v) state" where
  "delete_key k s = s\<lparr>mm := (case mm s of None \<Rightarrow> None | Some mp \<Rightarrow> Some (mp(k := None)))\<rparr>"

text \<open>\<open>new(entity[V])\<close> with line 76.\<close>

definition new_entity :: "('v::zero) entity" where
  "new_entity = \<lparr>wg = 0, val = 0, err = None, timer = None, ctx_done = False\<rparr>"

text \<open>\<open>New\<close> (lines 36-40).\<close>

definition New :: "int \<Rightarrow> ('k, 'v) state" where
  "New lifetime = \<lparr>Lifetime = lifetime, OnDelete = False, mu = None, mm = None,
     heap = [], creator = [], threads = [], trace = []\<rparr>"

text \<open>Lines 51-53: a nil context is replaced by the background context.\<close>

definition ctx_or_background :: "context option \<Rightarrow> context" where
  "ctx_or_background c = (case c of None \<Rightarrow> Background | Some x \<Rightarrow> x)"

text \<open>\<open>fn(ctx, key)\<close> of line 81, with the arguments of the frame. It is called only after
  lines 51-58, when neither is nil.\<close>

definition call_ctor :: "('k, 'v) frame \<Rightarrow> ('v \<times> error option) option" where
  "call_ctor f = (case (fn f, ctx f) of (Some g, Some c) \<Rightarrow> Some (g c (key f)) | _ \<Rightarrow> None)"

text \<open>\<open>LoadOrCtor\<close> (lines 50-95), one statement per equation. \<open>Lock\<close> can be taken only when
  the mutex is unlocked and \<open>Wait\<close> returns only when the counter is zero: until then the
  goroutine has no step (\<open>None\<close>).\<close>

fun LoadOrCtor :: "pc \<Rightarrow> tid \<Rightarrow> ('k, 'v::zero) state \<Rightarrow> ('k, 'v) state option" where
  "LoadOrCtor L51 t s = (let f = threads s ! t in
     Some (set_frame t (f\<lparr>pc := L56, ctx := Some (ctx_or_background (ctx f))\<rparr>) s))"
| "LoadOrCtor L56 t s = (let f = threads s ! t in
     if fn f = None
     then Some (set_frame t (f\<lparr>pc := Returned, result := Some (0, Some ErrCtorNotProvided)\<rparr>) s)
     else Some (goto t L60 s))"
| "LoadOrCtor L60 t s = (if mu s = None then Some (goto t L61 (s\<lparr>mu := Some t\<rparr>)) else None)"
| "LoadOrCtor L61 t s =
     Some (goto t L65 (if mm s = None then s\<lparr>mm := Some Map.empty\<rparr> else s))"
| "LoadOrCtor L65 t s = (let f = threads s ! t in
     case lookup s (key f) of
       Some e \<Rightarrow> Some (set_frame t (f\<lparr>pc := L66, ent := e\<rparr>) s)
     | None \<Rightarrow> Some (goto t L74 s))"
| "LoadOrCtor L66 t s = (let e = ent (threads s ! t) in
     Some (goto t L69
       (if timer (heap s ! e) \<noteq> None then upd_entity e (\<lambda>x. x\<lparr>timer := Some Armed\<rparr>) s else s)))"
| "LoadOrCtor L69 t s = Some (goto t L70 (s\<lparr>mu := None\<rparr>))"
| "LoadOrCtor L70 t s = (let e = ent (threads s ! t) in
     if wg (heap s ! e) = 0 then Some (goto t L71 s) else None)"
| "LoadOrCtor L71 t s = (let f = threads s ! t; x = heap s ! ent f in
     Some (set_frame t (f\<lparr>pc := Returned, result := Some (val x, err x)\<rparr>) s))"
| "LoadOrCtor L74 t s = (let f = threads s ! t in
     Some (set_frame t (f\<lparr>pc := L77, ent := length (heap s)\<rparr>) (s\<lparr>heap := heap s @ [new_entity], creator := creator s @ [t]\<rparr>)))"
| "LoadOrCtor L77 t s = (let e = ent (threads s ! t) in
     Some (goto t L78 (upd_entity e (\<lambda>x. x\<lparr>wg := wg x + 1\<rparr>) s)))"
| "LoadOrCtor L78 t s = (let f = threads s ! t in
     case mm s of
       None \<Rightarrow> None
     | Some mp \<Rightarrow> Some (goto t L79 (s\<lparr>mm := Some (mp(key f \<mapsto> ent f))\<rparr>)))"
| "LoadOrCtor L79 t s = Some (goto t L81 (s\<lparr>mu := None\<rparr>))"
| "LoadOrCtor L81 t s = (let f = threads s ! t in
     Some (goto t L81r (s\<lparr>trace := trace s @ [CtorCall t (ent f) (key f)]\<rparr>)))"
| "LoadOrCtor L81r t s = (let f = threads s ! t in
     case call_ctor f of
       Some (v, er) \<Rightarrow> Some (goto t L83 (upd_entity (ent f) (\<lambda>x. x\<lparr>val := v, err := er\<rparr>) s))
     | None \<Rightarrow> None)"
| "LoadOrCtor L83 t s = (let e = ent (threads s ! t) in
     if err (heap s ! e) \<noteq> None then Some (goto t L84 s)
     else if Lifetime s \<noteq> 0 then Some (goto t L88 s)
     else Some (goto t L92 s))"
| "LoadOrCtor L84 t s = (if mu s = None then Some (goto t L85 (s\<lparr>mu := Some t\<rparr>)) else None)"
| "LoadOrCtor L85 t s = Some (goto t L86 (delete_key (key (threads s ! t)) s))"
| "LoadOrCtor L86 t s = Some (goto t L92 (s\<lparr>mu := None\<rparr>))"
| "LoadOrCtor L88 t s = (let e = ent (threads s ! t) in
     Some (goto t L89 (upd_entity e (\<lambda>x. x\<lparr>timer := Some Armed\<rparr>) s)))"
| "LoadOrCtor L89 t s = (let f = threads s ! t in
     Some ((goto t L92 s)\<lparr>threads := threads (goto t L92 s) @
       [\<lparr>pc = L98, ctx = None, key = key f, fn = None, ent = ent f, del_ent = 0,
         observer = True, result = None\<rparr>]\<rparr>))"
| "LoadOrCtor L92 t s = (let e = ent (threads s ! t) in
     if wg (heap s ! e) = 0 then None
     else Some (goto t L94 (upd_entity e (\<lambda>x. x\<lparr>wg := wg x - 1\<rparr>) s)))"
| "LoadOrCtor L94 t s = (let f = threads s ! t; x = heap s ! ent f in
     Some (set_frame t (f\<lparr>pc := Returned, result := Some (val x, err x)\<rparr>) s))"
| "LoadOrCtor _ t s = None"

text \<open>\<open>Delete\<close> (lines 107-123). It returns to the goroutine's caller: to line 103 of
  \<open>observeEntry\<close> when that called it, else the goroutine is done.\<close>

definition return_Delete :: "tid \<Rightarrow> ('k, 'v) state \<Rightarrow> ('k, 'v) state" where
  "return_Delete t s = goto t (if observer (threads s ! t) then L103 else Returned) s"

fun Delete :: "pc \<Rightarrow> tid \<Rightarrow> ('k, 'v) state \<Rightarrow> ('k, 'v) state option" where
  "Delete L108 t s = (if mu s = None then Some (goto t L110 (s\<lparr>mu := Some t\<rparr>)) else None)"
| "Delete L110 t s = (let f = threads s ! t in
     case lookup s (key f) of
       None \<Rightarrow> Some (goto t L112 s)
     | Some e \<Rightarrow> Some (set_frame t (f\<lparr>pc := L116, del_ent := e\<rparr>) s))"
| "Delete L112 t s = Some (return_Delete t (s\<lparr>mu := None\<rparr>))"
| "Delete L116 t s = (let e = del_ent (threads s ! t) in
     Some (goto t L117 (upd_entity e (\<lambda>x. x\<lparr>ctx_done := True\<rparr>) s)))"
| "Delete L117 t s = Some (goto t L118 (delete_key (key (threads s ! t)) s))"
| "Delete L118 t s = Some (goto t L120 (s\<lparr>mu := None\<rparr>))"
| "Delete L120 t s = (if OnDelete s then Some (goto t L121 s) else Some (return_Delete t s))"
| "Delete L121 t s = (let f = threads s ! t; e = del_ent f in
     Some (return_Delete t (s\<lparr>trace := trace s @ [OnDeleteCall t e (key f) (val (heap s ! e))]\<rparr>)))"
| "Delete _ t s = None"

text \<open>\<open>observeEntry\<close> (lines 97-104). The \<open>select\<close> of line 98 takes a case whose channel is
  ready; when both are, either may be taken, so the case is part of the step. Receiving
  from \<open>e.timer.C\<close> empties the channel and goes on to call \<open>Delete\<close> (line 100).\<close>

datatype chan = TimerC | CtxDone

fun select :: "chan \<Rightarrow> tid \<Rightarrow> ('k, 'v) state \<Rightarrow> ('k, 'v) state option" where
  "select TimerC t s = (let e = ent (threads s ! t) in
     if timer (heap s ! e) = Some Fired
     then Some (goto t L100 (upd_entity e (\<lambda>x. x\<lparr>timer := Some Stopped\<rparr>) s))
     else None)"
| "select CtxDone t s = (let e = ent (threads s ! t) in
     if ctx_done (heap s ! e) then Some (goto t L103 s) else None)"

fun observeEntry :: "pc \<Rightarrow> tid \<Rightarrow> ('k, 'v) state \<Rightarrow> ('k, 'v) state option" where
  "observeEntry L100 t s = Some (goto t L108 s)"
| "observeEntry L103 t s = (let e = ent (threads s ! t) in
     if timer (heap s ! e) = None then None
     else Some (goto t Returned (upd_entity e (\<lambda>x. x\<lparr>timer := Some Stopped\<rparr>) s)))"
| "observeEntry _ t s = None"

section \<open>Goroutines and schedules\<close>

datatype gofunc = InLoadOrCtor | InObserveEntry | InDelete | NoFunc

fun func_of :: "pc \<Rightarrow> gofunc" where
  "func_of L98 = InObserveEntry"
| "func_of L100 = InObserveEntry"
| "func_of L103 = InObserveEntry"
| "func_of L108 = InDelete"
| "func_of L110 = InDelete"
| "func_of L112 = InDelete"
| "func_of L116 = InDelete"
| "func_of L117 = InDelete"
| "func_of L118 = InDelete"
| "func_of L120 = InDelete"
| "func_of L121 = InDelete"
| "func_of Returned = NoFunc"
| "func_of _ = InLoadOrCtor"

definition exec :: "tid \<Rightarrow> ('k, 'v::zero) state \<Rightarrow> ('k, 'v) state option" where
  "exec t s = (let p = pc (threads s ! t) in
     case func_of p of
       InLoadOrCtor \<Rightarrow> LoadOrCtor p t s
     | InObserveEntry \<Rightarrow> observeEntry p t s
     | InDelete \<Rightarrow> Delete p t s
     | NoFunc \<Rightarrow> None)"

text \<open>A call of the package's API, made by a goroutine of its own.\<close>

datatype ('k, 'v) call =
    LoadOrCtorCall "context option" 'k "('k, 'v) ctorFunc option"
  | DeleteCall 'k

fun start :: "('k, 'v) call \<Rightarrow> ('k, 'v) frame" where
  "start (LoadOrCtorCall c k g) =
     \<lparr>pc = L51, ctx = c, key = k, fn = g, ent = 0, del_ent = 0, observer = False, result = None\<rparr>"
| "start (DeleteCall k) =
     \<lparr>pc = L108, ctx = None, key = k, fn = None, ent = 0, del_ent = 0, observer = False, result = None\<rparr>"

text \<open>The steps of the system: a new goroutine makes a call; goroutine \<open>t\<close> executes its
  next statement; an \<open>observeEntry\<close> at its \<open>select\<close> takes a case; a running timer
  expires.\<close>

datatype ('k, 'v) action = Go "('k, 'v) call" | Run tid | Select tid chan | Expire eid

fun step :: "('k, 'v) action \<Rightarrow> ('k, 'v::zero) state \<Rightarrow> ('k, 'v) state option" where
  "step (Go c) s = Some (s\<lparr>threads := threads s @ [start c]\<rparr>)"
| "step (Run t) s = (if t < length (threads s) then exec t s else None)"
| "step (Select t c) s =
     (if t < length (threads s) \<and> pc (threads s ! t) = L98 then select c t s else None)"
| "step (Expire e) s =
     (if e < length (heap s) \<and> timer (heap s ! e) = Some Armed
      then Some (upd_entity e (\<lambda>x. x\<lparr>timer := Some Fired\<rparr>) s) else None)"

fun run :: "('k, 'v) action list \<Rightarrow> ('k, 'v::zero) state \<Rightarrow> ('k, 'v) state option" where
  "run [] s = Some s"
| "run (a # as) s = (case step a s of None \<Rightarrow> None | Some s' \<Rightarrow> run as s')"




fun is_OnDelete_of :: "eid \<Rightarrow> ('k, 'v) event \<Rightarrow> bool" where
  "is_OnDelete_of e (OnDeleteCall t e' k v) = (e' = e)"
| "is_OnDelete_of e (CtorCall t e' k) = False"

fun is_Ctor_of :: "eid \<Rightarrow> ('k, 'v) event \<Rightarrow> bool" where
  "is_Ctor_of e (CtorCall t e' k) = (e' = e)"
| "is_Ctor_of e (OnDeleteCall t e' k v) = False"

section \<open>Classes of program counters\<close>

text \<open>Used to state where a goroutine is: \<open>crit\<close> holds between \<open>Lock\<close> and \<open>Unlock\<close>, \<open>allocated\<close>
  in \<open>LoadOrCtor\<close> after line 74 (the goroutine has made its own entity), \<open>hit\<close> on the path of
  lines 66-71, and so on.\<close>

fun crit :: "pc \<Rightarrow> bool" where
  "crit L61 = True" | "crit L65 = True" | "crit L66 = True" | "crit L69 = True"
| "crit L74 = True" | "crit L77 = True" | "crit L78 = True" | "crit L79 = True"
| "crit L85 = True" | "crit L86 = True"
| "crit L110 = True" | "crit L112 = True" | "crit L116 = True" | "crit L117 = True" | "crit L118 = True"
| "crit _ = False"

fun inserting :: "pc \<Rightarrow> bool" where
  "inserting L74 = True" | "inserting L77 = True" | "inserting L78 = True"
| "inserting _ = False"

fun allocated :: "pc \<Rightarrow> bool" where
  "allocated L77 = True" | "allocated L78 = True" | "allocated L79 = True" | "allocated L81 = True"
| "allocated L81r = True" | "allocated L83 = True" | "allocated L84 = True" | "allocated L85 = True"
| "allocated L86 = True" | "allocated L88 = True" | "allocated L89 = True" | "allocated L92 = True"
| "allocated L94 = True"
| "allocated _ = False"

fun unpublished :: "pc \<Rightarrow> bool" where
  "unpublished L77 = True" | "unpublished L78 = True"
| "unpublished _ = False"

fun uncalled :: "pc \<Rightarrow> bool" where
  "uncalled L77 = True" | "uncalled L78 = True" | "uncalled L79 = True" | "uncalled L81 = True"
| "uncalled _ = False"

fun unwritten :: "pc \<Rightarrow> bool" where
  "unwritten L77 = True" | "unwritten L78 = True" | "unwritten L79 = True" | "unwritten L81 = True"
| "unwritten L81r = True"
| "unwritten _ = False"

fun wg_one :: "pc \<Rightarrow> bool" where
  "wg_one L78 = True" | "wg_one L79 = True" | "wg_one L81 = True" | "wg_one L81r = True"
| "wg_one L83 = True" | "wg_one L84 = True" | "wg_one L85 = True" | "wg_one L86 = True"
| "wg_one L88 = True" | "wg_one L89 = True" | "wg_one L92 = True"
| "wg_one _ = False"

fun no_timer :: "pc \<Rightarrow> bool" where
  "no_timer L77 = True" | "no_timer L78 = True" | "no_timer L79 = True" | "no_timer L81 = True"
| "no_timer L81r = True" | "no_timer L83 = True" | "no_timer L84 = True" | "no_timer L85 = True"
| "no_timer L86 = True" | "no_timer L88 = True"
| "no_timer _ = False"

fun failing :: "pc \<Rightarrow> bool" where
  "failing L84 = True" | "failing L85 = True" | "failing L86 = True"
| "failing _ = False"

fun succeeding :: "pc \<Rightarrow> bool" where
  "succeeding L88 = True" | "succeeding L89 = True"
| "succeeding _ = False"

fun removing :: "pc \<Rightarrow> bool" where
  "removing L83 = True" | "removing L84 = True" | "removing L85 = True"
| "removing _ = False"

fun spawned :: "pc \<Rightarrow> bool" where
  "spawned L92 = True" | "spawned L94 = True" | "spawned Returned = True"
| "spawned _ = False"

fun complete :: "pc \<Rightarrow> bool" where
  "complete L94 = True" | "complete Returned = True"
| "complete _ = False"

fun hit :: "pc \<Rightarrow> bool" where
  "hit L66 = True" | "hit L69 = True" | "hit L70 = True" | "hit L71 = True"
| "hit _ = False"

fun deleting :: "pc \<Rightarrow> bool" where
  "deleting L116 = True" | "deleting L117 = True"
| "deleting _ = False"

fun deleted :: "pc \<Rightarrow> bool" where
  "deleted L118 = True" | "deleted L120 = True" | "deleted L121 = True"
| "deleted _ = False"

fun ent_of :: "('k, 'v) event \<Rightarrow> eid" where
  "ent_of (CtorCall t e k) = e"
| "ent_of (OnDeleteCall t e k v) = e"

fun tid_of :: "('k, 'v) event \<Rightarrow> tid" where
  "tid_of (CtorCall t e k) = t"
| "tid_of (OnDeleteCall t e k v) = t"

text \<open>The calls of \<open>OnDelete\<close> made by goroutine \<open>t\<close>. A goroutine is past its \<open>Delete\<close>, if it
  made one, when it has returned or is at line 103.\<close>

fun is_OnDelete_by :: "tid \<Rightarrow> ('k, 'v) event \<Rightarrow> bool" where
  "is_OnDelete_by t (OnDeleteCall t' e k v) = (t' = t)"
| "is_OnDelete_by t (CtorCall t' e k) = False"

fun past_Delete :: "pc \<Rightarrow> bool" where
  "past_Delete L103 = True" | "past_Delete Returned = True"
| "past_Delete _ = False"

abbreviation cframe :: "('k, 'v) state \<Rightarrow> eid \<Rightarrow> ('k, 'v) frame" where
  "cframe s e \<equiv> threads s ! (creator s ! e)"

section \<open>Sequential use among background goroutines\<close>


























definition T_lock :: "('k, 'v) state \<Rightarrow> tid \<Rightarrow> bool" where
  "T_lock s t \<longleftrightarrow> (crit (pc (threads s ! t)) \<longleftrightarrow> mu s = Some t)"

definition T_ins :: "('k, 'v) state \<Rightarrow> tid \<Rightarrow> bool" where
  "T_ins s t \<longleftrightarrow> (inserting (pc (threads s ! t)) \<longrightarrow> lookup s (key (threads s ! t)) = None)"

definition T_own :: "('k, 'v) state \<Rightarrow> tid \<Rightarrow> bool" where
  "T_own s t \<longleftrightarrow> (allocated (pc (threads s ! t)) \<longrightarrow>
     ent (threads s ! t) < length (heap s) \<and> creator s ! ent (threads s ! t) = t)"

definition T_hit :: "('k, 'v) state \<Rightarrow> tid \<Rightarrow> bool" where
  "T_hit s t \<longleftrightarrow>
     (hit (pc (threads s ! t)) \<longrightarrow> ent (threads s ! t) < length (heap s)
        \<and> \<not> unpublished (pc (cframe s (ent (threads s ! t)))))"

definition T_done :: "('k, 'v) state \<Rightarrow> tid \<Rightarrow> bool" where
  "T_done s t \<longleftrightarrow> (pc (threads s ! t) = L71 \<longrightarrow> complete (pc (cframe s (ent (threads s ! t)))))"

definition T_ret :: "('k, 'v) state \<Rightarrow> tid \<Rightarrow> bool" where
  "T_ret s t \<longleftrightarrow> (pc (threads s ! t) = Returned \<and> fn (threads s ! t) \<noteq> None \<longrightarrow>
     ent (threads s ! t) < length (heap s)
     \<and> complete (pc (cframe s (ent (threads s ! t))))
     \<and> result (threads s ! t) = Some (val (heap s ! ent (threads s ! t)), err (heap s ! ent (threads s ! t))))"

definition T_nofn :: "('k, 'v) state \<Rightarrow> tid \<Rightarrow> bool" where
  "T_nofn s t \<longleftrightarrow> (func_of (pc (threads s ! t)) = InDelete \<or> func_of (pc (threads s ! t)) = InObserveEntry
      \<longrightarrow> fn (threads s ! t) = None)"

definition T_obs :: "('k, 'v) state \<Rightarrow> tid \<Rightarrow> bool" where
  "T_obs s t \<longleftrightarrow> (observer (threads s ! t) \<longrightarrow>
     ent (threads s ! t) < length (heap s)
     \<and> func_of (pc (threads s ! t)) \<noteq> InLoadOrCtor
     \<and> spawned (pc (cframe s (ent (threads s ! t))))
     \<and> err (heap s ! ent (threads s ! t)) = None
     \<and> Lifetime s \<noteq> 0
     \<and> key (cframe s (ent (threads s ! t))) = key (threads s ! t))"

definition T_del :: "('k, 'v) state \<Rightarrow> tid \<Rightarrow> bool" where
  "T_del s t \<longleftrightarrow>
     (deleting (pc (threads s ! t)) \<or> deleted (pc (threads s ! t)) \<longrightarrow>
        del_ent (threads s ! t) < length (heap s)
        \<and> \<not> unpublished (pc (cframe s (del_ent (threads s ! t)))))"

definition T_din :: "('k, 'v) state \<Rightarrow> tid \<Rightarrow> bool" where
  "T_din s t \<longleftrightarrow>
     (deleting (pc (threads s ! t)) \<longrightarrow> lookup s (key (threads s ! t)) = Some (del_ent (threads s ! t)))"

definition T_cancel :: "('k, 'v) state \<Rightarrow> tid \<Rightarrow> bool" where
  "T_cancel s t \<longleftrightarrow> (pc (threads s ! t) = L117 \<longrightarrow> ctx_done (heap s ! del_ent (threads s ! t)))"

definition T_dout :: "('k, 'v) state \<Rightarrow> tid \<Rightarrow> bool" where
  "T_dout s t \<longleftrightarrow>
     (deleted (pc (threads s ! t)) \<longrightarrow>
        (\<forall>k. lookup s k \<noteq> Some (del_ent (threads s ! t)))
        \<and> filter (is_OnDelete_of (del_ent (threads s ! t))) (trace s) = [])"

definition T_life :: "('k, 'v) state \<Rightarrow> tid \<Rightarrow> bool" where
  "T_life s t \<longleftrightarrow> (succeeding (pc (threads s ! t)) \<longrightarrow> Lifetime s \<noteq> 0)"

definition T_calls :: "('k, 'v) state \<Rightarrow> tid \<Rightarrow> bool" where
  "T_calls s t \<longleftrightarrow> length (filter (is_OnDelete_by t) (trace s))
     \<le> (if past_Delete (pc (threads s ! t)) then 1 else 0)"

definition P_del :: "('k, 'v) state \<Rightarrow> tid \<Rightarrow> tid \<Rightarrow> bool" where
  "P_del s t u \<longleftrightarrow> (t \<noteq> u \<and> deleted (pc (threads s ! t)) \<and> deleted (pc (threads s ! u))
     \<longrightarrow> del_ent (threads s ! t) \<noteq> del_ent (threads s ! u))"

definition P_obs :: "('k, 'v) state \<Rightarrow> tid \<Rightarrow> tid \<Rightarrow> bool" where
  "P_obs s t u \<longleftrightarrow> (t \<noteq> u \<and> observer (threads s ! t) \<and> observer (threads s ! u)
     \<longrightarrow> ent (threads s ! t) \<noteq> ent (threads s ! u))"

definition E_own :: "('k, 'v) state \<Rightarrow> eid \<Rightarrow> bool" where
  "E_own s e \<longleftrightarrow> creator s ! e < length (threads s) \<and> ent (cframe s e) = e
     \<and> \<not> observer (cframe s e)
     \<and> (allocated (pc (cframe s e)) \<or> pc (cframe s e) = Returned)"

definition E_wg :: "('k, 'v) state \<Rightarrow> eid \<Rightarrow> bool" where
  "E_wg s e \<longleftrightarrow> wg (heap s ! e) = (if wg_one (pc (cframe s e)) then 1 else 0)"

definition E_unw :: "('k, 'v::zero) state \<Rightarrow> eid \<Rightarrow> bool" where
  "E_unw s e \<longleftrightarrow> (unwritten (pc (cframe s e)) \<longrightarrow> val (heap s ! e) = 0 \<and> err (heap s ! e) = None)"

definition E_wr :: "('k, 'v) state \<Rightarrow> eid \<Rightarrow> bool" where
  "E_wr s e \<longleftrightarrow> (\<not> unwritten (pc (cframe s e)) \<longrightarrow>
     call_ctor (cframe s e) = Some (val (heap s ! e), err (heap s ! e)))"

definition E_fail :: "('k, 'v) state \<Rightarrow> eid \<Rightarrow> bool" where
  "E_fail s e \<longleftrightarrow> (failing (pc (cframe s e)) \<longrightarrow> err (heap s ! e) \<noteq> None)
     \<and> (succeeding (pc (cframe s e)) \<longrightarrow> err (heap s ! e) = None)"

definition E_notimer :: "('k, 'v) state \<Rightarrow> eid \<Rightarrow> bool" where
  "E_notimer s e \<longleftrightarrow> (no_timer (pc (cframe s e)) \<longrightarrow> timer (heap s ! e) = None)"

definition E_timer :: "('k, 'v) state \<Rightarrow> eid \<Rightarrow> bool" where
  "E_timer s e \<longleftrightarrow> (timer (heap s ! e) \<noteq> None \<longrightarrow> Lifetime s \<noteq> 0 \<and> err (heap s ! e) = None)"

definition E_ctor :: "('k, 'v) state \<Rightarrow> eid \<Rightarrow> bool" where
  "E_ctor s e \<longleftrightarrow>
     filter (is_Ctor_of e) (trace s)
       = (if uncalled (pc (cframe s e)) then [] else [CtorCall (creator s ! e) e (key (cframe s e))])"

definition E_fresh :: "('k, 'v) state \<Rightarrow> eid \<Rightarrow> bool" where
  "E_fresh s e \<longleftrightarrow> (unpublished (pc (cframe s e)) \<longrightarrow> filter (is_OnDelete_of e) (trace s) = [])"

definition E_once :: "('k, 'v) state \<Rightarrow> eid \<Rightarrow> bool" where
  "E_once s e \<longleftrightarrow> length (filter (is_OnDelete_of e) (trace s)) \<le> 1"

definition M_wf :: "('k, 'v) state \<Rightarrow> 'k \<Rightarrow> eid \<Rightarrow> bool" where
  "M_wf s k e \<longleftrightarrow> (lookup s k = Some e \<longrightarrow>
     e < length (heap s) \<and> \<not> unpublished (pc (cframe s e)) \<and> key (cframe s e) = k)"

definition M_err :: "('k, 'v) state \<Rightarrow> 'k \<Rightarrow> eid \<Rightarrow> bool" where
  "M_err s k e \<longleftrightarrow> (lookup s k = Some e \<longrightarrow> err (heap s ! e) \<noteq> None \<longrightarrow> removing (pc (cframe s e)))"

definition M_tr :: "('k, 'v) state \<Rightarrow> 'k \<Rightarrow> eid \<Rightarrow> bool" where
  "M_tr s k e \<longleftrightarrow> (lookup s k = Some e \<longrightarrow> filter (is_OnDelete_of e) (trace s) = [])"

definition inv :: "('k, 'v::zero) state \<Rightarrow> bool" where
  "inv s \<longleftrightarrow> length (creator s) = length (heap s)
     \<and> (\<forall>t. mu s = Some t \<longrightarrow> t < length (threads s))
     \<and> (\<forall>ev \<in> set (trace s). ent_of ev < length (heap s))
     \<and> (\<forall>ev \<in> set (trace s). tid_of ev < length (threads s))
     \<and> (\<forall>t < length (threads s). T_lock s t \<and> T_ins s t \<and> T_own s t \<and> T_hit s t \<and> T_done s t
           \<and> T_ret s t \<and> T_nofn s t \<and> T_obs s t \<and> T_del s t \<and> T_din s t \<and> T_cancel s t
           \<and> T_dout s t \<and> T_life s t \<and> T_calls s t)
     \<and> (\<forall>t < length (threads s). \<forall>u < length (threads s). P_del s t u \<and> P_obs s t u)
     \<and> (\<forall>e < length (heap s). E_own s e \<and> E_wg s e \<and> E_unw s e \<and> E_wr s e \<and> E_fail s e
           \<and> E_notimer s e \<and> E_timer s e \<and> E_ctor s e \<and> E_fresh s e \<and> E_once s e)
     \<and> (\<forall>k e. M_wf s k e \<and> M_err s k e \<and> M_tr s k e)"

section \<open>Runs without an explicit Delete of a key\<close>

text \<open>While no goroutine calls \<open>Delete\<close> for key \<open>k\<close>, the only \<open>Delete\<close> of \<open>k\<close> is the one an
  \<open>observeEntry\<close> makes when the timer of its entry has expired. Then more holds of every
  reachable state: a goroutine that has inserted its entity for \<open>k\<close> and has not finished
  with it (\<open>constructing\<close>) still finds it in the map, and so does the \<open>observeEntry\<close> of an
  entity until it has removed it (\<open>watching\<close>).\<close>

fun constructing :: "pc \<Rightarrow> bool" where
  "constructing L79 = True" | "constructing L81 = True" | "constructing L81r = True"
| "constructing L83 = True" | "constructing L84 = True" | "constructing L85 = True"
| "constructing L88 = True" | "constructing L89 = True"
| "constructing _ = False"

fun watching :: "pc \<Rightarrow> bool" where
  "watching L98 = True" | "watching L100 = True" | "watching L108 = True"
| "watching L110 = True" | "watching L116 = True" | "watching L117 = True"
| "watching _ = False"

fun is_Delete_of :: "'k \<Rightarrow> ('k, 'v) action \<Rightarrow> bool" where
  "is_Delete_of k (Go (DeleteCall k')) = (k' = k)"
| "is_Delete_of k _ = False"

definition D_O :: "('k, 'v) state \<Rightarrow> tid \<Rightarrow> bool" where
  "D_O s t \<longleftrightarrow> (func_of (pc (threads s ! t)) = InObserveEntry \<longrightarrow> observer (threads s ! t))"

definition D_P :: "('k, 'v) state \<Rightarrow> 'k \<Rightarrow> tid \<Rightarrow> bool" where
  "D_P s k t \<longleftrightarrow> (func_of (pc (threads s ! t)) = InDelete \<longrightarrow> key (threads s ! t) = k
     \<longrightarrow> observer (threads s ! t))"

definition D_Q :: "('k, 'v) state \<Rightarrow> 'k \<Rightarrow> tid \<Rightarrow> bool" where
  "D_Q s k t \<longleftrightarrow> (constructing (pc (threads s ! t)) \<longrightarrow> key (threads s ! t) = k
     \<longrightarrow> lookup s k = Some (ent (threads s ! t)))"

definition D_R :: "('k, 'v) state \<Rightarrow> 'k \<Rightarrow> tid \<Rightarrow> bool" where
  "D_R s k t \<longleftrightarrow> (observer (threads s ! t) \<longrightarrow> watching (pc (threads s ! t))
     \<longrightarrow> key (threads s ! t) = k \<longrightarrow> lookup s k = Some (ent (threads s ! t)))"

definition D_E :: "('k, 'v) state \<Rightarrow> 'k \<Rightarrow> tid \<Rightarrow> bool" where
  "D_E s k t \<longleftrightarrow> (deleting (pc (threads s ! t)) \<or> deleted (pc (threads s ! t))
     \<longrightarrow> observer (threads s ! t) \<longrightarrow> key (threads s ! t) = k
     \<longrightarrow> del_ent (threads s ! t) = ent (threads s ! t))"

definition D_S :: "('k, 'v) state \<Rightarrow> 'k \<Rightarrow> eid \<Rightarrow> bool" where
  "D_S s k e \<longleftrightarrow> (Lifetime s = 0 \<longrightarrow> spawned (pc (cframe s e)) \<longrightarrow> key (cframe s e) = k
     \<longrightarrow> err (heap s ! e) = None \<longrightarrow> lookup s k = Some e)"

definition dinv :: "'k \<Rightarrow> ('k, 'v) state \<Rightarrow> bool" where
  "dinv k s \<longleftrightarrow> (\<forall>t < length (threads s). D_O s t \<and> D_P s k t \<and> D_Q s k t \<and> D_R s k t \<and> D_E s k t)
     \<and> (\<forall>e < length (heap s). D_S s k e)"

section \<open>Concrete runs\<close>


















section \<open>Sequential use\<close>

lemmas exec_simps = exec_def set_frame_def goto_def upd_entity_def lookup_def delete_key_def
  return_Delete_def new_entity_def call_ctor_def Let_def nth_append list_update_append




section \<open>The effect of every step\<close>

lemma proj_set_frame [simp]:
  "Lifetime (set_frame t f s) = Lifetime s" "OnDelete (set_frame t f s) = OnDelete s"
  "mu (set_frame t f s) = mu s" "mm (set_frame t f s) = mm s" "heap (set_frame t f s) = heap s"
  "creator (set_frame t f s) = creator s" "trace (set_frame t f s) = trace s"
  "threads (set_frame t f s) = (threads s)[t := f]"
  "lookup (set_frame t f s) = lookup s"
  by (simp_all add: set_frame_def lookup_def fun_eq_iff)

lemma proj_goto [simp]:
  "Lifetime (goto t p s) = Lifetime s" "OnDelete (goto t p s) = OnDelete s"
  "mu (goto t p s) = mu s" "mm (goto t p s) = mm s" "heap (goto t p s) = heap s"
  "creator (goto t p s) = creator s" "trace (goto t p s) = trace s"
  "threads (goto t p s) = (threads s)[t := (threads s ! t)\<lparr>pc := p\<rparr>]"
  "lookup (goto t p s) = lookup s"
  by (simp_all add: goto_def)

lemma proj_upd_entity [simp]:
  "Lifetime (upd_entity e g s) = Lifetime s" "OnDelete (upd_entity e g s) = OnDelete s"
  "mu (upd_entity e g s) = mu s" "mm (upd_entity e g s) = mm s"
  "heap (upd_entity e g s) = (heap s)[e := g (heap s ! e)]"
  "creator (upd_entity e g s) = creator s" "trace (upd_entity e g s) = trace s"
  "threads (upd_entity e g s) = threads s"
  "lookup (upd_entity e g s) = lookup s"
  by (simp_all add: upd_entity_def lookup_def fun_eq_iff)

lemma proj_delete_key [simp]:
  "Lifetime (delete_key k s) = Lifetime s" "OnDelete (delete_key k s) = OnDelete s"
  "mu (delete_key k s) = mu s" "heap (delete_key k s) = heap s"
  "creator (delete_key k s) = creator s" "trace (delete_key k s) = trace s"
  "threads (delete_key k s) = threads s"
  "lookup (delete_key k s) = (lookup s)(k := None)"
  by (auto simp add: delete_key_def lookup_def fun_eq_iff split: option.splits)

lemma proj_return_Delete [simp]:
  "Lifetime (return_Delete t s) = Lifetime s" "OnDelete (return_Delete t s) = OnDelete s"
  "mu (return_Delete t s) = mu s" "mm (return_Delete t s) = mm s" "heap (return_Delete t s) = heap s"
  "creator (return_Delete t s) = creator s" "trace (return_Delete t s) = trace s"
  "threads (return_Delete t s) = (threads s)[t := (threads s ! t)\<lparr>pc := (if observer (threads s ! t) then L103 else Returned)\<rparr>]"
  "lookup (return_Delete t s) = lookup s"
  by (simp_all add: return_Delete_def)

lemma lookup_updates [simp]:
  "lookup (s\<lparr>mu := x\<rparr>) = lookup s" "lookup (s\<lparr>trace := tr\<rparr>) = lookup s"
  "lookup (s\<lparr>threads := ts\<rparr>) = lookup s" "lookup (s\<lparr>heap := hp\<rparr>) = lookup s"
  "lookup (s\<lparr>creator := cr\<rparr>) = lookup s"
  "lookup (s\<lparr>mm := Some mp\<rparr>) = mp"
  "lookup (if mm s = None then s\<lparr>mm := Some Map.empty\<rparr> else s) = lookup s"
  by (auto simp add: lookup_def fun_eq_iff)

lemma lookup_mm: "mm s = Some mp \<Longrightarrow> mp = lookup s"
  by (simp add: lookup_def fun_eq_iff)

text \<open>A step of goroutine \<open>t\<close>, and a step of the environment (a new call, a timer
  expiring).\<close>

lemma tstep_cases [consumes 2, case_names L51 L56nil L56 L60 L61 L65hit L65miss L66 L69 L70 L71
    L74 L77 L78 L79 L81 L81r L83err L83timer L83 L84 L85 L86 L88 L89 L92 L94 L100 L103 L108
    L110miss L110hit L112 L116 L117 L118 L120 L120nil L121 SelTimer SelDone]:
  fixes s :: "('k, 'v::zero) state"
  assumes "step a s = Some s'" and "a = Run t \<or> (\<exists>c. a = Select t c)"
  obtains
    (L51) "pc (threads s ! t) = L51"
      "s' = set_frame t ((threads s ! t)\<lparr>pc := L56, ctx := Some (ctx_or_background (ctx (threads s ! t)))\<rparr>) s"
  | (L56nil) "pc (threads s ! t) = L56"
      "fn (threads s ! t) = None"
      "s' = set_frame t ((threads s ! t)\<lparr>pc := Returned, result := Some (0, Some ErrCtorNotProvided)\<rparr>) s"
  | (L56) "pc (threads s ! t) = L56"
      "fn (threads s ! t) \<noteq> None" "s' = goto t L60 s"
  | (L60) "pc (threads s ! t) = L60"
      "mu s = None" "s' = goto t L61 (s\<lparr>mu := Some t\<rparr>)"
  | (L61) "pc (threads s ! t) = L61"
      "s' = goto t L65 (if mm s = None then s\<lparr>mm := Some Map.empty\<rparr> else s)"
  | (L65hit) e where "pc (threads s ! t) = L65"
      "lookup s (key (threads s ! t)) = Some e"
      "s' = set_frame t ((threads s ! t)\<lparr>pc := L66, ent := e\<rparr>) s"
  | (L65miss) "pc (threads s ! t) = L65"
      "lookup s (key (threads s ! t)) = None" "s' = goto t L74 s"
  | (L66) "pc (threads s ! t) = L66"
      "s' = goto t L69 (if timer (heap s ! ent (threads s ! t)) \<noteq> None
          then upd_entity (ent (threads s ! t)) (\<lambda>x. x\<lparr>timer := Some Armed\<rparr>) s else s)"
  | (L69) "pc (threads s ! t) = L69"
      "s' = goto t L70 (s\<lparr>mu := None\<rparr>)"
  | (L70) "pc (threads s ! t) = L70"
      "wg (heap s ! ent (threads s ! t)) = 0" "s' = goto t L71 s"
  | (L71) "pc (threads s ! t) = L71"
      "s' = set_frame t ((threads s ! t)\<lparr>pc := Returned,
          result := Some (val (heap s ! ent (threads s ! t)), err (heap s ! ent (threads s ! t)))\<rparr>) s"
  | (L74) "pc (threads s ! t) = L74"
      "s' = set_frame t ((threads s ! t)\<lparr>pc := L77, ent := length (heap s)\<rparr>)
             (s\<lparr>heap := heap s @ [new_entity], creator := creator s @ [t]\<rparr>)"
  | (L77) "pc (threads s ! t) = L77"
      "s' = goto t L78 (upd_entity (ent (threads s ! t)) (\<lambda>x. x\<lparr>wg := wg x + 1\<rparr>) s)"
  | (L78) "pc (threads s ! t) = L78"
      "s' = goto t L79 (s\<lparr>mm := Some ((lookup s)(key (threads s ! t) \<mapsto> ent (threads s ! t)))\<rparr>)"
  | (L79) "pc (threads s ! t) = L79"
      "s' = goto t L81 (s\<lparr>mu := None\<rparr>)"
  | (L81) "pc (threads s ! t) = L81"
      "s' = goto t L81r (s\<lparr>trace := trace s @ [CtorCall t (ent (threads s ! t)) (key (threads s ! t))]\<rparr>)"
  | (L81r) v er where "pc (threads s ! t) = L81r"
      "call_ctor (threads s ! t) = Some (v, er)"
      "s' = goto t L83 (upd_entity (ent (threads s ! t)) (\<lambda>x. x\<lparr>val := v, err := er\<rparr>) s)"
  | (L83err) "pc (threads s ! t) = L83"
      "err (heap s ! ent (threads s ! t)) \<noteq> None" "s' = goto t L84 s"
  | (L83timer) "pc (threads s ! t) = L83"
      "err (heap s ! ent (threads s ! t)) = None" "Lifetime s \<noteq> 0" "s' = goto t L88 s"
  | (L83) "pc (threads s ! t) = L83"
      "err (heap s ! ent (threads s ! t)) = None" "Lifetime s = 0" "s' = goto t L92 s"
  | (L84) "pc (threads s ! t) = L84"
      "mu s = None" "s' = goto t L85 (s\<lparr>mu := Some t\<rparr>)"
  | (L85) "pc (threads s ! t) = L85"
      "s' = goto t L86 (delete_key (key (threads s ! t)) s)"
  | (L86) "pc (threads s ! t) = L86"
      "s' = goto t L92 (s\<lparr>mu := None\<rparr>)"
  | (L88) "pc (threads s ! t) = L88"
      "s' = goto t L89 (upd_entity (ent (threads s ! t)) (\<lambda>x. x\<lparr>timer := Some Armed\<rparr>) s)"
  | (L89) "pc (threads s ! t) = L89"
      "s' = (goto t L92 s)\<lparr>threads := threads (goto t L92 s) @
         [\<lparr>pc = L98, ctx = None, key = key (threads s ! t), fn = None, ent = ent (threads s ! t),
           del_ent = 0, observer = True, result = None\<rparr>]\<rparr>"
  | (L92) "pc (threads s ! t) = L92"
      "wg (heap s ! ent (threads s ! t)) \<noteq> 0"
      "s' = goto t L94 (upd_entity (ent (threads s ! t)) (\<lambda>x. x\<lparr>wg := wg x - 1\<rparr>) s)"
  | (L94) "pc (threads s ! t) = L94"
      "s' = set_frame t ((threads s ! t)\<lparr>pc := Returned,
          result := Some (val (heap s ! ent (threads s ! t)), err (heap s ! ent (threads s ! t)))\<rparr>) s"
  | (L100) "pc (threads s ! t) = L100"
      "s' = goto t L108 s"
  | (L103) "pc (threads s ! t) = L103"
      "timer (heap s ! ent (threads s ! t)) \<noteq> None"
      "s' = goto t Returned (upd_entity (ent (threads s ! t)) (\<lambda>x. x\<lparr>timer := Some Stopped\<rparr>) s)"
  | (L108) "pc (threads s ! t) = L108"
      "mu s = None" "s' = goto t L110 (s\<lparr>mu := Some t\<rparr>)"
  | (L110miss) "pc (threads s ! t) = L110"
      "lookup s (key (threads s ! t)) = None" "s' = goto t L112 s"
  | (L110hit) e where "pc (threads s ! t) = L110"
      "lookup s (key (threads s ! t)) = Some e"
      "s' = set_frame t ((threads s ! t)\<lparr>pc := L116, del_ent := e\<rparr>) s"
  | (L112) "pc (threads s ! t) = L112"
      "s' = return_Delete t (s\<lparr>mu := None\<rparr>)"
  | (L116) "pc (threads s ! t) = L116"
      "s' = goto t L117 (upd_entity (del_ent (threads s ! t)) (\<lambda>x. x\<lparr>ctx_done := True\<rparr>) s)"
  | (L117) "pc (threads s ! t) = L117"
      "s' = goto t L118 (delete_key (key (threads s ! t)) s)"
  | (L118) "pc (threads s ! t) = L118"
      "s' = goto t L120 (s\<lparr>mu := None\<rparr>)"
  | (L120) "pc (threads s ! t) = L120"
      "OnDelete s" "s' = goto t L121 s"
  | (L120nil) "pc (threads s ! t) = L120"
      "\<not> OnDelete s" "s' = return_Delete t s"
  | (L121) "pc (threads s ! t) = L121"
      "s' = return_Delete t (s\<lparr>trace := trace s @
         [OnDeleteCall t (del_ent (threads s ! t)) (key (threads s ! t))
            (val (heap s ! del_ent (threads s ! t)))]\<rparr>)"
  | (SelTimer) "pc (threads s ! t) = L98"
      "timer (heap s ! ent (threads s ! t)) = Some Fired"
      "s' = goto t L100 (upd_entity (ent (threads s ! t)) (\<lambda>x. x\<lparr>timer := Some Stopped\<rparr>) s)"
  | (SelDone) "pc (threads s ! t) = L98"
      "ctx_done (heap s ! ent (threads s ! t))" "s' = goto t L103 s"
proof -
  consider (run) "a = Run t" | (sel) c where "a = Select t c"
    using assms(2) by blast
  then show ?thesis
  proof cases
    case run
    then have ex: "exec t s = Some s'"
      using assms(1) by (simp split: if_splits)
    then show ?thesis
    proof (cases "pc (threads s ! t)")
      case L51
      then show ?thesis using ex that(1)
        by (auto simp add: exec_def Let_def split: if_splits option.splits)
    next
      case L56
      then show ?thesis using ex that(2,3)
        by (auto simp add: exec_def Let_def split: if_splits option.splits)
    next
      case L60
      then show ?thesis using ex that(4)
        by (auto simp add: exec_def Let_def split: if_splits option.splits)
    next
      case L61
      then show ?thesis using ex that(5)
        by (auto simp add: exec_def Let_def split: if_splits option.splits)
    next
      case L65
      then show ?thesis using ex that(6,7)
        by (auto simp add: exec_def Let_def split: if_splits option.splits)
    next
      case L66
      then show ?thesis using ex that(8)
        by (auto simp add: exec_def Let_def split: if_splits option.splits)
    next
      case L69
      then show ?thesis using ex that(9)
        by (auto simp add: exec_def Let_def split: if_splits option.splits)
    next
      case L70
      then show ?thesis using ex that(10)
        by (auto simp add: exec_def Let_def split: if_splits option.splits)
    next
      case L71
      then show ?thesis using ex that(11)
        by (auto simp add: exec_def Let_def split: if_splits option.splits)
    next
      case L74
      then show ?thesis using ex that(12)
        by (auto simp add: exec_def Let_def split: if_splits option.splits)
    next
      case L77
      then show ?thesis using ex that(13)
        by (auto simp add: exec_def Let_def split: if_splits option.splits)
    next
      case L78
      then show ?thesis using ex that(14)
        by (auto simp add: exec_def Let_def dest: lookup_mm split: if_splits option.splits)
    next
      case L79
      then show ?thesis using ex that(15)
        by (auto simp add: exec_def Let_def split: if_splits option.splits)
    next
      case L81
      then show ?thesis using ex that(16)
        by (auto simp add: exec_def Let_def split: if_splits option.splits)
    next
      case L81r
      then show ?thesis using ex that(17)
        by (auto simp add: exec_def Let_def split: if_splits option.splits)
    next
      case L83
      then show ?thesis using ex that(18,19,20)
        by (auto simp add: exec_def Let_def split: if_splits option.splits)
    next
      case L84
      then show ?thesis using ex that(21)
        by (auto simp add: exec_def Let_def split: if_splits option.splits)
    next
      case L85
      then show ?thesis using ex that(22)
        by (auto simp add: exec_def Let_def split: if_splits option.splits)
    next
      case L86
      then show ?thesis using ex that(23)
        by (auto simp add: exec_def Let_def split: if_splits option.splits)
    next
      case L88
      then show ?thesis using ex that(24)
        by (auto simp add: exec_def Let_def split: if_splits option.splits)
    next
      case L89
      then show ?thesis using ex that(25)
        by (auto simp add: exec_def Let_def split: if_splits option.splits)
    next
      case L92
      then show ?thesis using ex that(26)
        by (auto simp add: exec_def Let_def split: if_splits option.splits)
    next
      case L94
      then show ?thesis using ex that(27)
        by (auto simp add: exec_def Let_def split: if_splits option.splits)
    next
      case L98
      then show ?thesis using ex
        by (auto simp add: exec_def Let_def split: if_splits option.splits)
    next
      case L100
      then show ?thesis using ex that(28)
        by (auto simp add: exec_def Let_def split: if_splits option.splits)
    next
      case L103
      then show ?thesis using ex that(29)
        by (auto simp add: exec_def Let_def split: if_splits option.splits)
    next
      case L108
      then show ?thesis using ex that(30)
        by (auto simp add: exec_def Let_def split: if_splits option.splits)
    next
      case L110
      then show ?thesis using ex that(31,32)
        by (auto simp add: exec_def Let_def split: if_splits option.splits)
    next
      case L112
      then show ?thesis using ex that(33)
        by (auto simp add: exec_def Let_def split: if_splits option.splits)
    next
      case L116
      then show ?thesis using ex that(34)
        by (auto simp add: exec_def Let_def split: if_splits option.splits)
    next
      case L117
      then show ?thesis using ex that(35)
        by (auto simp add: exec_def Let_def split: if_splits option.splits)
    next
      case L118
      then show ?thesis using ex that(36)
        by (auto simp add: exec_def Let_def split: if_splits option.splits)
    next
      case L120
      then show ?thesis using ex that(37,38)
        by (auto simp add: exec_def Let_def split: if_splits option.splits)
    next
      case L121
      then show ?thesis using ex that(39)
        by (auto simp add: exec_def Let_def split: if_splits option.splits)
    next
      case Returned
      then show ?thesis using ex
        by (auto simp add: exec_def Let_def split: if_splits option.splits)
    qed
  next
    case sel
    then have "pc (threads s ! t) = L98" and "select c t s = Some s'"
      using assms(1) by (simp_all split: if_splits)
    then show ?thesis
      using that(40,41) by (cases c) (auto simp add: Let_def split: if_splits)
  qed
qed

lemma step_kinds:
  fixes s :: "('k, 'v::zero) state"
  assumes "step a s = Some s'"
  obtains
    (Go) c where "a = Go c" "s' = s\<lparr>threads := threads s @ [start c]\<rparr>"
  | (Thread) t where "a = Run t \<or> (\<exists>c. a = Select t c)" "t < length (threads s)"
  | (Expire) e where "a = Expire e" "e < length (heap s)" "timer (heap s ! e) = Some Armed"
      "s' = upd_entity e (\<lambda>x. x\<lparr>timer := Some Fired\<rparr>) s"
  using assms by (cases a) (auto split: if_splits)

lemma pc_class [simp]:
  "inserting p \<Longrightarrow> crit p" "unpublished p \<Longrightarrow> allocated p" "unpublished p \<Longrightarrow> crit p"
  "deleting p \<Longrightarrow> crit p" "hit p \<Longrightarrow> \<not> allocated p"
  by (cases p; simp)+

lemma pc_class2:
  "\<not> wg_one p \<Longrightarrow> \<not> unpublished p \<Longrightarrow> allocated p \<or> p = Returned \<Longrightarrow> complete p"
  by (cases p; simp)

lemma start_pc [simp]: "\<not> crit (pc (start c))" "\<not> inserting (pc (start c))"
  "\<not> allocated (pc (start c))" "\<not> hit (pc (start c))" "pc (start c) \<noteq> Returned"
  "\<not> deleting (pc (start c))" "\<not> deleted (pc (start c))" "\<not> succeeding (pc (start c))"
  "\<not> observer (start c)" "pc (start c) \<noteq> L71" "pc (start c) \<noteq> L117"
  "func_of (pc (start c)) \<noteq> InObserveEntry"
  "func_of (pc (start c)) = InDelete \<Longrightarrow> fn (start c) = None"
  by (cases c; simp)+

lemmas upd = nth_list_update nth_append

lemma call_ctor_frame [simp]:
  "call_ctor (f\<lparr>pc := p\<rparr>) = call_ctor f"
  "call_ctor (f\<lparr>result := r\<rparr>) = call_ctor f"
  "call_ctor (f\<lparr>ent := e\<rparr>) = call_ctor f"
  "call_ctor (f\<lparr>del_ent := e\<rparr>) = call_ctor f"
  by (simp_all add: call_ctor_def split: option.splits)

lemma filter_fresh:
  assumes "\<forall>ev \<in> set tr. ent_of ev < h"
  shows "filter (is_Ctor_of h) tr = []" and "filter (is_OnDelete_of h) tr = []"
proof -
  have "\<not> is_Ctor_of h ev \<and> \<not> is_OnDelete_of h ev" if "ev \<in> set tr" for ev
    using assms that by (cases ev) auto
  then show "filter (is_Ctor_of h) tr = []" and "filter (is_OnDelete_of h) tr = []"
    by (simp_all add: filter_empty_conv)
qed

lemma filter_fresh_tid:
  assumes "\<forall>ev \<in> set tr. tid_of ev < n"
  shows "filter (is_OnDelete_by n) tr = []"
proof -
  have "\<not> is_OnDelete_by n ev" if "ev \<in> set tr" for ev
    using assms that by (cases ev) auto
  then show ?thesis
    by (simp add: filter_empty_conv)
qed

lemma nth_update_other_field [simp]:
  "wg (xs[i := (xs ! i)\<lparr>timer := yt\<rparr>] ! j) = wg (xs ! j)"
  "val (xs[i := (xs ! i)\<lparr>timer := yt\<rparr>] ! j) = val (xs ! j)"
  "err (xs[i := (xs ! i)\<lparr>timer := yt\<rparr>] ! j) = err (xs ! j)"
  "ctx_done (xs[i := (xs ! i)\<lparr>timer := yt\<rparr>] ! j) = ctx_done (xs ! j)"
  "val (xs[i := (xs ! i)\<lparr>wg := yw\<rparr>] ! j) = val (xs ! j)"
  "err (xs[i := (xs ! i)\<lparr>wg := yw\<rparr>] ! j) = err (xs ! j)"
  "timer (xs[i := (xs ! i)\<lparr>wg := yw\<rparr>] ! j) = timer (xs ! j)"
  "ctx_done (xs[i := (xs ! i)\<lparr>wg := yw\<rparr>] ! j) = ctx_done (xs ! j)"
  "wg (xs[i := (xs ! i)\<lparr>ctx_done := yc\<rparr>] ! j) = wg (xs ! j)"
  "val (xs[i := (xs ! i)\<lparr>ctx_done := yc\<rparr>] ! j) = val (xs ! j)"
  "err (xs[i := (xs ! i)\<lparr>ctx_done := yc\<rparr>] ! j) = err (xs ! j)"
  "timer (xs[i := (xs ! i)\<lparr>ctx_done := yc\<rparr>] ! j) = timer (xs ! j)"
  "wg (xs[i := (xs ! i)\<lparr>val := yv, err := ye\<rparr>] ! j) = wg (xs ! j)"
  "timer (xs[i := (xs ! i)\<lparr>val := yv, err := ye\<rparr>] ! j) = timer (xs ! j)"
  "ctx_done (xs[i := (xs ! i)\<lparr>val := yv, err := ye\<rparr>] ! j) = ctx_done (xs ! j)"
  by (cases "i < length xs"; cases "i = j"; simp add: list_update_beyond)+

lemma nth_update_monotone [simp]:
  "ctx_done (xs ! j) \<Longrightarrow> ctx_done (xs[i := (xs ! i)\<lparr>ctx_done := True\<rparr>] ! j)"
  "timer (xs ! i) \<noteq> None \<Longrightarrow>
     (timer (xs[i := (xs ! i)\<lparr>timer := Some y\<rparr>] ! j) = None) = (timer (xs ! j) = None)"
  by (cases "i < length xs"; cases "i = j"; simp add: list_update_beyond)+

lemma nth_update_timer_None [simp]:
  "timer (xs ! i) \<noteq> None \<Longrightarrow> timer (xs ! j) = None \<Longrightarrow>
     timer (xs[i := (xs ! i)\<lparr>timer := Some y\<rparr>] ! j) = None"
  by (cases "i < length xs"; cases "i = j"; simp add: list_update_beyond)






















lemma I_lenC: "inv s \<Longrightarrow> length (creator s) = length (heap s)"
  by (simp add: inv_def)

lemma I_mu: "inv s \<Longrightarrow> mu s = Some x \<Longrightarrow> x < length (threads s)"
  by (simp add: inv_def)

lemma I_tr: "inv s \<Longrightarrow> \<forall>ev \<in> set (trace s). ent_of ev < length (heap s)"
  by (simp add: inv_def)

lemma I_tid: "inv s \<Longrightarrow> \<forall>ev \<in> set (trace s). tid_of ev < length (threads s)"
  by (simp add: inv_def)

lemma I_T_calls: "inv s \<Longrightarrow> x < length (threads s) \<longrightarrow> T_calls s x"
  by (simp add: inv_def)

lemma I_T_lock: "inv s \<Longrightarrow> x < length (threads s) \<longrightarrow> T_lock s x"
  by (simp add: inv_def)

lemma I_T_ins: "inv s \<Longrightarrow> x < length (threads s) \<longrightarrow> T_ins s x"
  by (simp add: inv_def)

lemma I_T_own: "inv s \<Longrightarrow> x < length (threads s) \<longrightarrow> T_own s x"
  by (simp add: inv_def)

lemma I_T_hit: "inv s \<Longrightarrow> x < length (threads s) \<longrightarrow> T_hit s x"
  by (simp add: inv_def)

lemma I_T_done: "inv s \<Longrightarrow> x < length (threads s) \<longrightarrow> T_done s x"
  by (simp add: inv_def)

lemma I_T_ret: "inv s \<Longrightarrow> x < length (threads s) \<longrightarrow> T_ret s x"
  by (simp add: inv_def)

lemma I_T_nofn: "inv s \<Longrightarrow> x < length (threads s) \<longrightarrow> T_nofn s x"
  by (simp add: inv_def)

lemma I_T_obs: "inv s \<Longrightarrow> x < length (threads s) \<longrightarrow> T_obs s x"
  by (simp add: inv_def)

lemma I_T_del: "inv s \<Longrightarrow> x < length (threads s) \<longrightarrow> T_del s x"
  by (simp add: inv_def)

lemma I_T_din: "inv s \<Longrightarrow> x < length (threads s) \<longrightarrow> T_din s x"
  by (simp add: inv_def)

lemma I_T_cancel: "inv s \<Longrightarrow> x < length (threads s) \<longrightarrow> T_cancel s x"
  by (simp add: inv_def)

lemma I_T_dout: "inv s \<Longrightarrow> x < length (threads s) \<longrightarrow> T_dout s x"
  by (simp add: inv_def)

lemma I_T_life: "inv s \<Longrightarrow> x < length (threads s) \<longrightarrow> T_life s x"
  by (simp add: inv_def)

lemma I_P_del: "inv s \<Longrightarrow> x < length (threads s) \<and> y < length (threads s) \<longrightarrow> P_del s x y"
  by (simp add: inv_def)

lemma I_P_obs: "inv s \<Longrightarrow> x < length (threads s) \<and> y < length (threads s) \<longrightarrow> P_obs s x y"
  by (simp add: inv_def)

lemma I_E_own: "inv s \<Longrightarrow> x < length (heap s) \<longrightarrow> E_own s x"
  by (simp add: inv_def)

lemma I_E_wg: "inv s \<Longrightarrow> x < length (heap s) \<longrightarrow> E_wg s x"
  by (simp add: inv_def)

lemma I_E_unw: "inv s \<Longrightarrow> x < length (heap s) \<longrightarrow> E_unw s x"
  by (simp add: inv_def)

lemma I_E_wr: "inv s \<Longrightarrow> x < length (heap s) \<longrightarrow> E_wr s x"
  by (simp add: inv_def)

lemma I_E_fail: "inv s \<Longrightarrow> x < length (heap s) \<longrightarrow> E_fail s x"
  by (simp add: inv_def)

lemma I_E_notimer: "inv s \<Longrightarrow> x < length (heap s) \<longrightarrow> E_notimer s x"
  by (simp add: inv_def)

lemma I_E_timer: "inv s \<Longrightarrow> x < length (heap s) \<longrightarrow> E_timer s x"
  by (simp add: inv_def)

lemma I_E_ctor: "inv s \<Longrightarrow> x < length (heap s) \<longrightarrow> E_ctor s x"
  by (simp add: inv_def)

lemma I_E_fresh: "inv s \<Longrightarrow> x < length (heap s) \<longrightarrow> E_fresh s x"
  by (simp add: inv_def)

lemma I_E_once: "inv s \<Longrightarrow> x < length (heap s) \<longrightarrow> E_once s x"
  by (simp add: inv_def)

lemma I_M_wf: "inv s \<Longrightarrow> M_wf s k e"
  by (simp add: inv_def)

lemma I_M_err: "inv s \<Longrightarrow> M_err s k e"
  by (simp add: inv_def)

lemma I_M_tr: "inv s \<Longrightarrow> M_tr s k e"
  by (simp add: inv_def)

lemma map_inj:
  assumes "inv s" and "lookup s k = Some e" and "lookup s k' = Some e"
  shows "k = k'"
  using I_M_wf [OF assms(1), of k e] I_M_wf [OF assms(1), of k' e] assms(2,3)
  by (simp add: M_wf_def)

section \<open>Every step keeps the invariant\<close>

lemma T_lock_tstep:
  fixes s :: "('k, 'v::zero) state"
  assumes st: "step a s = Some s'" and a: "a = Run t \<or> (\<exists>c. a = Select t c)"
    and t: "t < length (threads s)" and I: "inv s" and u: "u < length (threads s')"
  shows "T_lock s' u"
  using st a
proof (cases rule: tstep_cases)
  case L51
  then show ?thesis
    using t u
      I_T_lock [OF I, of t]
      I_T_lock [OF I, of u]
      I_mu [OF I, of u]
    by (auto simp add: T_lock_def upd)
next
  case L56nil
  then show ?thesis
    using t u
      I_T_lock [OF I, of t]
      I_T_lock [OF I, of u]
      I_mu [OF I, of u]
    by (auto simp add: T_lock_def upd)
next
  case L56
  then show ?thesis
    using t u
      I_T_lock [OF I, of t]
      I_T_lock [OF I, of u]
      I_mu [OF I, of u]
    by (auto simp add: T_lock_def upd)
next
  case L60
  then show ?thesis
    using t u
      I_T_lock [OF I, of t]
      I_T_lock [OF I, of u]
      I_mu [OF I, of u]
    by (auto simp add: T_lock_def upd)
next
  case L61
  then show ?thesis
    using t u
      I_T_lock [OF I, of t]
      I_T_lock [OF I, of u]
      I_mu [OF I, of u]
    by (auto simp add: T_lock_def upd)
next
  case (L65hit e0)
  then show ?thesis
    using t u
      I_T_lock [OF I, of t]
      I_T_lock [OF I, of u]
      I_mu [OF I, of u]
    by (auto simp add: T_lock_def upd)
next
  case L65miss
  then show ?thesis
    using t u
      I_T_lock [OF I, of t]
      I_T_lock [OF I, of u]
      I_mu [OF I, of u]
    by (auto simp add: T_lock_def upd)
next
  case L66
  then show ?thesis
    using t u
      I_T_lock [OF I, of t]
      I_T_lock [OF I, of u]
      I_mu [OF I, of u]
    by (auto simp add: T_lock_def upd)
next
  case L69
  then show ?thesis
    using t u
      I_T_lock [OF I, of t]
      I_T_lock [OF I, of u]
      I_mu [OF I, of u]
    by (auto simp add: T_lock_def upd)
next
  case L70
  then show ?thesis
    using t u
      I_T_lock [OF I, of t]
      I_T_lock [OF I, of u]
      I_mu [OF I, of u]
    by (auto simp add: T_lock_def upd)
next
  case L71
  then show ?thesis
    using t u
      I_T_lock [OF I, of t]
      I_T_lock [OF I, of u]
      I_mu [OF I, of u]
    by (auto simp add: T_lock_def upd)
next
  case L74
  then show ?thesis
    using t u
      I_T_lock [OF I, of t]
      I_T_lock [OF I, of u]
      I_mu [OF I, of u]
    by (auto simp add: T_lock_def upd)
next
  case L77
  then show ?thesis
    using t u
      I_T_lock [OF I, of t]
      I_T_lock [OF I, of u]
      I_mu [OF I, of u]
    by (auto simp add: T_lock_def upd)
next
  case L78
  then show ?thesis
    using t u
      I_T_lock [OF I, of t]
      I_T_lock [OF I, of u]
      I_mu [OF I, of u]
    by (auto simp add: T_lock_def upd)
next
  case L79
  then show ?thesis
    using t u
      I_T_lock [OF I, of t]
      I_T_lock [OF I, of u]
      I_mu [OF I, of u]
    by (auto simp add: T_lock_def upd)
next
  case L81
  then show ?thesis
    using t u
      I_T_lock [OF I, of t]
      I_T_lock [OF I, of u]
      I_mu [OF I, of u]
    by (auto simp add: T_lock_def upd)
next
  case (L81r v0 er0)
  then show ?thesis
    using t u
      I_T_lock [OF I, of t]
      I_T_lock [OF I, of u]
      I_mu [OF I, of u]
    by (auto simp add: T_lock_def upd)
next
  case L83err
  then show ?thesis
    using t u
      I_T_lock [OF I, of t]
      I_T_lock [OF I, of u]
      I_mu [OF I, of u]
    by (auto simp add: T_lock_def upd)
next
  case L83timer
  then show ?thesis
    using t u
      I_T_lock [OF I, of t]
      I_T_lock [OF I, of u]
      I_mu [OF I, of u]
    by (auto simp add: T_lock_def upd)
next
  case L83
  then show ?thesis
    using t u
      I_T_lock [OF I, of t]
      I_T_lock [OF I, of u]
      I_mu [OF I, of u]
    by (auto simp add: T_lock_def upd)
next
  case L84
  then show ?thesis
    using t u
      I_T_lock [OF I, of t]
      I_T_lock [OF I, of u]
      I_mu [OF I, of u]
    by (auto simp add: T_lock_def upd)
next
  case L85
  then show ?thesis
    using t u
      I_T_lock [OF I, of t]
      I_T_lock [OF I, of u]
      I_mu [OF I, of u]
    by (auto simp add: T_lock_def upd)
next
  case L86
  then show ?thesis
    using t u
      I_T_lock [OF I, of t]
      I_T_lock [OF I, of u]
      I_mu [OF I, of u]
    by (auto simp add: T_lock_def upd)
next
  case L88
  then show ?thesis
    using t u
      I_T_lock [OF I, of t]
      I_T_lock [OF I, of u]
      I_mu [OF I, of u]
    by (auto simp add: T_lock_def upd)
next
  case L89
  then show ?thesis
    using t u
      I_T_lock [OF I, of t]
      I_T_lock [OF I, of u]
      I_mu [OF I, of u]
    by (auto simp add: T_lock_def upd)
next
  case L92
  then show ?thesis
    using t u
      I_T_lock [OF I, of t]
      I_T_lock [OF I, of u]
      I_mu [OF I, of u]
    by (auto simp add: T_lock_def upd)
next
  case L94
  then show ?thesis
    using t u
      I_T_lock [OF I, of t]
      I_T_lock [OF I, of u]
      I_mu [OF I, of u]
    by (auto simp add: T_lock_def upd)
next
  case L100
  then show ?thesis
    using t u
      I_T_lock [OF I, of t]
      I_T_lock [OF I, of u]
      I_mu [OF I, of u]
    by (auto simp add: T_lock_def upd)
next
  case L103
  then show ?thesis
    using t u
      I_T_lock [OF I, of t]
      I_T_lock [OF I, of u]
      I_mu [OF I, of u]
    by (auto simp add: T_lock_def upd)
next
  case L108
  then show ?thesis
    using t u
      I_T_lock [OF I, of t]
      I_T_lock [OF I, of u]
      I_mu [OF I, of u]
    by (auto simp add: T_lock_def upd)
next
  case L110miss
  then show ?thesis
    using t u
      I_T_lock [OF I, of t]
      I_T_lock [OF I, of u]
      I_mu [OF I, of u]
    by (auto simp add: T_lock_def upd)
next
  case (L110hit e0)
  then show ?thesis
    using t u
      I_T_lock [OF I, of t]
      I_T_lock [OF I, of u]
      I_mu [OF I, of u]
    by (auto simp add: T_lock_def upd)
next
  case L112
  then show ?thesis
    using t u
      I_T_lock [OF I, of t]
      I_T_lock [OF I, of u]
      I_mu [OF I, of u]
    by (auto simp add: T_lock_def upd)
next
  case L116
  then show ?thesis
    using t u
      I_T_lock [OF I, of t]
      I_T_lock [OF I, of u]
      I_mu [OF I, of u]
    by (auto simp add: T_lock_def upd)
next
  case L117
  then show ?thesis
    using t u
      I_T_lock [OF I, of t]
      I_T_lock [OF I, of u]
      I_mu [OF I, of u]
    by (auto simp add: T_lock_def upd)
next
  case L118
  then show ?thesis
    using t u
      I_T_lock [OF I, of t]
      I_T_lock [OF I, of u]
      I_mu [OF I, of u]
    by (auto simp add: T_lock_def upd)
next
  case L120
  then show ?thesis
    using t u
      I_T_lock [OF I, of t]
      I_T_lock [OF I, of u]
      I_mu [OF I, of u]
    by (auto simp add: T_lock_def upd)
next
  case L120nil
  then show ?thesis
    using t u
      I_T_lock [OF I, of t]
      I_T_lock [OF I, of u]
      I_mu [OF I, of u]
    by (auto simp add: T_lock_def upd)
next
  case L121
  then show ?thesis
    using t u
      I_T_lock [OF I, of t]
      I_T_lock [OF I, of u]
      I_mu [OF I, of u]
    by (auto simp add: T_lock_def upd)
next
  case SelTimer
  then show ?thesis
    using t u
      I_T_lock [OF I, of t]
      I_T_lock [OF I, of u]
      I_mu [OF I, of u]
    by (auto simp add: T_lock_def upd)
next
  case SelDone
  then show ?thesis
    using t u
      I_T_lock [OF I, of t]
      I_T_lock [OF I, of u]
      I_mu [OF I, of u]
    by (auto simp add: T_lock_def upd)
qed

lemma T_lock_step:
  fixes s :: "('k, 'v::zero) state"
  assumes st: "step a s = Some s'" and I: "inv s" and u: "u < length (threads s')"
  shows "T_lock s' u"
  using st
proof (cases rule: step_kinds)
  case (Go c)
  then show ?thesis
    using u
      I_T_lock [OF I, of u]
      I_mu [OF I, of u]
    by (auto simp add: T_lock_def upd)
next
  case (Thread t)
  show ?thesis
    by (rule T_lock_tstep [OF st Thread I u])
next
  case (Expire e0)
  then show ?thesis
    using u
      I_T_lock [OF I, of u]
      I_mu [OF I, of u]
    by (auto simp add: T_lock_def)
qed

lemma T_ins_tstep:
  fixes s :: "('k, 'v::zero) state"
  assumes st: "step a s = Some s'" and a: "a = Run t \<or> (\<exists>c. a = Select t c)"
    and t: "t < length (threads s)" and I: "inv s" and u: "u < length (threads s')"
  shows "T_ins s' u"
  using st a
proof (cases rule: tstep_cases)
  case L51
  then show ?thesis
    using t u
      I_T_ins [OF I, of t]
      I_T_ins [OF I, of u]
      I_T_lock [OF I, of t]
      I_T_lock [OF I, of u]
    by (auto simp add: T_ins_def T_lock_def upd)
next
  case L56nil
  then show ?thesis
    using t u
      I_T_ins [OF I, of t]
      I_T_ins [OF I, of u]
      I_T_lock [OF I, of t]
      I_T_lock [OF I, of u]
    by (auto simp add: T_ins_def T_lock_def upd)
next
  case L56
  then show ?thesis
    using t u
      I_T_ins [OF I, of t]
      I_T_ins [OF I, of u]
      I_T_lock [OF I, of t]
      I_T_lock [OF I, of u]
    by (auto simp add: T_ins_def T_lock_def upd)
next
  case L60
  then show ?thesis
    using t u
      I_T_ins [OF I, of t]
      I_T_ins [OF I, of u]
      I_T_lock [OF I, of t]
      I_T_lock [OF I, of u]
    by (auto simp add: T_ins_def T_lock_def upd)
next
  case L61
  then show ?thesis
    using t u
      I_T_ins [OF I, of t]
      I_T_ins [OF I, of u]
      I_T_lock [OF I, of t]
      I_T_lock [OF I, of u]
    by (auto simp add: T_ins_def T_lock_def upd)
next
  case (L65hit e0)
  then show ?thesis
    using t u
      I_T_ins [OF I, of t]
      I_T_ins [OF I, of u]
      I_T_lock [OF I, of t]
      I_T_lock [OF I, of u]
    by (auto simp add: T_ins_def T_lock_def upd)
next
  case L65miss
  then show ?thesis
    using t u
      I_T_ins [OF I, of t]
      I_T_ins [OF I, of u]
      I_T_lock [OF I, of t]
      I_T_lock [OF I, of u]
    by (auto simp add: T_ins_def T_lock_def upd)
next
  case L66
  then show ?thesis
    using t u
      I_T_ins [OF I, of t]
      I_T_ins [OF I, of u]
      I_T_lock [OF I, of t]
      I_T_lock [OF I, of u]
    by (auto simp add: T_ins_def T_lock_def upd)
next
  case L69
  then show ?thesis
    using t u
      I_T_ins [OF I, of t]
      I_T_ins [OF I, of u]
      I_T_lock [OF I, of t]
      I_T_lock [OF I, of u]
    by (auto simp add: T_ins_def T_lock_def upd)
next
  case L70
  then show ?thesis
    using t u
      I_T_ins [OF I, of t]
      I_T_ins [OF I, of u]
      I_T_lock [OF I, of t]
      I_T_lock [OF I, of u]
    by (auto simp add: T_ins_def T_lock_def upd)
next
  case L71
  then show ?thesis
    using t u
      I_T_ins [OF I, of t]
      I_T_ins [OF I, of u]
      I_T_lock [OF I, of t]
      I_T_lock [OF I, of u]
    by (auto simp add: T_ins_def T_lock_def upd)
next
  case L74
  then show ?thesis
    using t u
      I_T_ins [OF I, of t]
      I_T_ins [OF I, of u]
      I_T_lock [OF I, of t]
      I_T_lock [OF I, of u]
    by (auto simp add: T_ins_def T_lock_def upd)
next
  case L77
  then show ?thesis
    using t u
      I_T_ins [OF I, of t]
      I_T_ins [OF I, of u]
      I_T_lock [OF I, of t]
      I_T_lock [OF I, of u]
    by (auto simp add: T_ins_def T_lock_def upd)
next
  case L78
  then show ?thesis
    using t u
      I_T_ins [OF I, of t]
      I_T_ins [OF I, of u]
      I_T_lock [OF I, of t]
      I_T_lock [OF I, of u]
    by (auto simp add: T_ins_def T_lock_def upd)
next
  case L79
  then show ?thesis
    using t u
      I_T_ins [OF I, of t]
      I_T_ins [OF I, of u]
      I_T_lock [OF I, of t]
      I_T_lock [OF I, of u]
    by (auto simp add: T_ins_def T_lock_def upd)
next
  case L81
  then show ?thesis
    using t u
      I_T_ins [OF I, of t]
      I_T_ins [OF I, of u]
      I_T_lock [OF I, of t]
      I_T_lock [OF I, of u]
    by (auto simp add: T_ins_def T_lock_def upd)
next
  case (L81r v0 er0)
  then show ?thesis
    using t u
      I_T_ins [OF I, of t]
      I_T_ins [OF I, of u]
      I_T_lock [OF I, of t]
      I_T_lock [OF I, of u]
    by (auto simp add: T_ins_def T_lock_def upd)
next
  case L83err
  then show ?thesis
    using t u
      I_T_ins [OF I, of t]
      I_T_ins [OF I, of u]
      I_T_lock [OF I, of t]
      I_T_lock [OF I, of u]
    by (auto simp add: T_ins_def T_lock_def upd)
next
  case L83timer
  then show ?thesis
    using t u
      I_T_ins [OF I, of t]
      I_T_ins [OF I, of u]
      I_T_lock [OF I, of t]
      I_T_lock [OF I, of u]
    by (auto simp add: T_ins_def T_lock_def upd)
next
  case L83
  then show ?thesis
    using t u
      I_T_ins [OF I, of t]
      I_T_ins [OF I, of u]
      I_T_lock [OF I, of t]
      I_T_lock [OF I, of u]
    by (auto simp add: T_ins_def T_lock_def upd)
next
  case L84
  then show ?thesis
    using t u
      I_T_ins [OF I, of t]
      I_T_ins [OF I, of u]
      I_T_lock [OF I, of t]
      I_T_lock [OF I, of u]
    by (auto simp add: T_ins_def T_lock_def upd)
next
  case L85
  then show ?thesis
    using t u
      I_T_ins [OF I, of t]
      I_T_ins [OF I, of u]
      I_T_lock [OF I, of t]
      I_T_lock [OF I, of u]
    by (auto simp add: T_ins_def T_lock_def upd)
next
  case L86
  then show ?thesis
    using t u
      I_T_ins [OF I, of t]
      I_T_ins [OF I, of u]
      I_T_lock [OF I, of t]
      I_T_lock [OF I, of u]
    by (auto simp add: T_ins_def T_lock_def upd)
next
  case L88
  then show ?thesis
    using t u
      I_T_ins [OF I, of t]
      I_T_ins [OF I, of u]
      I_T_lock [OF I, of t]
      I_T_lock [OF I, of u]
    by (auto simp add: T_ins_def T_lock_def upd)
next
  case L89
  then show ?thesis
    using t u
      I_T_ins [OF I, of t]
      I_T_ins [OF I, of u]
      I_T_lock [OF I, of t]
      I_T_lock [OF I, of u]
    by (auto simp add: T_ins_def T_lock_def upd)
next
  case L92
  then show ?thesis
    using t u
      I_T_ins [OF I, of t]
      I_T_ins [OF I, of u]
      I_T_lock [OF I, of t]
      I_T_lock [OF I, of u]
    by (auto simp add: T_ins_def T_lock_def upd)
next
  case L94
  then show ?thesis
    using t u
      I_T_ins [OF I, of t]
      I_T_ins [OF I, of u]
      I_T_lock [OF I, of t]
      I_T_lock [OF I, of u]
    by (auto simp add: T_ins_def T_lock_def upd)
next
  case L100
  then show ?thesis
    using t u
      I_T_ins [OF I, of t]
      I_T_ins [OF I, of u]
      I_T_lock [OF I, of t]
      I_T_lock [OF I, of u]
    by (auto simp add: T_ins_def T_lock_def upd)
next
  case L103
  then show ?thesis
    using t u
      I_T_ins [OF I, of t]
      I_T_ins [OF I, of u]
      I_T_lock [OF I, of t]
      I_T_lock [OF I, of u]
    by (auto simp add: T_ins_def T_lock_def upd)
next
  case L108
  then show ?thesis
    using t u
      I_T_ins [OF I, of t]
      I_T_ins [OF I, of u]
      I_T_lock [OF I, of t]
      I_T_lock [OF I, of u]
    by (auto simp add: T_ins_def T_lock_def upd)
next
  case L110miss
  then show ?thesis
    using t u
      I_T_ins [OF I, of t]
      I_T_ins [OF I, of u]
      I_T_lock [OF I, of t]
      I_T_lock [OF I, of u]
    by (auto simp add: T_ins_def T_lock_def upd)
next
  case (L110hit e0)
  then show ?thesis
    using t u
      I_T_ins [OF I, of t]
      I_T_ins [OF I, of u]
      I_T_lock [OF I, of t]
      I_T_lock [OF I, of u]
    by (auto simp add: T_ins_def T_lock_def upd)
next
  case L112
  then show ?thesis
    using t u
      I_T_ins [OF I, of t]
      I_T_ins [OF I, of u]
      I_T_lock [OF I, of t]
      I_T_lock [OF I, of u]
    by (auto simp add: T_ins_def T_lock_def upd)
next
  case L116
  then show ?thesis
    using t u
      I_T_ins [OF I, of t]
      I_T_ins [OF I, of u]
      I_T_lock [OF I, of t]
      I_T_lock [OF I, of u]
    by (auto simp add: T_ins_def T_lock_def upd)
next
  case L117
  then show ?thesis
    using t u
      I_T_ins [OF I, of t]
      I_T_ins [OF I, of u]
      I_T_lock [OF I, of t]
      I_T_lock [OF I, of u]
    by (auto simp add: T_ins_def T_lock_def upd)
next
  case L118
  then show ?thesis
    using t u
      I_T_ins [OF I, of t]
      I_T_ins [OF I, of u]
      I_T_lock [OF I, of t]
      I_T_lock [OF I, of u]
    by (auto simp add: T_ins_def T_lock_def upd)
next
  case L120
  then show ?thesis
    using t u
      I_T_ins [OF I, of t]
      I_T_ins [OF I, of u]
      I_T_lock [OF I, of t]
      I_T_lock [OF I, of u]
    by (auto simp add: T_ins_def T_lock_def upd)
next
  case L120nil
  then show ?thesis
    using t u
      I_T_ins [OF I, of t]
      I_T_ins [OF I, of u]
      I_T_lock [OF I, of t]
      I_T_lock [OF I, of u]
    by (auto simp add: T_ins_def T_lock_def upd)
next
  case L121
  then show ?thesis
    using t u
      I_T_ins [OF I, of t]
      I_T_ins [OF I, of u]
      I_T_lock [OF I, of t]
      I_T_lock [OF I, of u]
    by (auto simp add: T_ins_def T_lock_def upd)
next
  case SelTimer
  then show ?thesis
    using t u
      I_T_ins [OF I, of t]
      I_T_ins [OF I, of u]
      I_T_lock [OF I, of t]
      I_T_lock [OF I, of u]
    by (auto simp add: T_ins_def T_lock_def upd)
next
  case SelDone
  then show ?thesis
    using t u
      I_T_ins [OF I, of t]
      I_T_ins [OF I, of u]
      I_T_lock [OF I, of t]
      I_T_lock [OF I, of u]
    by (auto simp add: T_ins_def T_lock_def upd)
qed

lemma T_ins_step:
  fixes s :: "('k, 'v::zero) state"
  assumes st: "step a s = Some s'" and I: "inv s" and u: "u < length (threads s')"
  shows "T_ins s' u"
  using st
proof (cases rule: step_kinds)
  case (Go c)
  then show ?thesis
    using u
      I_T_ins [OF I, of u]
      I_T_lock [OF I, of u]
    by (auto simp add: T_ins_def T_lock_def upd)
next
  case (Thread t)
  show ?thesis
    by (rule T_ins_tstep [OF st Thread I u])
next
  case (Expire e0)
  then show ?thesis
    using u
      I_T_ins [OF I, of u]
      I_T_lock [OF I, of u]
    by (auto simp add: T_ins_def T_lock_def)
qed

lemma T_own_tstep:
  fixes s :: "('k, 'v::zero) state"
  assumes st: "step a s = Some s'" and a: "a = Run t \<or> (\<exists>c. a = Select t c)"
    and t: "t < length (threads s)" and I: "inv s" and u: "u < length (threads s')"
  shows "T_own s' u"
  using st a
proof (cases rule: tstep_cases)
  case L51
  then show ?thesis
    using t u
      I_T_own [OF I, of t]
      I_T_own [OF I, of u]
      I_lenC [OF I]
    by (auto simp add: T_own_def upd)
next
  case L56nil
  then show ?thesis
    using t u
      I_T_own [OF I, of t]
      I_T_own [OF I, of u]
      I_lenC [OF I]
    by (auto simp add: T_own_def upd)
next
  case L56
  then show ?thesis
    using t u
      I_T_own [OF I, of t]
      I_T_own [OF I, of u]
      I_lenC [OF I]
    by (auto simp add: T_own_def upd)
next
  case L60
  then show ?thesis
    using t u
      I_T_own [OF I, of t]
      I_T_own [OF I, of u]
      I_lenC [OF I]
    by (auto simp add: T_own_def upd)
next
  case L61
  then show ?thesis
    using t u
      I_T_own [OF I, of t]
      I_T_own [OF I, of u]
      I_lenC [OF I]
    by (auto simp add: T_own_def upd)
next
  case (L65hit e0)
  then show ?thesis
    using t u
      I_T_own [OF I, of t]
      I_T_own [OF I, of u]
      I_lenC [OF I]
    by (auto simp add: T_own_def upd)
next
  case L65miss
  then show ?thesis
    using t u
      I_T_own [OF I, of t]
      I_T_own [OF I, of u]
      I_lenC [OF I]
    by (auto simp add: T_own_def upd)
next
  case L66
  then show ?thesis
    using t u
      I_T_own [OF I, of t]
      I_T_own [OF I, of u]
      I_lenC [OF I]
    by (auto simp add: T_own_def upd)
next
  case L69
  then show ?thesis
    using t u
      I_T_own [OF I, of t]
      I_T_own [OF I, of u]
      I_lenC [OF I]
    by (auto simp add: T_own_def upd)
next
  case L70
  then show ?thesis
    using t u
      I_T_own [OF I, of t]
      I_T_own [OF I, of u]
      I_lenC [OF I]
    by (auto simp add: T_own_def upd)
next
  case L71
  then show ?thesis
    using t u
      I_T_own [OF I, of t]
      I_T_own [OF I, of u]
      I_lenC [OF I]
    by (auto simp add: T_own_def upd)
next
  case L74
  then show ?thesis
    using t u
      I_T_own [OF I, of t]
      I_T_own [OF I, of u]
      I_lenC [OF I]
    by (auto simp add: T_own_def upd)
next
  case L77
  then show ?thesis
    using t u
      I_T_own [OF I, of t]
      I_T_own [OF I, of u]
      I_lenC [OF I]
    by (auto simp add: T_own_def upd)
next
  case L78
  then show ?thesis
    using t u
      I_T_own [OF I, of t]
      I_T_own [OF I, of u]
      I_lenC [OF I]
    by (auto simp add: T_own_def upd)
next
  case L79
  then show ?thesis
    using t u
      I_T_own [OF I, of t]
      I_T_own [OF I, of u]
      I_lenC [OF I]
    by (auto simp add: T_own_def upd)
next
  case L81
  then show ?thesis
    using t u
      I_T_own [OF I, of t]
      I_T_own [OF I, of u]
      I_lenC [OF I]
    by (auto simp add: T_own_def upd)
next
  case (L81r v0 er0)
  then show ?thesis
    using t u
      I_T_own [OF I, of t]
      I_T_own [OF I, of u]
      I_lenC [OF I]
    by (auto simp add: T_own_def upd)
next
  case L83err
  then show ?thesis
    using t u
      I_T_own [OF I, of t]
      I_T_own [OF I, of u]
      I_lenC [OF I]
    by (auto simp add: T_own_def upd)
next
  case L83timer
  then show ?thesis
    using t u
      I_T_own [OF I, of t]
      I_T_own [OF I, of u]
      I_lenC [OF I]
    by (auto simp add: T_own_def upd)
next
  case L83
  then show ?thesis
    using t u
      I_T_own [OF I, of t]
      I_T_own [OF I, of u]
      I_lenC [OF I]
    by (auto simp add: T_own_def upd)
next
  case L84
  then show ?thesis
    using t u
      I_T_own [OF I, of t]
      I_T_own [OF I, of u]
      I_lenC [OF I]
    by (auto simp add: T_own_def upd)
next
  case L85
  then show ?thesis
    using t u
      I_T_own [OF I, of t]
      I_T_own [OF I, of u]
      I_lenC [OF I]
    by (auto simp add: T_own_def upd)
next
  case L86
  then show ?thesis
    using t u
      I_T_own [OF I, of t]
      I_T_own [OF I, of u]
      I_lenC [OF I]
    by (auto simp add: T_own_def upd)
next
  case L88
  then show ?thesis
    using t u
      I_T_own [OF I, of t]
      I_T_own [OF I, of u]
      I_lenC [OF I]
    by (auto simp add: T_own_def upd)
next
  case L89
  then show ?thesis
    using t u
      I_T_own [OF I, of t]
      I_T_own [OF I, of u]
      I_lenC [OF I]
    by (auto simp add: T_own_def upd)
next
  case L92
  then show ?thesis
    using t u
      I_T_own [OF I, of t]
      I_T_own [OF I, of u]
      I_lenC [OF I]
    by (auto simp add: T_own_def upd)
next
  case L94
  then show ?thesis
    using t u
      I_T_own [OF I, of t]
      I_T_own [OF I, of u]
      I_lenC [OF I]
    by (auto simp add: T_own_def upd)
next
  case L100
  then show ?thesis
    using t u
      I_T_own [OF I, of t]
      I_T_own [OF I, of u]
      I_lenC [OF I]
    by (auto simp add: T_own_def upd)
next
  case L103
  then show ?thesis
    using t u
      I_T_own [OF I, of t]
      I_T_own [OF I, of u]
      I_lenC [OF I]
    by (auto simp add: T_own_def upd)
next
  case L108
  then show ?thesis
    using t u
      I_T_own [OF I, of t]
      I_T_own [OF I, of u]
      I_lenC [OF I]
    by (auto simp add: T_own_def upd)
next
  case L110miss
  then show ?thesis
    using t u
      I_T_own [OF I, of t]
      I_T_own [OF I, of u]
      I_lenC [OF I]
    by (auto simp add: T_own_def upd)
next
  case (L110hit e0)
  then show ?thesis
    using t u
      I_T_own [OF I, of t]
      I_T_own [OF I, of u]
      I_lenC [OF I]
    by (auto simp add: T_own_def upd)
next
  case L112
  then show ?thesis
    using t u
      I_T_own [OF I, of t]
      I_T_own [OF I, of u]
      I_lenC [OF I]
    by (auto simp add: T_own_def upd)
next
  case L116
  then show ?thesis
    using t u
      I_T_own [OF I, of t]
      I_T_own [OF I, of u]
      I_lenC [OF I]
    by (auto simp add: T_own_def upd)
next
  case L117
  then show ?thesis
    using t u
      I_T_own [OF I, of t]
      I_T_own [OF I, of u]
      I_lenC [OF I]
    by (auto simp add: T_own_def upd)
next
  case L118
  then show ?thesis
    using t u
      I_T_own [OF I, of t]
      I_T_own [OF I, of u]
      I_lenC [OF I]
    by (auto simp add: T_own_def upd)
next
  case L120
  then show ?thesis
    using t u
      I_T_own [OF I, of t]
      I_T_own [OF I, of u]
      I_lenC [OF I]
    by (auto simp add: T_own_def upd)
next
  case L120nil
  then show ?thesis
    using t u
      I_T_own [OF I, of t]
      I_T_own [OF I, of u]
      I_lenC [OF I]
    by (auto simp add: T_own_def upd)
next
  case L121
  then show ?thesis
    using t u
      I_T_own [OF I, of t]
      I_T_own [OF I, of u]
      I_lenC [OF I]
    by (auto simp add: T_own_def upd)
next
  case SelTimer
  then show ?thesis
    using t u
      I_T_own [OF I, of t]
      I_T_own [OF I, of u]
      I_lenC [OF I]
    by (auto simp add: T_own_def upd)
next
  case SelDone
  then show ?thesis
    using t u
      I_T_own [OF I, of t]
      I_T_own [OF I, of u]
      I_lenC [OF I]
    by (auto simp add: T_own_def upd)
qed

lemma T_own_step:
  fixes s :: "('k, 'v::zero) state"
  assumes st: "step a s = Some s'" and I: "inv s" and u: "u < length (threads s')"
  shows "T_own s' u"
  using st
proof (cases rule: step_kinds)
  case (Go c)
  then show ?thesis
    using u
      I_T_own [OF I, of u]
      I_lenC [OF I]
    by (auto simp add: T_own_def upd)
next
  case (Thread t)
  show ?thesis
    by (rule T_own_tstep [OF st Thread I u])
next
  case (Expire e0)
  then show ?thesis
    using u
      I_T_own [OF I, of u]
      I_lenC [OF I]
    by (auto simp add: T_own_def)
qed

lemma T_hit_tstep:
  fixes s :: "('k, 'v::zero) state"
  assumes st: "step a s = Some s'" and a: "a = Run t \<or> (\<exists>c. a = Select t c)"
    and t: "t < length (threads s)" and I: "inv s" and u: "u < length (threads s')"
  shows "T_hit s' u"
  using st a
proof (cases rule: tstep_cases)
  case L51
  then show ?thesis
    using t u
      I_T_hit [OF I, of t]
      I_T_hit [OF I, of u]
      I_E_own [OF I, of "ent (threads s ! u)"]
      I_lenC [OF I]
    by (auto simp add: T_hit_def E_own_def upd)
next
  case L56nil
  then show ?thesis
    using t u
      I_T_hit [OF I, of t]
      I_T_hit [OF I, of u]
      I_E_own [OF I, of "ent (threads s ! u)"]
      I_lenC [OF I]
    by (auto simp add: T_hit_def E_own_def upd)
next
  case L56
  then show ?thesis
    using t u
      I_T_hit [OF I, of t]
      I_T_hit [OF I, of u]
      I_E_own [OF I, of "ent (threads s ! u)"]
      I_lenC [OF I]
    by (auto simp add: T_hit_def E_own_def upd)
next
  case L60
  then show ?thesis
    using t u
      I_T_hit [OF I, of t]
      I_T_hit [OF I, of u]
      I_E_own [OF I, of "ent (threads s ! u)"]
      I_lenC [OF I]
    by (auto simp add: T_hit_def E_own_def upd)
next
  case L61
  then show ?thesis
    using t u
      I_T_hit [OF I, of t]
      I_T_hit [OF I, of u]
      I_E_own [OF I, of "ent (threads s ! u)"]
      I_lenC [OF I]
    by (auto simp add: T_hit_def E_own_def upd)
next
  case (L65hit e0)
  then show ?thesis
    using t u
      I_T_hit [OF I, of t]
      I_T_hit [OF I, of u]
      I_E_own [OF I, of "ent (threads s ! u)"]
      I_lenC [OF I]
      I_M_wf [OF I, of "key (threads s ! t)" e0]
      I_E_own [OF I, of e0]
    by (auto simp add: T_hit_def E_own_def M_wf_def upd)
next
  case L65miss
  then show ?thesis
    using t u
      I_T_hit [OF I, of t]
      I_T_hit [OF I, of u]
      I_E_own [OF I, of "ent (threads s ! u)"]
      I_lenC [OF I]
    by (auto simp add: T_hit_def E_own_def upd)
next
  case L66
  then show ?thesis
    using t u
      I_T_hit [OF I, of t]
      I_T_hit [OF I, of u]
      I_E_own [OF I, of "ent (threads s ! u)"]
      I_lenC [OF I]
    by (auto simp add: T_hit_def E_own_def upd)
next
  case L69
  then show ?thesis
    using t u
      I_T_hit [OF I, of t]
      I_T_hit [OF I, of u]
      I_E_own [OF I, of "ent (threads s ! u)"]
      I_lenC [OF I]
    by (auto simp add: T_hit_def E_own_def upd)
next
  case L70
  then show ?thesis
    using t u
      I_T_hit [OF I, of t]
      I_T_hit [OF I, of u]
      I_E_own [OF I, of "ent (threads s ! u)"]
      I_lenC [OF I]
    by (auto simp add: T_hit_def E_own_def upd)
next
  case L71
  then show ?thesis
    using t u
      I_T_hit [OF I, of t]
      I_T_hit [OF I, of u]
      I_E_own [OF I, of "ent (threads s ! u)"]
      I_lenC [OF I]
    by (auto simp add: T_hit_def E_own_def upd)
next
  case L74
  then show ?thesis
    using t u
      I_T_hit [OF I, of t]
      I_T_hit [OF I, of u]
      I_E_own [OF I, of "ent (threads s ! u)"]
      I_lenC [OF I]
    by (auto simp add: T_hit_def E_own_def upd)
next
  case L77
  then show ?thesis
    using t u
      I_T_hit [OF I, of t]
      I_T_hit [OF I, of u]
      I_E_own [OF I, of "ent (threads s ! u)"]
      I_lenC [OF I]
    by (auto simp add: T_hit_def E_own_def upd)
next
  case L78
  then show ?thesis
    using t u
      I_T_hit [OF I, of t]
      I_T_hit [OF I, of u]
      I_E_own [OF I, of "ent (threads s ! u)"]
      I_lenC [OF I]
    by (auto simp add: T_hit_def E_own_def upd)
next
  case L79
  then show ?thesis
    using t u
      I_T_hit [OF I, of t]
      I_T_hit [OF I, of u]
      I_E_own [OF I, of "ent (threads s ! u)"]
      I_lenC [OF I]
    by (auto simp add: T_hit_def E_own_def upd)
next
  case L81
  then show ?thesis
    using t u
      I_T_hit [OF I, of t]
      I_T_hit [OF I, of u]
      I_E_own [OF I, of "ent (threads s ! u)"]
      I_lenC [OF I]
    by (auto simp add: T_hit_def E_own_def upd)
next
  case (L81r v0 er0)
  then show ?thesis
    using t u
      I_T_hit [OF I, of t]
      I_T_hit [OF I, of u]
      I_E_own [OF I, of "ent (threads s ! u)"]
      I_lenC [OF I]
    by (auto simp add: T_hit_def E_own_def upd)
next
  case L83err
  then show ?thesis
    using t u
      I_T_hit [OF I, of t]
      I_T_hit [OF I, of u]
      I_E_own [OF I, of "ent (threads s ! u)"]
      I_lenC [OF I]
    by (auto simp add: T_hit_def E_own_def upd)
next
  case L83timer
  then show ?thesis
    using t u
      I_T_hit [OF I, of t]
      I_T_hit [OF I, of u]
      I_E_own [OF I, of "ent (threads s ! u)"]
      I_lenC [OF I]
    by (auto simp add: T_hit_def E_own_def upd)
next
  case L83
  then show ?thesis
    using t u
      I_T_hit [OF I, of t]
      I_T_hit [OF I, of u]
      I_E_own [OF I, of "ent (threads s ! u)"]
      I_lenC [OF I]
    by (auto simp add: T_hit_def E_own_def upd)
next
  case L84
  then show ?thesis
    using t u
      I_T_hit [OF I, of t]
      I_T_hit [OF I, of u]
      I_E_own [OF I, of "ent (threads s ! u)"]
      I_lenC [OF I]
    by (auto simp add: T_hit_def E_own_def upd)
next
  case L85
  then show ?thesis
    using t u
      I_T_hit [OF I, of t]
      I_T_hit [OF I, of u]
      I_E_own [OF I, of "ent (threads s ! u)"]
      I_lenC [OF I]
    by (auto simp add: T_hit_def E_own_def upd)
next
  case L86
  then show ?thesis
    using t u
      I_T_hit [OF I, of t]
      I_T_hit [OF I, of u]
      I_E_own [OF I, of "ent (threads s ! u)"]
      I_lenC [OF I]
    by (auto simp add: T_hit_def E_own_def upd)
next
  case L88
  then show ?thesis
    using t u
      I_T_hit [OF I, of t]
      I_T_hit [OF I, of u]
      I_E_own [OF I, of "ent (threads s ! u)"]
      I_lenC [OF I]
    by (auto simp add: T_hit_def E_own_def upd)
next
  case L89
  then show ?thesis
    using t u
      I_T_hit [OF I, of t]
      I_T_hit [OF I, of u]
      I_E_own [OF I, of "ent (threads s ! u)"]
      I_lenC [OF I]
    by (auto simp add: T_hit_def E_own_def upd)
next
  case L92
  then show ?thesis
    using t u
      I_T_hit [OF I, of t]
      I_T_hit [OF I, of u]
      I_E_own [OF I, of "ent (threads s ! u)"]
      I_lenC [OF I]
    by (auto simp add: T_hit_def E_own_def upd)
next
  case L94
  then show ?thesis
    using t u
      I_T_hit [OF I, of t]
      I_T_hit [OF I, of u]
      I_E_own [OF I, of "ent (threads s ! u)"]
      I_lenC [OF I]
    by (auto simp add: T_hit_def E_own_def upd)
next
  case L100
  then show ?thesis
    using t u
      I_T_hit [OF I, of t]
      I_T_hit [OF I, of u]
      I_E_own [OF I, of "ent (threads s ! u)"]
      I_lenC [OF I]
    by (auto simp add: T_hit_def E_own_def upd)
next
  case L103
  then show ?thesis
    using t u
      I_T_hit [OF I, of t]
      I_T_hit [OF I, of u]
      I_E_own [OF I, of "ent (threads s ! u)"]
      I_lenC [OF I]
    by (auto simp add: T_hit_def E_own_def upd)
next
  case L108
  then show ?thesis
    using t u
      I_T_hit [OF I, of t]
      I_T_hit [OF I, of u]
      I_E_own [OF I, of "ent (threads s ! u)"]
      I_lenC [OF I]
    by (auto simp add: T_hit_def E_own_def upd)
next
  case L110miss
  then show ?thesis
    using t u
      I_T_hit [OF I, of t]
      I_T_hit [OF I, of u]
      I_E_own [OF I, of "ent (threads s ! u)"]
      I_lenC [OF I]
    by (auto simp add: T_hit_def E_own_def upd)
next
  case (L110hit e0)
  then show ?thesis
    using t u
      I_T_hit [OF I, of t]
      I_T_hit [OF I, of u]
      I_E_own [OF I, of "ent (threads s ! u)"]
      I_lenC [OF I]
    by (auto simp add: T_hit_def E_own_def upd)
next
  case L112
  then show ?thesis
    using t u
      I_T_hit [OF I, of t]
      I_T_hit [OF I, of u]
      I_E_own [OF I, of "ent (threads s ! u)"]
      I_lenC [OF I]
    by (auto simp add: T_hit_def E_own_def upd)
next
  case L116
  then show ?thesis
    using t u
      I_T_hit [OF I, of t]
      I_T_hit [OF I, of u]
      I_E_own [OF I, of "ent (threads s ! u)"]
      I_lenC [OF I]
    by (auto simp add: T_hit_def E_own_def upd)
next
  case L117
  then show ?thesis
    using t u
      I_T_hit [OF I, of t]
      I_T_hit [OF I, of u]
      I_E_own [OF I, of "ent (threads s ! u)"]
      I_lenC [OF I]
    by (auto simp add: T_hit_def E_own_def upd)
next
  case L118
  then show ?thesis
    using t u
      I_T_hit [OF I, of t]
      I_T_hit [OF I, of u]
      I_E_own [OF I, of "ent (threads s ! u)"]
      I_lenC [OF I]
    by (auto simp add: T_hit_def E_own_def upd)
next
  case L120
  then show ?thesis
    using t u
      I_T_hit [OF I, of t]
      I_T_hit [OF I, of u]
      I_E_own [OF I, of "ent (threads s ! u)"]
      I_lenC [OF I]
    by (auto simp add: T_hit_def E_own_def upd)
next
  case L120nil
  then show ?thesis
    using t u
      I_T_hit [OF I, of t]
      I_T_hit [OF I, of u]
      I_E_own [OF I, of "ent (threads s ! u)"]
      I_lenC [OF I]
    by (auto simp add: T_hit_def E_own_def upd)
next
  case L121
  then show ?thesis
    using t u
      I_T_hit [OF I, of t]
      I_T_hit [OF I, of u]
      I_E_own [OF I, of "ent (threads s ! u)"]
      I_lenC [OF I]
    by (auto simp add: T_hit_def E_own_def upd)
next
  case SelTimer
  then show ?thesis
    using t u
      I_T_hit [OF I, of t]
      I_T_hit [OF I, of u]
      I_E_own [OF I, of "ent (threads s ! u)"]
      I_lenC [OF I]
    by (auto simp add: T_hit_def E_own_def upd)
next
  case SelDone
  then show ?thesis
    using t u
      I_T_hit [OF I, of t]
      I_T_hit [OF I, of u]
      I_E_own [OF I, of "ent (threads s ! u)"]
      I_lenC [OF I]
    by (auto simp add: T_hit_def E_own_def upd)
qed

lemma T_hit_step:
  fixes s :: "('k, 'v::zero) state"
  assumes st: "step a s = Some s'" and I: "inv s" and u: "u < length (threads s')"
  shows "T_hit s' u"
  using st
proof (cases rule: step_kinds)
  case (Go c)
  then show ?thesis
    using u
      I_T_hit [OF I, of u]
      I_E_own [OF I, of "ent (threads s ! u)"]
      I_lenC [OF I]
    by (auto simp add: T_hit_def E_own_def upd)
next
  case (Thread t)
  show ?thesis
    by (rule T_hit_tstep [OF st Thread I u])
next
  case (Expire e0)
  then show ?thesis
    using u
      I_T_hit [OF I, of u]
      I_E_own [OF I, of "ent (threads s ! u)"]
      I_lenC [OF I]
    by (auto simp add: T_hit_def E_own_def)
qed

lemma T_done_tstep:
  fixes s :: "('k, 'v::zero) state"
  assumes st: "step a s = Some s'" and a: "a = Run t \<or> (\<exists>c. a = Select t c)"
    and t: "t < length (threads s)" and I: "inv s" and u: "u < length (threads s')"
  shows "T_done s' u"
  using st a
proof (cases rule: tstep_cases)
  case L51
  then show ?thesis
    using t u
      I_T_done [OF I, of t]
      I_T_done [OF I, of u]
      I_T_hit [OF I, of u]
      I_E_own [OF I, of "ent (threads s ! u)"]
      I_lenC [OF I]
    by (auto simp add: T_done_def T_hit_def E_own_def upd)
next
  case L56nil
  then show ?thesis
    using t u
      I_T_done [OF I, of t]
      I_T_done [OF I, of u]
      I_T_hit [OF I, of u]
      I_E_own [OF I, of "ent (threads s ! u)"]
      I_lenC [OF I]
    by (auto simp add: T_done_def T_hit_def E_own_def upd)
next
  case L56
  then show ?thesis
    using t u
      I_T_done [OF I, of t]
      I_T_done [OF I, of u]
      I_T_hit [OF I, of u]
      I_E_own [OF I, of "ent (threads s ! u)"]
      I_lenC [OF I]
    by (auto simp add: T_done_def T_hit_def E_own_def upd)
next
  case L60
  then show ?thesis
    using t u
      I_T_done [OF I, of t]
      I_T_done [OF I, of u]
      I_T_hit [OF I, of u]
      I_E_own [OF I, of "ent (threads s ! u)"]
      I_lenC [OF I]
    by (auto simp add: T_done_def T_hit_def E_own_def upd)
next
  case L61
  then show ?thesis
    using t u
      I_T_done [OF I, of t]
      I_T_done [OF I, of u]
      I_T_hit [OF I, of u]
      I_E_own [OF I, of "ent (threads s ! u)"]
      I_lenC [OF I]
    by (auto simp add: T_done_def T_hit_def E_own_def upd)
next
  case (L65hit e0)
  then show ?thesis
    using t u
      I_T_done [OF I, of t]
      I_T_done [OF I, of u]
      I_T_hit [OF I, of u]
      I_E_own [OF I, of "ent (threads s ! u)"]
      I_lenC [OF I]
    by (auto simp add: T_done_def T_hit_def E_own_def upd)
next
  case L65miss
  then show ?thesis
    using t u
      I_T_done [OF I, of t]
      I_T_done [OF I, of u]
      I_T_hit [OF I, of u]
      I_E_own [OF I, of "ent (threads s ! u)"]
      I_lenC [OF I]
    by (auto simp add: T_done_def T_hit_def E_own_def upd)
next
  case L66
  then show ?thesis
    using t u
      I_T_done [OF I, of t]
      I_T_done [OF I, of u]
      I_T_hit [OF I, of u]
      I_E_own [OF I, of "ent (threads s ! u)"]
      I_lenC [OF I]
    by (auto simp add: T_done_def T_hit_def E_own_def upd)
next
  case L69
  then show ?thesis
    using t u
      I_T_done [OF I, of t]
      I_T_done [OF I, of u]
      I_T_hit [OF I, of u]
      I_E_own [OF I, of "ent (threads s ! u)"]
      I_lenC [OF I]
    by (auto simp add: T_done_def T_hit_def E_own_def upd)
next
  case L70
  then show ?thesis
    using t u
      I_T_done [OF I, of t]
      I_T_done [OF I, of u]
      I_T_hit [OF I, of u]
      I_E_own [OF I, of "ent (threads s ! u)"]
      I_lenC [OF I]
      I_T_hit [OF I, of t]
      I_E_wg [OF I, of "ent (threads s ! t)"]
      I_E_own [OF I, of "ent (threads s ! t)"]
      pc_class2 [of "pc (cframe s (ent (threads s ! t)))"]
    by (auto simp add: T_done_def T_hit_def E_own_def E_wg_def upd split: if_splits)
next
  case L71
  then show ?thesis
    using t u
      I_T_done [OF I, of t]
      I_T_done [OF I, of u]
      I_T_hit [OF I, of u]
      I_E_own [OF I, of "ent (threads s ! u)"]
      I_lenC [OF I]
    by (auto simp add: T_done_def T_hit_def E_own_def upd)
next
  case L74
  then show ?thesis
    using t u
      I_T_done [OF I, of t]
      I_T_done [OF I, of u]
      I_T_hit [OF I, of u]
      I_E_own [OF I, of "ent (threads s ! u)"]
      I_lenC [OF I]
    by (auto simp add: T_done_def T_hit_def E_own_def upd)
next
  case L77
  then show ?thesis
    using t u
      I_T_done [OF I, of t]
      I_T_done [OF I, of u]
      I_T_hit [OF I, of u]
      I_E_own [OF I, of "ent (threads s ! u)"]
      I_lenC [OF I]
    by (auto simp add: T_done_def T_hit_def E_own_def upd)
next
  case L78
  then show ?thesis
    using t u
      I_T_done [OF I, of t]
      I_T_done [OF I, of u]
      I_T_hit [OF I, of u]
      I_E_own [OF I, of "ent (threads s ! u)"]
      I_lenC [OF I]
    by (auto simp add: T_done_def T_hit_def E_own_def upd)
next
  case L79
  then show ?thesis
    using t u
      I_T_done [OF I, of t]
      I_T_done [OF I, of u]
      I_T_hit [OF I, of u]
      I_E_own [OF I, of "ent (threads s ! u)"]
      I_lenC [OF I]
    by (auto simp add: T_done_def T_hit_def E_own_def upd)
next
  case L81
  then show ?thesis
    using t u
      I_T_done [OF I, of t]
      I_T_done [OF I, of u]
      I_T_hit [OF I, of u]
      I_E_own [OF I, of "ent (threads s ! u)"]
      I_lenC [OF I]
    by (auto simp add: T_done_def T_hit_def E_own_def upd)
next
  case (L81r v0 er0)
  then show ?thesis
    using t u
      I_T_done [OF I, of t]
      I_T_done [OF I, of u]
      I_T_hit [OF I, of u]
      I_E_own [OF I, of "ent (threads s ! u)"]
      I_lenC [OF I]
    by (auto simp add: T_done_def T_hit_def E_own_def upd)
next
  case L83err
  then show ?thesis
    using t u
      I_T_done [OF I, of t]
      I_T_done [OF I, of u]
      I_T_hit [OF I, of u]
      I_E_own [OF I, of "ent (threads s ! u)"]
      I_lenC [OF I]
    by (auto simp add: T_done_def T_hit_def E_own_def upd)
next
  case L83timer
  then show ?thesis
    using t u
      I_T_done [OF I, of t]
      I_T_done [OF I, of u]
      I_T_hit [OF I, of u]
      I_E_own [OF I, of "ent (threads s ! u)"]
      I_lenC [OF I]
    by (auto simp add: T_done_def T_hit_def E_own_def upd)
next
  case L83
  then show ?thesis
    using t u
      I_T_done [OF I, of t]
      I_T_done [OF I, of u]
      I_T_hit [OF I, of u]
      I_E_own [OF I, of "ent (threads s ! u)"]
      I_lenC [OF I]
    by (auto simp add: T_done_def T_hit_def E_own_def upd)
next
  case L84
  then show ?thesis
    using t u
      I_T_done [OF I, of t]
      I_T_done [OF I, of u]
      I_T_hit [OF I, of u]
      I_E_own [OF I, of "ent (threads s ! u)"]
      I_lenC [OF I]
    by (auto simp add: T_done_def T_hit_def E_own_def upd)
next
  case L85
  then show ?thesis
    using t u
      I_T_done [OF I, of t]
      I_T_done [OF I, of u]
      I_T_hit [OF I, of u]
      I_E_own [OF I, of "ent (threads s ! u)"]
      I_lenC [OF I]
    by (auto simp add: T_done_def T_hit_def E_own_def upd)
next
  case L86
  then show ?thesis
    using t u
      I_T_done [OF I, of t]
      I_T_done [OF I, of u]
      I_T_hit [OF I, of u]
      I_E_own [OF I, of "ent (threads s ! u)"]
      I_lenC [OF I]
    by (auto simp add: T_done_def T_hit_def E_own_def upd)
next
  case L88
  then show ?thesis
    using t u
      I_T_done [OF I, of t]
      I_T_done [OF I, of u]
      I_T_hit [OF I, of u]
      I_E_own [OF I, of "ent (threads s ! u)"]
      I_lenC [OF I]
    by (auto simp add: T_done_def T_hit_def E_own_def upd)
next
  case L89
  then show ?thesis
    using t u
      I_T_done [OF I, of t]
      I_T_done [OF I, of u]
      I_T_hit [OF I, of u]
      I_E_own [OF I, of "ent (threads s ! u)"]
      I_lenC [OF I]
    by (auto simp add: T_done_def T_hit_def E_own_def upd)
next
  case L92
  then show ?thesis
    using t u
      I_T_done [OF I, of t]
      I_T_done [OF I, of u]
      I_T_hit [OF I, of u]
      I_E_own [OF I, of "ent (threads s ! u)"]
      I_lenC [OF I]
    by (auto simp add: T_done_def T_hit_def E_own_def upd)
next
  case L94
  then show ?thesis
    using t u
      I_T_done [OF I, of t]
      I_T_done [OF I, of u]
      I_T_hit [OF I, of u]
      I_E_own [OF I, of "ent (threads s ! u)"]
      I_lenC [OF I]
    by (auto simp add: T_done_def T_hit_def E_own_def upd)
next
  case L100
  then show ?thesis
    using t u
      I_T_done [OF I, of t]
      I_T_done [OF I, of u]
      I_T_hit [OF I, of u]
      I_E_own [OF I, of "ent (threads s ! u)"]
      I_lenC [OF I]
    by (auto simp add: T_done_def T_hit_def E_own_def upd)
next
  case L103
  then show ?thesis
    using t u
      I_T_done [OF I, of t]
      I_T_done [OF I, of u]
      I_T_hit [OF I, of u]
      I_E_own [OF I, of "ent (threads s ! u)"]
      I_lenC [OF I]
    by (auto simp add: T_done_def T_hit_def E_own_def upd)
next
  case L108
  then show ?thesis
    using t u
      I_T_done [OF I, of t]
      I_T_done [OF I, of u]
      I_T_hit [OF I, of u]
      I_E_own [OF I, of "ent (threads s ! u)"]
      I_lenC [OF I]
    by (auto simp add: T_done_def T_hit_def E_own_def upd)
next
  case L110miss
  then show ?thesis
    using t u
      I_T_done [OF I, of t]
      I_T_done [OF I, of u]
      I_T_hit [OF I, of u]
      I_E_own [OF I, of "ent (threads s ! u)"]
      I_lenC [OF I]
    by (auto simp add: T_done_def T_hit_def E_own_def upd)
next
  case (L110hit e0)
  then show ?thesis
    using t u
      I_T_done [OF I, of t]
      I_T_done [OF I, of u]
      I_T_hit [OF I, of u]
      I_E_own [OF I, of "ent (threads s ! u)"]
      I_lenC [OF I]
    by (auto simp add: T_done_def T_hit_def E_own_def upd)
next
  case L112
  then show ?thesis
    using t u
      I_T_done [OF I, of t]
      I_T_done [OF I, of u]
      I_T_hit [OF I, of u]
      I_E_own [OF I, of "ent (threads s ! u)"]
      I_lenC [OF I]
    by (auto simp add: T_done_def T_hit_def E_own_def upd)
next
  case L116
  then show ?thesis
    using t u
      I_T_done [OF I, of t]
      I_T_done [OF I, of u]
      I_T_hit [OF I, of u]
      I_E_own [OF I, of "ent (threads s ! u)"]
      I_lenC [OF I]
    by (auto simp add: T_done_def T_hit_def E_own_def upd)
next
  case L117
  then show ?thesis
    using t u
      I_T_done [OF I, of t]
      I_T_done [OF I, of u]
      I_T_hit [OF I, of u]
      I_E_own [OF I, of "ent (threads s ! u)"]
      I_lenC [OF I]
    by (auto simp add: T_done_def T_hit_def E_own_def upd)
next
  case L118
  then show ?thesis
    using t u
      I_T_done [OF I, of t]
      I_T_done [OF I, of u]
      I_T_hit [OF I, of u]
      I_E_own [OF I, of "ent (threads s ! u)"]
      I_lenC [OF I]
    by (auto simp add: T_done_def T_hit_def E_own_def upd)
next
  case L120
  then show ?thesis
    using t u
      I_T_done [OF I, of t]
      I_T_done [OF I, of u]
      I_T_hit [OF I, of u]
      I_E_own [OF I, of "ent (threads s ! u)"]
      I_lenC [OF I]
    by (auto simp add: T_done_def T_hit_def E_own_def upd)
next
  case L120nil
  then show ?thesis
    using t u
      I_T_done [OF I, of t]
      I_T_done [OF I, of u]
      I_T_hit [OF I, of u]
      I_E_own [OF I, of "ent (threads s ! u)"]
      I_lenC [OF I]
    by (auto simp add: T_done_def T_hit_def E_own_def upd)
next
  case L121
  then show ?thesis
    using t u
      I_T_done [OF I, of t]
      I_T_done [OF I, of u]
      I_T_hit [OF I, of u]
      I_E_own [OF I, of "ent (threads s ! u)"]
      I_lenC [OF I]
    by (auto simp add: T_done_def T_hit_def E_own_def upd)
next
  case SelTimer
  then show ?thesis
    using t u
      I_T_done [OF I, of t]
      I_T_done [OF I, of u]
      I_T_hit [OF I, of u]
      I_E_own [OF I, of "ent (threads s ! u)"]
      I_lenC [OF I]
    by (auto simp add: T_done_def T_hit_def E_own_def upd)
next
  case SelDone
  then show ?thesis
    using t u
      I_T_done [OF I, of t]
      I_T_done [OF I, of u]
      I_T_hit [OF I, of u]
      I_E_own [OF I, of "ent (threads s ! u)"]
      I_lenC [OF I]
    by (auto simp add: T_done_def T_hit_def E_own_def upd)
qed

lemma T_done_step:
  fixes s :: "('k, 'v::zero) state"
  assumes st: "step a s = Some s'" and I: "inv s" and u: "u < length (threads s')"
  shows "T_done s' u"
  using st
proof (cases rule: step_kinds)
  case (Go c)
  then show ?thesis
    using u
      I_T_done [OF I, of u]
      I_T_hit [OF I, of u]
      I_E_own [OF I, of "ent (threads s ! u)"]
      I_lenC [OF I]
    by (auto simp add: T_done_def T_hit_def E_own_def upd)
next
  case (Thread t)
  show ?thesis
    by (rule T_done_tstep [OF st Thread I u])
next
  case (Expire e0)
  then show ?thesis
    using u
      I_T_done [OF I, of u]
      I_T_hit [OF I, of u]
      I_E_own [OF I, of "ent (threads s ! u)"]
      I_lenC [OF I]
    by (auto simp add: T_done_def T_hit_def E_own_def)
qed

lemma T_ret_tstep:
  fixes s :: "('k, 'v::zero) state"
  assumes st: "step a s = Some s'" and a: "a = Run t \<or> (\<exists>c. a = Select t c)"
    and t: "t < length (threads s)" and I: "inv s" and u: "u < length (threads s')"
  shows "T_ret s' u"
  using st a
proof (cases rule: tstep_cases)
  case L51
  then show ?thesis
    using t u
      I_T_ret [OF I, of t]
      I_T_ret [OF I, of u]
      I_E_own [OF I, of "ent (threads s ! u)"]
      I_lenC [OF I]
    by (auto simp add: T_ret_def E_own_def upd)
next
  case L56nil
  then show ?thesis
    using t u
      I_T_ret [OF I, of t]
      I_T_ret [OF I, of u]
      I_E_own [OF I, of "ent (threads s ! u)"]
      I_lenC [OF I]
    by (auto simp add: T_ret_def E_own_def upd)
next
  case L56
  then show ?thesis
    using t u
      I_T_ret [OF I, of t]
      I_T_ret [OF I, of u]
      I_E_own [OF I, of "ent (threads s ! u)"]
      I_lenC [OF I]
    by (auto simp add: T_ret_def E_own_def upd)
next
  case L60
  then show ?thesis
    using t u
      I_T_ret [OF I, of t]
      I_T_ret [OF I, of u]
      I_E_own [OF I, of "ent (threads s ! u)"]
      I_lenC [OF I]
    by (auto simp add: T_ret_def E_own_def upd)
next
  case L61
  then show ?thesis
    using t u
      I_T_ret [OF I, of t]
      I_T_ret [OF I, of u]
      I_E_own [OF I, of "ent (threads s ! u)"]
      I_lenC [OF I]
    by (auto simp add: T_ret_def E_own_def upd)
next
  case (L65hit e0)
  then show ?thesis
    using t u
      I_T_ret [OF I, of t]
      I_T_ret [OF I, of u]
      I_E_own [OF I, of "ent (threads s ! u)"]
      I_lenC [OF I]
    by (auto simp add: T_ret_def E_own_def upd)
next
  case L65miss
  then show ?thesis
    using t u
      I_T_ret [OF I, of t]
      I_T_ret [OF I, of u]
      I_E_own [OF I, of "ent (threads s ! u)"]
      I_lenC [OF I]
    by (auto simp add: T_ret_def E_own_def upd)
next
  case L66
  then show ?thesis
    using t u
      I_T_ret [OF I, of t]
      I_T_ret [OF I, of u]
      I_E_own [OF I, of "ent (threads s ! u)"]
      I_lenC [OF I]
    by (auto simp add: T_ret_def E_own_def upd)
next
  case L69
  then show ?thesis
    using t u
      I_T_ret [OF I, of t]
      I_T_ret [OF I, of u]
      I_E_own [OF I, of "ent (threads s ! u)"]
      I_lenC [OF I]
    by (auto simp add: T_ret_def E_own_def upd)
next
  case L70
  then show ?thesis
    using t u
      I_T_ret [OF I, of t]
      I_T_ret [OF I, of u]
      I_E_own [OF I, of "ent (threads s ! u)"]
      I_lenC [OF I]
    by (auto simp add: T_ret_def E_own_def upd)
next
  case L71
  then show ?thesis
    using t u
      I_T_ret [OF I, of t]
      I_T_ret [OF I, of u]
      I_E_own [OF I, of "ent (threads s ! u)"]
      I_lenC [OF I]
      I_T_hit [OF I, of t]
      I_T_done [OF I, of t]
    by (auto simp add: T_ret_def E_own_def T_hit_def T_done_def upd)
next
  case L74
  then show ?thesis
    using t u
      I_T_ret [OF I, of t]
      I_T_ret [OF I, of u]
      I_E_own [OF I, of "ent (threads s ! u)"]
      I_lenC [OF I]
    by (auto simp add: T_ret_def E_own_def upd)
next
  case L77
  then show ?thesis
    using t u
      I_T_ret [OF I, of t]
      I_T_ret [OF I, of u]
      I_E_own [OF I, of "ent (threads s ! u)"]
      I_lenC [OF I]
    by (auto simp add: T_ret_def E_own_def upd)
next
  case L78
  then show ?thesis
    using t u
      I_T_ret [OF I, of t]
      I_T_ret [OF I, of u]
      I_E_own [OF I, of "ent (threads s ! u)"]
      I_lenC [OF I]
    by (auto simp add: T_ret_def E_own_def upd)
next
  case L79
  then show ?thesis
    using t u
      I_T_ret [OF I, of t]
      I_T_ret [OF I, of u]
      I_E_own [OF I, of "ent (threads s ! u)"]
      I_lenC [OF I]
    by (auto simp add: T_ret_def E_own_def upd)
next
  case L81
  then show ?thesis
    using t u
      I_T_ret [OF I, of t]
      I_T_ret [OF I, of u]
      I_E_own [OF I, of "ent (threads s ! u)"]
      I_lenC [OF I]
    by (auto simp add: T_ret_def E_own_def upd)
next
  case (L81r v0 er0)
  then show ?thesis
    using t u
      I_T_ret [OF I, of t]
      I_T_ret [OF I, of u]
      I_E_own [OF I, of "ent (threads s ! u)"]
      I_lenC [OF I]
      I_T_own [OF I, of t]
    by (auto simp add: T_ret_def E_own_def T_own_def upd)
next
  case L83err
  then show ?thesis
    using t u
      I_T_ret [OF I, of t]
      I_T_ret [OF I, of u]
      I_E_own [OF I, of "ent (threads s ! u)"]
      I_lenC [OF I]
    by (auto simp add: T_ret_def E_own_def upd)
next
  case L83timer
  then show ?thesis
    using t u
      I_T_ret [OF I, of t]
      I_T_ret [OF I, of u]
      I_E_own [OF I, of "ent (threads s ! u)"]
      I_lenC [OF I]
    by (auto simp add: T_ret_def E_own_def upd)
next
  case L83
  then show ?thesis
    using t u
      I_T_ret [OF I, of t]
      I_T_ret [OF I, of u]
      I_E_own [OF I, of "ent (threads s ! u)"]
      I_lenC [OF I]
    by (auto simp add: T_ret_def E_own_def upd)
next
  case L84
  then show ?thesis
    using t u
      I_T_ret [OF I, of t]
      I_T_ret [OF I, of u]
      I_E_own [OF I, of "ent (threads s ! u)"]
      I_lenC [OF I]
    by (auto simp add: T_ret_def E_own_def upd)
next
  case L85
  then show ?thesis
    using t u
      I_T_ret [OF I, of t]
      I_T_ret [OF I, of u]
      I_E_own [OF I, of "ent (threads s ! u)"]
      I_lenC [OF I]
    by (auto simp add: T_ret_def E_own_def upd)
next
  case L86
  then show ?thesis
    using t u
      I_T_ret [OF I, of t]
      I_T_ret [OF I, of u]
      I_E_own [OF I, of "ent (threads s ! u)"]
      I_lenC [OF I]
    by (auto simp add: T_ret_def E_own_def upd)
next
  case L88
  then show ?thesis
    using t u
      I_T_ret [OF I, of t]
      I_T_ret [OF I, of u]
      I_E_own [OF I, of "ent (threads s ! u)"]
      I_lenC [OF I]
    by (auto simp add: T_ret_def E_own_def upd)
next
  case L89
  then show ?thesis
    using t u
      I_T_ret [OF I, of t]
      I_T_ret [OF I, of u]
      I_E_own [OF I, of "ent (threads s ! u)"]
      I_lenC [OF I]
    by (auto simp add: T_ret_def E_own_def upd)
next
  case L92
  then show ?thesis
    using t u
      I_T_ret [OF I, of t]
      I_T_ret [OF I, of u]
      I_E_own [OF I, of "ent (threads s ! u)"]
      I_lenC [OF I]
    by (auto simp add: T_ret_def E_own_def upd)
next
  case L94
  then show ?thesis
    using t u
      I_T_ret [OF I, of t]
      I_T_ret [OF I, of u]
      I_E_own [OF I, of "ent (threads s ! u)"]
      I_lenC [OF I]
      I_T_own [OF I, of t]
    by (auto simp add: T_ret_def E_own_def T_own_def upd)
next
  case L100
  then show ?thesis
    using t u
      I_T_ret [OF I, of t]
      I_T_ret [OF I, of u]
      I_E_own [OF I, of "ent (threads s ! u)"]
      I_lenC [OF I]
    by (auto simp add: T_ret_def E_own_def upd)
next
  case L103
  then show ?thesis
    using t u
      I_T_ret [OF I, of t]
      I_T_ret [OF I, of u]
      I_E_own [OF I, of "ent (threads s ! u)"]
      I_lenC [OF I]
      I_T_nofn [OF I, of t]
    by (auto simp add: T_ret_def E_own_def T_nofn_def upd)
next
  case L108
  then show ?thesis
    using t u
      I_T_ret [OF I, of t]
      I_T_ret [OF I, of u]
      I_E_own [OF I, of "ent (threads s ! u)"]
      I_lenC [OF I]
    by (auto simp add: T_ret_def E_own_def upd)
next
  case L110miss
  then show ?thesis
    using t u
      I_T_ret [OF I, of t]
      I_T_ret [OF I, of u]
      I_E_own [OF I, of "ent (threads s ! u)"]
      I_lenC [OF I]
    by (auto simp add: T_ret_def E_own_def upd)
next
  case (L110hit e0)
  then show ?thesis
    using t u
      I_T_ret [OF I, of t]
      I_T_ret [OF I, of u]
      I_E_own [OF I, of "ent (threads s ! u)"]
      I_lenC [OF I]
    by (auto simp add: T_ret_def E_own_def upd)
next
  case L112
  then show ?thesis
    using t u
      I_T_ret [OF I, of t]
      I_T_ret [OF I, of u]
      I_E_own [OF I, of "ent (threads s ! u)"]
      I_lenC [OF I]
      I_T_nofn [OF I, of t]
    by (auto simp add: T_ret_def E_own_def T_nofn_def upd)
next
  case L116
  then show ?thesis
    using t u
      I_T_ret [OF I, of t]
      I_T_ret [OF I, of u]
      I_E_own [OF I, of "ent (threads s ! u)"]
      I_lenC [OF I]
    by (auto simp add: T_ret_def E_own_def upd)
next
  case L117
  then show ?thesis
    using t u
      I_T_ret [OF I, of t]
      I_T_ret [OF I, of u]
      I_E_own [OF I, of "ent (threads s ! u)"]
      I_lenC [OF I]
    by (auto simp add: T_ret_def E_own_def upd)
next
  case L118
  then show ?thesis
    using t u
      I_T_ret [OF I, of t]
      I_T_ret [OF I, of u]
      I_E_own [OF I, of "ent (threads s ! u)"]
      I_lenC [OF I]
    by (auto simp add: T_ret_def E_own_def upd)
next
  case L120
  then show ?thesis
    using t u
      I_T_ret [OF I, of t]
      I_T_ret [OF I, of u]
      I_E_own [OF I, of "ent (threads s ! u)"]
      I_lenC [OF I]
    by (auto simp add: T_ret_def E_own_def upd)
next
  case L120nil
  then show ?thesis
    using t u
      I_T_ret [OF I, of t]
      I_T_ret [OF I, of u]
      I_E_own [OF I, of "ent (threads s ! u)"]
      I_lenC [OF I]
      I_T_nofn [OF I, of t]
    by (auto simp add: T_ret_def E_own_def T_nofn_def upd)
next
  case L121
  then show ?thesis
    using t u
      I_T_ret [OF I, of t]
      I_T_ret [OF I, of u]
      I_E_own [OF I, of "ent (threads s ! u)"]
      I_lenC [OF I]
      I_T_nofn [OF I, of t]
    by (auto simp add: T_ret_def E_own_def T_nofn_def upd)
next
  case SelTimer
  then show ?thesis
    using t u
      I_T_ret [OF I, of t]
      I_T_ret [OF I, of u]
      I_E_own [OF I, of "ent (threads s ! u)"]
      I_lenC [OF I]
    by (auto simp add: T_ret_def E_own_def upd)
next
  case SelDone
  then show ?thesis
    using t u
      I_T_ret [OF I, of t]
      I_T_ret [OF I, of u]
      I_E_own [OF I, of "ent (threads s ! u)"]
      I_lenC [OF I]
    by (auto simp add: T_ret_def E_own_def upd)
qed

lemma T_ret_step:
  fixes s :: "('k, 'v::zero) state"
  assumes st: "step a s = Some s'" and I: "inv s" and u: "u < length (threads s')"
  shows "T_ret s' u"
  using st
proof (cases rule: step_kinds)
  case (Go c)
  then show ?thesis
    using u
      I_T_ret [OF I, of u]
      I_E_own [OF I, of "ent (threads s ! u)"]
      I_lenC [OF I]
    by (auto simp add: T_ret_def E_own_def upd)
next
  case (Thread t)
  show ?thesis
    by (rule T_ret_tstep [OF st Thread I u])
next
  case (Expire e0)
  then show ?thesis
    using u
      I_T_ret [OF I, of u]
      I_E_own [OF I, of "ent (threads s ! u)"]
      I_lenC [OF I]
    by (auto simp add: T_ret_def E_own_def)
qed

lemma T_nofn_tstep:
  fixes s :: "('k, 'v::zero) state"
  assumes st: "step a s = Some s'" and a: "a = Run t \<or> (\<exists>c. a = Select t c)"
    and t: "t < length (threads s)" and I: "inv s" and u: "u < length (threads s')"
  shows "T_nofn s' u"
  using st a
proof (cases rule: tstep_cases)
  case L51
  then show ?thesis
    using t u
      I_T_nofn [OF I, of t]
      I_T_nofn [OF I, of u]
    by (auto simp add: T_nofn_def upd)
next
  case L56nil
  then show ?thesis
    using t u
      I_T_nofn [OF I, of t]
      I_T_nofn [OF I, of u]
    by (auto simp add: T_nofn_def upd)
next
  case L56
  then show ?thesis
    using t u
      I_T_nofn [OF I, of t]
      I_T_nofn [OF I, of u]
    by (auto simp add: T_nofn_def upd)
next
  case L60
  then show ?thesis
    using t u
      I_T_nofn [OF I, of t]
      I_T_nofn [OF I, of u]
    by (auto simp add: T_nofn_def upd)
next
  case L61
  then show ?thesis
    using t u
      I_T_nofn [OF I, of t]
      I_T_nofn [OF I, of u]
    by (auto simp add: T_nofn_def upd)
next
  case (L65hit e0)
  then show ?thesis
    using t u
      I_T_nofn [OF I, of t]
      I_T_nofn [OF I, of u]
    by (auto simp add: T_nofn_def upd)
next
  case L65miss
  then show ?thesis
    using t u
      I_T_nofn [OF I, of t]
      I_T_nofn [OF I, of u]
    by (auto simp add: T_nofn_def upd)
next
  case L66
  then show ?thesis
    using t u
      I_T_nofn [OF I, of t]
      I_T_nofn [OF I, of u]
    by (auto simp add: T_nofn_def upd)
next
  case L69
  then show ?thesis
    using t u
      I_T_nofn [OF I, of t]
      I_T_nofn [OF I, of u]
    by (auto simp add: T_nofn_def upd)
next
  case L70
  then show ?thesis
    using t u
      I_T_nofn [OF I, of t]
      I_T_nofn [OF I, of u]
    by (auto simp add: T_nofn_def upd)
next
  case L71
  then show ?thesis
    using t u
      I_T_nofn [OF I, of t]
      I_T_nofn [OF I, of u]
    by (auto simp add: T_nofn_def upd)
next
  case L74
  then show ?thesis
    using t u
      I_T_nofn [OF I, of t]
      I_T_nofn [OF I, of u]
    by (auto simp add: T_nofn_def upd)
next
  case L77
  then show ?thesis
    using t u
      I_T_nofn [OF I, of t]
      I_T_nofn [OF I, of u]
    by (auto simp add: T_nofn_def upd)
next
  case L78
  then show ?thesis
    using t u
      I_T_nofn [OF I, of t]
      I_T_nofn [OF I, of u]
    by (auto simp add: T_nofn_def upd)
next
  case L79
  then show ?thesis
    using t u
      I_T_nofn [OF I, of t]
      I_T_nofn [OF I, of u]
    by (auto simp add: T_nofn_def upd)
next
  case L81
  then show ?thesis
    using t u
      I_T_nofn [OF I, of t]
      I_T_nofn [OF I, of u]
    by (auto simp add: T_nofn_def upd)
next
  case (L81r v0 er0)
  then show ?thesis
    using t u
      I_T_nofn [OF I, of t]
      I_T_nofn [OF I, of u]
    by (auto simp add: T_nofn_def upd)
next
  case L83err
  then show ?thesis
    using t u
      I_T_nofn [OF I, of t]
      I_T_nofn [OF I, of u]
    by (auto simp add: T_nofn_def upd)
next
  case L83timer
  then show ?thesis
    using t u
      I_T_nofn [OF I, of t]
      I_T_nofn [OF I, of u]
    by (auto simp add: T_nofn_def upd)
next
  case L83
  then show ?thesis
    using t u
      I_T_nofn [OF I, of t]
      I_T_nofn [OF I, of u]
    by (auto simp add: T_nofn_def upd)
next
  case L84
  then show ?thesis
    using t u
      I_T_nofn [OF I, of t]
      I_T_nofn [OF I, of u]
    by (auto simp add: T_nofn_def upd)
next
  case L85
  then show ?thesis
    using t u
      I_T_nofn [OF I, of t]
      I_T_nofn [OF I, of u]
    by (auto simp add: T_nofn_def upd)
next
  case L86
  then show ?thesis
    using t u
      I_T_nofn [OF I, of t]
      I_T_nofn [OF I, of u]
    by (auto simp add: T_nofn_def upd)
next
  case L88
  then show ?thesis
    using t u
      I_T_nofn [OF I, of t]
      I_T_nofn [OF I, of u]
    by (auto simp add: T_nofn_def upd)
next
  case L89
  then show ?thesis
    using t u
      I_T_nofn [OF I, of t]
      I_T_nofn [OF I, of u]
    by (auto simp add: T_nofn_def upd)
next
  case L92
  then show ?thesis
    using t u
      I_T_nofn [OF I, of t]
      I_T_nofn [OF I, of u]
    by (auto simp add: T_nofn_def upd)
next
  case L94
  then show ?thesis
    using t u
      I_T_nofn [OF I, of t]
      I_T_nofn [OF I, of u]
    by (auto simp add: T_nofn_def upd)
next
  case L100
  then show ?thesis
    using t u
      I_T_nofn [OF I, of t]
      I_T_nofn [OF I, of u]
    by (auto simp add: T_nofn_def upd)
next
  case L103
  then show ?thesis
    using t u
      I_T_nofn [OF I, of t]
      I_T_nofn [OF I, of u]
    by (auto simp add: T_nofn_def upd)
next
  case L108
  then show ?thesis
    using t u
      I_T_nofn [OF I, of t]
      I_T_nofn [OF I, of u]
    by (auto simp add: T_nofn_def upd)
next
  case L110miss
  then show ?thesis
    using t u
      I_T_nofn [OF I, of t]
      I_T_nofn [OF I, of u]
    by (auto simp add: T_nofn_def upd)
next
  case (L110hit e0)
  then show ?thesis
    using t u
      I_T_nofn [OF I, of t]
      I_T_nofn [OF I, of u]
    by (auto simp add: T_nofn_def upd)
next
  case L112
  then show ?thesis
    using t u
      I_T_nofn [OF I, of t]
      I_T_nofn [OF I, of u]
    by (auto simp add: T_nofn_def upd)
next
  case L116
  then show ?thesis
    using t u
      I_T_nofn [OF I, of t]
      I_T_nofn [OF I, of u]
    by (auto simp add: T_nofn_def upd)
next
  case L117
  then show ?thesis
    using t u
      I_T_nofn [OF I, of t]
      I_T_nofn [OF I, of u]
    by (auto simp add: T_nofn_def upd)
next
  case L118
  then show ?thesis
    using t u
      I_T_nofn [OF I, of t]
      I_T_nofn [OF I, of u]
    by (auto simp add: T_nofn_def upd)
next
  case L120
  then show ?thesis
    using t u
      I_T_nofn [OF I, of t]
      I_T_nofn [OF I, of u]
    by (auto simp add: T_nofn_def upd)
next
  case L120nil
  then show ?thesis
    using t u
      I_T_nofn [OF I, of t]
      I_T_nofn [OF I, of u]
    by (auto simp add: T_nofn_def upd)
next
  case L121
  then show ?thesis
    using t u
      I_T_nofn [OF I, of t]
      I_T_nofn [OF I, of u]
    by (auto simp add: T_nofn_def upd)
next
  case SelTimer
  then show ?thesis
    using t u
      I_T_nofn [OF I, of t]
      I_T_nofn [OF I, of u]
    by (auto simp add: T_nofn_def upd)
next
  case SelDone
  then show ?thesis
    using t u
      I_T_nofn [OF I, of t]
      I_T_nofn [OF I, of u]
    by (auto simp add: T_nofn_def upd)
qed

lemma T_nofn_step:
  fixes s :: "('k, 'v::zero) state"
  assumes st: "step a s = Some s'" and I: "inv s" and u: "u < length (threads s')"
  shows "T_nofn s' u"
  using st
proof (cases rule: step_kinds)
  case (Go c)
  then show ?thesis
    using u
      I_T_nofn [OF I, of u]
    by (auto simp add: T_nofn_def upd)
next
  case (Thread t)
  show ?thesis
    by (rule T_nofn_tstep [OF st Thread I u])
next
  case (Expire e0)
  then show ?thesis
    using u
      I_T_nofn [OF I, of u]
    by (auto simp add: T_nofn_def)
qed

lemma T_obs_tstep:
  fixes s :: "('k, 'v::zero) state"
  assumes st: "step a s = Some s'" and a: "a = Run t \<or> (\<exists>c. a = Select t c)"
    and t: "t < length (threads s)" and I: "inv s" and u: "u < length (threads s')"
  shows "T_obs s' u"
  using st a
proof (cases rule: tstep_cases)
  case L51
  then show ?thesis
    using t u
      I_T_obs [OF I, of t]
      I_T_obs [OF I, of u]
      I_E_own [OF I, of "ent (threads s ! u)"]
      I_lenC [OF I]
    by (auto simp add: T_obs_def E_own_def upd)
next
  case L56nil
  then show ?thesis
    using t u
      I_T_obs [OF I, of t]
      I_T_obs [OF I, of u]
      I_E_own [OF I, of "ent (threads s ! u)"]
      I_lenC [OF I]
    by (auto simp add: T_obs_def E_own_def upd)
next
  case L56
  then show ?thesis
    using t u
      I_T_obs [OF I, of t]
      I_T_obs [OF I, of u]
      I_E_own [OF I, of "ent (threads s ! u)"]
      I_lenC [OF I]
    by (auto simp add: T_obs_def E_own_def upd)
next
  case L60
  then show ?thesis
    using t u
      I_T_obs [OF I, of t]
      I_T_obs [OF I, of u]
      I_E_own [OF I, of "ent (threads s ! u)"]
      I_lenC [OF I]
    by (auto simp add: T_obs_def E_own_def upd)
next
  case L61
  then show ?thesis
    using t u
      I_T_obs [OF I, of t]
      I_T_obs [OF I, of u]
      I_E_own [OF I, of "ent (threads s ! u)"]
      I_lenC [OF I]
    by (auto simp add: T_obs_def E_own_def upd)
next
  case (L65hit e0)
  then show ?thesis
    using t u
      I_T_obs [OF I, of t]
      I_T_obs [OF I, of u]
      I_E_own [OF I, of "ent (threads s ! u)"]
      I_lenC [OF I]
    by (auto simp add: T_obs_def E_own_def upd)
next
  case L65miss
  then show ?thesis
    using t u
      I_T_obs [OF I, of t]
      I_T_obs [OF I, of u]
      I_E_own [OF I, of "ent (threads s ! u)"]
      I_lenC [OF I]
    by (auto simp add: T_obs_def E_own_def upd)
next
  case L66
  then show ?thesis
    using t u
      I_T_obs [OF I, of t]
      I_T_obs [OF I, of u]
      I_E_own [OF I, of "ent (threads s ! u)"]
      I_lenC [OF I]
    by (auto simp add: T_obs_def E_own_def upd)
next
  case L69
  then show ?thesis
    using t u
      I_T_obs [OF I, of t]
      I_T_obs [OF I, of u]
      I_E_own [OF I, of "ent (threads s ! u)"]
      I_lenC [OF I]
    by (auto simp add: T_obs_def E_own_def upd)
next
  case L70
  then show ?thesis
    using t u
      I_T_obs [OF I, of t]
      I_T_obs [OF I, of u]
      I_E_own [OF I, of "ent (threads s ! u)"]
      I_lenC [OF I]
    by (auto simp add: T_obs_def E_own_def upd)
next
  case L71
  then show ?thesis
    using t u
      I_T_obs [OF I, of t]
      I_T_obs [OF I, of u]
      I_E_own [OF I, of "ent (threads s ! u)"]
      I_lenC [OF I]
    by (auto simp add: T_obs_def E_own_def upd)
next
  case L74
  then show ?thesis
    using t u
      I_T_obs [OF I, of t]
      I_T_obs [OF I, of u]
      I_E_own [OF I, of "ent (threads s ! u)"]
      I_lenC [OF I]
    by (auto simp add: T_obs_def E_own_def upd)
next
  case L77
  then show ?thesis
    using t u
      I_T_obs [OF I, of t]
      I_T_obs [OF I, of u]
      I_E_own [OF I, of "ent (threads s ! u)"]
      I_lenC [OF I]
    by (auto simp add: T_obs_def E_own_def upd)
next
  case L78
  then show ?thesis
    using t u
      I_T_obs [OF I, of t]
      I_T_obs [OF I, of u]
      I_E_own [OF I, of "ent (threads s ! u)"]
      I_lenC [OF I]
    by (auto simp add: T_obs_def E_own_def upd)
next
  case L79
  then show ?thesis
    using t u
      I_T_obs [OF I, of t]
      I_T_obs [OF I, of u]
      I_E_own [OF I, of "ent (threads s ! u)"]
      I_lenC [OF I]
    by (auto simp add: T_obs_def E_own_def upd)
next
  case L81
  then show ?thesis
    using t u
      I_T_obs [OF I, of t]
      I_T_obs [OF I, of u]
      I_E_own [OF I, of "ent (threads s ! u)"]
      I_lenC [OF I]
    by (auto simp add: T_obs_def E_own_def upd)
next
  case (L81r v0 er0)
  then show ?thesis
    using t u
      I_T_obs [OF I, of t]
      I_T_obs [OF I, of u]
      I_E_own [OF I, of "ent (threads s ! u)"]
      I_lenC [OF I]
      I_T_own [OF I, of t]
    by (auto simp add: T_obs_def E_own_def T_own_def upd)
next
  case L83err
  then show ?thesis
    using t u
      I_T_obs [OF I, of t]
      I_T_obs [OF I, of u]
      I_E_own [OF I, of "ent (threads s ! u)"]
      I_lenC [OF I]
    by (auto simp add: T_obs_def E_own_def upd)
next
  case L83timer
  then show ?thesis
    using t u
      I_T_obs [OF I, of t]
      I_T_obs [OF I, of u]
      I_E_own [OF I, of "ent (threads s ! u)"]
      I_lenC [OF I]
    by (auto simp add: T_obs_def E_own_def upd)
next
  case L83
  then show ?thesis
    using t u
      I_T_obs [OF I, of t]
      I_T_obs [OF I, of u]
      I_E_own [OF I, of "ent (threads s ! u)"]
      I_lenC [OF I]
    by (auto simp add: T_obs_def E_own_def upd)
next
  case L84
  then show ?thesis
    using t u
      I_T_obs [OF I, of t]
      I_T_obs [OF I, of u]
      I_E_own [OF I, of "ent (threads s ! u)"]
      I_lenC [OF I]
    by (auto simp add: T_obs_def E_own_def upd)
next
  case L85
  then show ?thesis
    using t u
      I_T_obs [OF I, of t]
      I_T_obs [OF I, of u]
      I_E_own [OF I, of "ent (threads s ! u)"]
      I_lenC [OF I]
    by (auto simp add: T_obs_def E_own_def upd)
next
  case L86
  then show ?thesis
    using t u
      I_T_obs [OF I, of t]
      I_T_obs [OF I, of u]
      I_E_own [OF I, of "ent (threads s ! u)"]
      I_lenC [OF I]
    by (auto simp add: T_obs_def E_own_def upd)
next
  case L88
  then show ?thesis
    using t u
      I_T_obs [OF I, of t]
      I_T_obs [OF I, of u]
      I_E_own [OF I, of "ent (threads s ! u)"]
      I_lenC [OF I]
    by (auto simp add: T_obs_def E_own_def upd)
next
  case L89
  then show ?thesis
    using t u
      I_T_obs [OF I, of t]
      I_T_obs [OF I, of u]
      I_E_own [OF I, of "ent (threads s ! u)"]
      I_lenC [OF I]
      I_T_own [OF I, of t]
      I_T_life [OF I, of t]
      I_E_fail [OF I, of "ent (threads s ! t)"]
    by (auto simp add: T_obs_def E_own_def T_own_def T_life_def E_fail_def upd)
next
  case L92
  then show ?thesis
    using t u
      I_T_obs [OF I, of t]
      I_T_obs [OF I, of u]
      I_E_own [OF I, of "ent (threads s ! u)"]
      I_lenC [OF I]
    by (auto simp add: T_obs_def E_own_def upd)
next
  case L94
  then show ?thesis
    using t u
      I_T_obs [OF I, of t]
      I_T_obs [OF I, of u]
      I_E_own [OF I, of "ent (threads s ! u)"]
      I_lenC [OF I]
    by (auto simp add: T_obs_def E_own_def upd)
next
  case L100
  then show ?thesis
    using t u
      I_T_obs [OF I, of t]
      I_T_obs [OF I, of u]
      I_E_own [OF I, of "ent (threads s ! u)"]
      I_lenC [OF I]
    by (auto simp add: T_obs_def E_own_def upd)
next
  case L103
  then show ?thesis
    using t u
      I_T_obs [OF I, of t]
      I_T_obs [OF I, of u]
      I_E_own [OF I, of "ent (threads s ! u)"]
      I_lenC [OF I]
    by (auto simp add: T_obs_def E_own_def upd)
next
  case L108
  then show ?thesis
    using t u
      I_T_obs [OF I, of t]
      I_T_obs [OF I, of u]
      I_E_own [OF I, of "ent (threads s ! u)"]
      I_lenC [OF I]
    by (auto simp add: T_obs_def E_own_def upd)
next
  case L110miss
  then show ?thesis
    using t u
      I_T_obs [OF I, of t]
      I_T_obs [OF I, of u]
      I_E_own [OF I, of "ent (threads s ! u)"]
      I_lenC [OF I]
    by (auto simp add: T_obs_def E_own_def upd)
next
  case (L110hit e0)
  then show ?thesis
    using t u
      I_T_obs [OF I, of t]
      I_T_obs [OF I, of u]
      I_E_own [OF I, of "ent (threads s ! u)"]
      I_lenC [OF I]
    by (auto simp add: T_obs_def E_own_def upd)
next
  case L112
  then show ?thesis
    using t u
      I_T_obs [OF I, of t]
      I_T_obs [OF I, of u]
      I_E_own [OF I, of "ent (threads s ! u)"]
      I_lenC [OF I]
    by (auto simp add: T_obs_def E_own_def upd)
next
  case L116
  then show ?thesis
    using t u
      I_T_obs [OF I, of t]
      I_T_obs [OF I, of u]
      I_E_own [OF I, of "ent (threads s ! u)"]
      I_lenC [OF I]
    by (auto simp add: T_obs_def E_own_def upd)
next
  case L117
  then show ?thesis
    using t u
      I_T_obs [OF I, of t]
      I_T_obs [OF I, of u]
      I_E_own [OF I, of "ent (threads s ! u)"]
      I_lenC [OF I]
    by (auto simp add: T_obs_def E_own_def upd)
next
  case L118
  then show ?thesis
    using t u
      I_T_obs [OF I, of t]
      I_T_obs [OF I, of u]
      I_E_own [OF I, of "ent (threads s ! u)"]
      I_lenC [OF I]
    by (auto simp add: T_obs_def E_own_def upd)
next
  case L120
  then show ?thesis
    using t u
      I_T_obs [OF I, of t]
      I_T_obs [OF I, of u]
      I_E_own [OF I, of "ent (threads s ! u)"]
      I_lenC [OF I]
    by (auto simp add: T_obs_def E_own_def upd)
next
  case L120nil
  then show ?thesis
    using t u
      I_T_obs [OF I, of t]
      I_T_obs [OF I, of u]
      I_E_own [OF I, of "ent (threads s ! u)"]
      I_lenC [OF I]
    by (auto simp add: T_obs_def E_own_def upd)
next
  case L121
  then show ?thesis
    using t u
      I_T_obs [OF I, of t]
      I_T_obs [OF I, of u]
      I_E_own [OF I, of "ent (threads s ! u)"]
      I_lenC [OF I]
    by (auto simp add: T_obs_def E_own_def upd)
next
  case SelTimer
  then show ?thesis
    using t u
      I_T_obs [OF I, of t]
      I_T_obs [OF I, of u]
      I_E_own [OF I, of "ent (threads s ! u)"]
      I_lenC [OF I]
    by (auto simp add: T_obs_def E_own_def upd)
next
  case SelDone
  then show ?thesis
    using t u
      I_T_obs [OF I, of t]
      I_T_obs [OF I, of u]
      I_E_own [OF I, of "ent (threads s ! u)"]
      I_lenC [OF I]
    by (auto simp add: T_obs_def E_own_def upd)
qed

lemma T_obs_step:
  fixes s :: "('k, 'v::zero) state"
  assumes st: "step a s = Some s'" and I: "inv s" and u: "u < length (threads s')"
  shows "T_obs s' u"
  using st
proof (cases rule: step_kinds)
  case (Go c)
  then show ?thesis
    using u
      I_T_obs [OF I, of u]
      I_E_own [OF I, of "ent (threads s ! u)"]
      I_lenC [OF I]
    by (auto simp add: T_obs_def E_own_def upd)
next
  case (Thread t)
  show ?thesis
    by (rule T_obs_tstep [OF st Thread I u])
next
  case (Expire e0)
  then show ?thesis
    using u
      I_T_obs [OF I, of u]
      I_E_own [OF I, of "ent (threads s ! u)"]
      I_lenC [OF I]
    by (auto simp add: T_obs_def E_own_def)
qed

lemma T_del_tstep:
  fixes s :: "('k, 'v::zero) state"
  assumes st: "step a s = Some s'" and a: "a = Run t \<or> (\<exists>c. a = Select t c)"
    and t: "t < length (threads s)" and I: "inv s" and u: "u < length (threads s')"
  shows "T_del s' u"
  using st a
proof (cases rule: tstep_cases)
  case L51
  then show ?thesis
    using t u
      I_T_del [OF I, of t]
      I_T_del [OF I, of u]
      I_E_own [OF I, of "del_ent (threads s ! u)"]
      I_lenC [OF I]
    by (auto simp add: T_del_def E_own_def upd)
next
  case L56nil
  then show ?thesis
    using t u
      I_T_del [OF I, of t]
      I_T_del [OF I, of u]
      I_E_own [OF I, of "del_ent (threads s ! u)"]
      I_lenC [OF I]
    by (auto simp add: T_del_def E_own_def upd)
next
  case L56
  then show ?thesis
    using t u
      I_T_del [OF I, of t]
      I_T_del [OF I, of u]
      I_E_own [OF I, of "del_ent (threads s ! u)"]
      I_lenC [OF I]
    by (auto simp add: T_del_def E_own_def upd)
next
  case L60
  then show ?thesis
    using t u
      I_T_del [OF I, of t]
      I_T_del [OF I, of u]
      I_E_own [OF I, of "del_ent (threads s ! u)"]
      I_lenC [OF I]
    by (auto simp add: T_del_def E_own_def upd)
next
  case L61
  then show ?thesis
    using t u
      I_T_del [OF I, of t]
      I_T_del [OF I, of u]
      I_E_own [OF I, of "del_ent (threads s ! u)"]
      I_lenC [OF I]
    by (auto simp add: T_del_def E_own_def upd)
next
  case (L65hit e0)
  then show ?thesis
    using t u
      I_T_del [OF I, of t]
      I_T_del [OF I, of u]
      I_E_own [OF I, of "del_ent (threads s ! u)"]
      I_lenC [OF I]
    by (auto simp add: T_del_def E_own_def upd)
next
  case L65miss
  then show ?thesis
    using t u
      I_T_del [OF I, of t]
      I_T_del [OF I, of u]
      I_E_own [OF I, of "del_ent (threads s ! u)"]
      I_lenC [OF I]
    by (auto simp add: T_del_def E_own_def upd)
next
  case L66
  then show ?thesis
    using t u
      I_T_del [OF I, of t]
      I_T_del [OF I, of u]
      I_E_own [OF I, of "del_ent (threads s ! u)"]
      I_lenC [OF I]
    by (auto simp add: T_del_def E_own_def upd)
next
  case L69
  then show ?thesis
    using t u
      I_T_del [OF I, of t]
      I_T_del [OF I, of u]
      I_E_own [OF I, of "del_ent (threads s ! u)"]
      I_lenC [OF I]
    by (auto simp add: T_del_def E_own_def upd)
next
  case L70
  then show ?thesis
    using t u
      I_T_del [OF I, of t]
      I_T_del [OF I, of u]
      I_E_own [OF I, of "del_ent (threads s ! u)"]
      I_lenC [OF I]
    by (auto simp add: T_del_def E_own_def upd)
next
  case L71
  then show ?thesis
    using t u
      I_T_del [OF I, of t]
      I_T_del [OF I, of u]
      I_E_own [OF I, of "del_ent (threads s ! u)"]
      I_lenC [OF I]
    by (auto simp add: T_del_def E_own_def upd)
next
  case L74
  then show ?thesis
    using t u
      I_T_del [OF I, of t]
      I_T_del [OF I, of u]
      I_E_own [OF I, of "del_ent (threads s ! u)"]
      I_lenC [OF I]
    by (auto simp add: T_del_def E_own_def upd)
next
  case L77
  then show ?thesis
    using t u
      I_T_del [OF I, of t]
      I_T_del [OF I, of u]
      I_E_own [OF I, of "del_ent (threads s ! u)"]
      I_lenC [OF I]
    by (auto simp add: T_del_def E_own_def upd)
next
  case L78
  then show ?thesis
    using t u
      I_T_del [OF I, of t]
      I_T_del [OF I, of u]
      I_E_own [OF I, of "del_ent (threads s ! u)"]
      I_lenC [OF I]
    by (auto simp add: T_del_def E_own_def upd)
next
  case L79
  then show ?thesis
    using t u
      I_T_del [OF I, of t]
      I_T_del [OF I, of u]
      I_E_own [OF I, of "del_ent (threads s ! u)"]
      I_lenC [OF I]
    by (auto simp add: T_del_def E_own_def upd)
next
  case L81
  then show ?thesis
    using t u
      I_T_del [OF I, of t]
      I_T_del [OF I, of u]
      I_E_own [OF I, of "del_ent (threads s ! u)"]
      I_lenC [OF I]
    by (auto simp add: T_del_def E_own_def upd)
next
  case (L81r v0 er0)
  then show ?thesis
    using t u
      I_T_del [OF I, of t]
      I_T_del [OF I, of u]
      I_E_own [OF I, of "del_ent (threads s ! u)"]
      I_lenC [OF I]
    by (auto simp add: T_del_def E_own_def upd)
next
  case L83err
  then show ?thesis
    using t u
      I_T_del [OF I, of t]
      I_T_del [OF I, of u]
      I_E_own [OF I, of "del_ent (threads s ! u)"]
      I_lenC [OF I]
    by (auto simp add: T_del_def E_own_def upd)
next
  case L83timer
  then show ?thesis
    using t u
      I_T_del [OF I, of t]
      I_T_del [OF I, of u]
      I_E_own [OF I, of "del_ent (threads s ! u)"]
      I_lenC [OF I]
    by (auto simp add: T_del_def E_own_def upd)
next
  case L83
  then show ?thesis
    using t u
      I_T_del [OF I, of t]
      I_T_del [OF I, of u]
      I_E_own [OF I, of "del_ent (threads s ! u)"]
      I_lenC [OF I]
    by (auto simp add: T_del_def E_own_def upd)
next
  case L84
  then show ?thesis
    using t u
      I_T_del [OF I, of t]
      I_T_del [OF I, of u]
      I_E_own [OF I, of "del_ent (threads s ! u)"]
      I_lenC [OF I]
    by (auto simp add: T_del_def E_own_def upd)
next
  case L85
  then show ?thesis
    using t u
      I_T_del [OF I, of t]
      I_T_del [OF I, of u]
      I_E_own [OF I, of "del_ent (threads s ! u)"]
      I_lenC [OF I]
    by (auto simp add: T_del_def E_own_def upd)
next
  case L86
  then show ?thesis
    using t u
      I_T_del [OF I, of t]
      I_T_del [OF I, of u]
      I_E_own [OF I, of "del_ent (threads s ! u)"]
      I_lenC [OF I]
    by (auto simp add: T_del_def E_own_def upd)
next
  case L88
  then show ?thesis
    using t u
      I_T_del [OF I, of t]
      I_T_del [OF I, of u]
      I_E_own [OF I, of "del_ent (threads s ! u)"]
      I_lenC [OF I]
    by (auto simp add: T_del_def E_own_def upd)
next
  case L89
  then show ?thesis
    using t u
      I_T_del [OF I, of t]
      I_T_del [OF I, of u]
      I_E_own [OF I, of "del_ent (threads s ! u)"]
      I_lenC [OF I]
    by (auto simp add: T_del_def E_own_def upd)
next
  case L92
  then show ?thesis
    using t u
      I_T_del [OF I, of t]
      I_T_del [OF I, of u]
      I_E_own [OF I, of "del_ent (threads s ! u)"]
      I_lenC [OF I]
    by (auto simp add: T_del_def E_own_def upd)
next
  case L94
  then show ?thesis
    using t u
      I_T_del [OF I, of t]
      I_T_del [OF I, of u]
      I_E_own [OF I, of "del_ent (threads s ! u)"]
      I_lenC [OF I]
    by (auto simp add: T_del_def E_own_def upd)
next
  case L100
  then show ?thesis
    using t u
      I_T_del [OF I, of t]
      I_T_del [OF I, of u]
      I_E_own [OF I, of "del_ent (threads s ! u)"]
      I_lenC [OF I]
    by (auto simp add: T_del_def E_own_def upd)
next
  case L103
  then show ?thesis
    using t u
      I_T_del [OF I, of t]
      I_T_del [OF I, of u]
      I_E_own [OF I, of "del_ent (threads s ! u)"]
      I_lenC [OF I]
    by (auto simp add: T_del_def E_own_def upd)
next
  case L108
  then show ?thesis
    using t u
      I_T_del [OF I, of t]
      I_T_del [OF I, of u]
      I_E_own [OF I, of "del_ent (threads s ! u)"]
      I_lenC [OF I]
    by (auto simp add: T_del_def E_own_def upd)
next
  case L110miss
  then show ?thesis
    using t u
      I_T_del [OF I, of t]
      I_T_del [OF I, of u]
      I_E_own [OF I, of "del_ent (threads s ! u)"]
      I_lenC [OF I]
    by (auto simp add: T_del_def E_own_def upd)
next
  case (L110hit e0)
  then show ?thesis
    using t u
      I_T_del [OF I, of t]
      I_T_del [OF I, of u]
      I_E_own [OF I, of "del_ent (threads s ! u)"]
      I_lenC [OF I]
      I_M_wf [OF I, of "key (threads s ! t)" e0]
      I_E_own [OF I, of e0]
    by (auto simp add: T_del_def E_own_def M_wf_def upd)
next
  case L112
  then show ?thesis
    using t u
      I_T_del [OF I, of t]
      I_T_del [OF I, of u]
      I_E_own [OF I, of "del_ent (threads s ! u)"]
      I_lenC [OF I]
    by (auto simp add: T_del_def E_own_def upd)
next
  case L116
  then show ?thesis
    using t u
      I_T_del [OF I, of t]
      I_T_del [OF I, of u]
      I_E_own [OF I, of "del_ent (threads s ! u)"]
      I_lenC [OF I]
    by (auto simp add: T_del_def E_own_def upd)
next
  case L117
  then show ?thesis
    using t u
      I_T_del [OF I, of t]
      I_T_del [OF I, of u]
      I_E_own [OF I, of "del_ent (threads s ! u)"]
      I_lenC [OF I]
    by (auto simp add: T_del_def E_own_def upd)
next
  case L118
  then show ?thesis
    using t u
      I_T_del [OF I, of t]
      I_T_del [OF I, of u]
      I_E_own [OF I, of "del_ent (threads s ! u)"]
      I_lenC [OF I]
    by (auto simp add: T_del_def E_own_def upd)
next
  case L120
  then show ?thesis
    using t u
      I_T_del [OF I, of t]
      I_T_del [OF I, of u]
      I_E_own [OF I, of "del_ent (threads s ! u)"]
      I_lenC [OF I]
    by (auto simp add: T_del_def E_own_def upd)
next
  case L120nil
  then show ?thesis
    using t u
      I_T_del [OF I, of t]
      I_T_del [OF I, of u]
      I_E_own [OF I, of "del_ent (threads s ! u)"]
      I_lenC [OF I]
    by (auto simp add: T_del_def E_own_def upd)
next
  case L121
  then show ?thesis
    using t u
      I_T_del [OF I, of t]
      I_T_del [OF I, of u]
      I_E_own [OF I, of "del_ent (threads s ! u)"]
      I_lenC [OF I]
    by (auto simp add: T_del_def E_own_def upd)
next
  case SelTimer
  then show ?thesis
    using t u
      I_T_del [OF I, of t]
      I_T_del [OF I, of u]
      I_E_own [OF I, of "del_ent (threads s ! u)"]
      I_lenC [OF I]
    by (auto simp add: T_del_def E_own_def upd)
next
  case SelDone
  then show ?thesis
    using t u
      I_T_del [OF I, of t]
      I_T_del [OF I, of u]
      I_E_own [OF I, of "del_ent (threads s ! u)"]
      I_lenC [OF I]
    by (auto simp add: T_del_def E_own_def upd)
qed

lemma T_del_step:
  fixes s :: "('k, 'v::zero) state"
  assumes st: "step a s = Some s'" and I: "inv s" and u: "u < length (threads s')"
  shows "T_del s' u"
  using st
proof (cases rule: step_kinds)
  case (Go c)
  then show ?thesis
    using u
      I_T_del [OF I, of u]
      I_E_own [OF I, of "del_ent (threads s ! u)"]
      I_lenC [OF I]
    by (auto simp add: T_del_def E_own_def upd)
next
  case (Thread t)
  show ?thesis
    by (rule T_del_tstep [OF st Thread I u])
next
  case (Expire e0)
  then show ?thesis
    using u
      I_T_del [OF I, of u]
      I_E_own [OF I, of "del_ent (threads s ! u)"]
      I_lenC [OF I]
    by (auto simp add: T_del_def E_own_def)
qed

lemma T_din_tstep:
  fixes s :: "('k, 'v::zero) state"
  assumes st: "step a s = Some s'" and a: "a = Run t \<or> (\<exists>c. a = Select t c)"
    and t: "t < length (threads s)" and I: "inv s" and u: "u < length (threads s')"
  shows "T_din s' u"
  using st a
proof (cases rule: tstep_cases)
  case L51
  then show ?thesis
    using t u
      I_T_din [OF I, of t]
      I_T_din [OF I, of u]
      I_T_lock [OF I, of t]
      I_T_lock [OF I, of u]
    by (auto simp add: T_din_def T_lock_def upd)
next
  case L56nil
  then show ?thesis
    using t u
      I_T_din [OF I, of t]
      I_T_din [OF I, of u]
      I_T_lock [OF I, of t]
      I_T_lock [OF I, of u]
    by (auto simp add: T_din_def T_lock_def upd)
next
  case L56
  then show ?thesis
    using t u
      I_T_din [OF I, of t]
      I_T_din [OF I, of u]
      I_T_lock [OF I, of t]
      I_T_lock [OF I, of u]
    by (auto simp add: T_din_def T_lock_def upd)
next
  case L60
  then show ?thesis
    using t u
      I_T_din [OF I, of t]
      I_T_din [OF I, of u]
      I_T_lock [OF I, of t]
      I_T_lock [OF I, of u]
    by (auto simp add: T_din_def T_lock_def upd)
next
  case L61
  then show ?thesis
    using t u
      I_T_din [OF I, of t]
      I_T_din [OF I, of u]
      I_T_lock [OF I, of t]
      I_T_lock [OF I, of u]
    by (auto simp add: T_din_def T_lock_def upd)
next
  case (L65hit e0)
  then show ?thesis
    using t u
      I_T_din [OF I, of t]
      I_T_din [OF I, of u]
      I_T_lock [OF I, of t]
      I_T_lock [OF I, of u]
    by (auto simp add: T_din_def T_lock_def upd)
next
  case L65miss
  then show ?thesis
    using t u
      I_T_din [OF I, of t]
      I_T_din [OF I, of u]
      I_T_lock [OF I, of t]
      I_T_lock [OF I, of u]
    by (auto simp add: T_din_def T_lock_def upd)
next
  case L66
  then show ?thesis
    using t u
      I_T_din [OF I, of t]
      I_T_din [OF I, of u]
      I_T_lock [OF I, of t]
      I_T_lock [OF I, of u]
    by (auto simp add: T_din_def T_lock_def upd)
next
  case L69
  then show ?thesis
    using t u
      I_T_din [OF I, of t]
      I_T_din [OF I, of u]
      I_T_lock [OF I, of t]
      I_T_lock [OF I, of u]
    by (auto simp add: T_din_def T_lock_def upd)
next
  case L70
  then show ?thesis
    using t u
      I_T_din [OF I, of t]
      I_T_din [OF I, of u]
      I_T_lock [OF I, of t]
      I_T_lock [OF I, of u]
    by (auto simp add: T_din_def T_lock_def upd)
next
  case L71
  then show ?thesis
    using t u
      I_T_din [OF I, of t]
      I_T_din [OF I, of u]
      I_T_lock [OF I, of t]
      I_T_lock [OF I, of u]
    by (auto simp add: T_din_def T_lock_def upd)
next
  case L74
  then show ?thesis
    using t u
      I_T_din [OF I, of t]
      I_T_din [OF I, of u]
      I_T_lock [OF I, of t]
      I_T_lock [OF I, of u]
    by (auto simp add: T_din_def T_lock_def upd)
next
  case L77
  then show ?thesis
    using t u
      I_T_din [OF I, of t]
      I_T_din [OF I, of u]
      I_T_lock [OF I, of t]
      I_T_lock [OF I, of u]
    by (auto simp add: T_din_def T_lock_def upd)
next
  case L78
  then show ?thesis
    using t u
      I_T_din [OF I, of t]
      I_T_din [OF I, of u]
      I_T_lock [OF I, of t]
      I_T_lock [OF I, of u]
    by (auto simp add: T_din_def T_lock_def upd)
next
  case L79
  then show ?thesis
    using t u
      I_T_din [OF I, of t]
      I_T_din [OF I, of u]
      I_T_lock [OF I, of t]
      I_T_lock [OF I, of u]
    by (auto simp add: T_din_def T_lock_def upd)
next
  case L81
  then show ?thesis
    using t u
      I_T_din [OF I, of t]
      I_T_din [OF I, of u]
      I_T_lock [OF I, of t]
      I_T_lock [OF I, of u]
    by (auto simp add: T_din_def T_lock_def upd)
next
  case (L81r v0 er0)
  then show ?thesis
    using t u
      I_T_din [OF I, of t]
      I_T_din [OF I, of u]
      I_T_lock [OF I, of t]
      I_T_lock [OF I, of u]
    by (auto simp add: T_din_def T_lock_def upd)
next
  case L83err
  then show ?thesis
    using t u
      I_T_din [OF I, of t]
      I_T_din [OF I, of u]
      I_T_lock [OF I, of t]
      I_T_lock [OF I, of u]
    by (auto simp add: T_din_def T_lock_def upd)
next
  case L83timer
  then show ?thesis
    using t u
      I_T_din [OF I, of t]
      I_T_din [OF I, of u]
      I_T_lock [OF I, of t]
      I_T_lock [OF I, of u]
    by (auto simp add: T_din_def T_lock_def upd)
next
  case L83
  then show ?thesis
    using t u
      I_T_din [OF I, of t]
      I_T_din [OF I, of u]
      I_T_lock [OF I, of t]
      I_T_lock [OF I, of u]
    by (auto simp add: T_din_def T_lock_def upd)
next
  case L84
  then show ?thesis
    using t u
      I_T_din [OF I, of t]
      I_T_din [OF I, of u]
      I_T_lock [OF I, of t]
      I_T_lock [OF I, of u]
    by (auto simp add: T_din_def T_lock_def upd)
next
  case L85
  then show ?thesis
    using t u
      I_T_din [OF I, of t]
      I_T_din [OF I, of u]
      I_T_lock [OF I, of t]
      I_T_lock [OF I, of u]
    by (auto simp add: T_din_def T_lock_def upd)
next
  case L86
  then show ?thesis
    using t u
      I_T_din [OF I, of t]
      I_T_din [OF I, of u]
      I_T_lock [OF I, of t]
      I_T_lock [OF I, of u]
    by (auto simp add: T_din_def T_lock_def upd)
next
  case L88
  then show ?thesis
    using t u
      I_T_din [OF I, of t]
      I_T_din [OF I, of u]
      I_T_lock [OF I, of t]
      I_T_lock [OF I, of u]
    by (auto simp add: T_din_def T_lock_def upd)
next
  case L89
  then show ?thesis
    using t u
      I_T_din [OF I, of t]
      I_T_din [OF I, of u]
      I_T_lock [OF I, of t]
      I_T_lock [OF I, of u]
    by (auto simp add: T_din_def T_lock_def upd)
next
  case L92
  then show ?thesis
    using t u
      I_T_din [OF I, of t]
      I_T_din [OF I, of u]
      I_T_lock [OF I, of t]
      I_T_lock [OF I, of u]
    by (auto simp add: T_din_def T_lock_def upd)
next
  case L94
  then show ?thesis
    using t u
      I_T_din [OF I, of t]
      I_T_din [OF I, of u]
      I_T_lock [OF I, of t]
      I_T_lock [OF I, of u]
    by (auto simp add: T_din_def T_lock_def upd)
next
  case L100
  then show ?thesis
    using t u
      I_T_din [OF I, of t]
      I_T_din [OF I, of u]
      I_T_lock [OF I, of t]
      I_T_lock [OF I, of u]
    by (auto simp add: T_din_def T_lock_def upd)
next
  case L103
  then show ?thesis
    using t u
      I_T_din [OF I, of t]
      I_T_din [OF I, of u]
      I_T_lock [OF I, of t]
      I_T_lock [OF I, of u]
    by (auto simp add: T_din_def T_lock_def upd)
next
  case L108
  then show ?thesis
    using t u
      I_T_din [OF I, of t]
      I_T_din [OF I, of u]
      I_T_lock [OF I, of t]
      I_T_lock [OF I, of u]
    by (auto simp add: T_din_def T_lock_def upd)
next
  case L110miss
  then show ?thesis
    using t u
      I_T_din [OF I, of t]
      I_T_din [OF I, of u]
      I_T_lock [OF I, of t]
      I_T_lock [OF I, of u]
    by (auto simp add: T_din_def T_lock_def upd)
next
  case (L110hit e0)
  then show ?thesis
    using t u
      I_T_din [OF I, of t]
      I_T_din [OF I, of u]
      I_T_lock [OF I, of t]
      I_T_lock [OF I, of u]
    by (auto simp add: T_din_def T_lock_def upd)
next
  case L112
  then show ?thesis
    using t u
      I_T_din [OF I, of t]
      I_T_din [OF I, of u]
      I_T_lock [OF I, of t]
      I_T_lock [OF I, of u]
    by (auto simp add: T_din_def T_lock_def upd)
next
  case L116
  then show ?thesis
    using t u
      I_T_din [OF I, of t]
      I_T_din [OF I, of u]
      I_T_lock [OF I, of t]
      I_T_lock [OF I, of u]
    by (auto simp add: T_din_def T_lock_def upd)
next
  case L117
  then show ?thesis
    using t u
      I_T_din [OF I, of t]
      I_T_din [OF I, of u]
      I_T_lock [OF I, of t]
      I_T_lock [OF I, of u]
    by (auto simp add: T_din_def T_lock_def upd)
next
  case L118
  then show ?thesis
    using t u
      I_T_din [OF I, of t]
      I_T_din [OF I, of u]
      I_T_lock [OF I, of t]
      I_T_lock [OF I, of u]
    by (auto simp add: T_din_def T_lock_def upd)
next
  case L120
  then show ?thesis
    using t u
      I_T_din [OF I, of t]
      I_T_din [OF I, of u]
      I_T_lock [OF I, of t]
      I_T_lock [OF I, of u]
    by (auto simp add: T_din_def T_lock_def upd)
next
  case L120nil
  then show ?thesis
    using t u
      I_T_din [OF I, of t]
      I_T_din [OF I, of u]
      I_T_lock [OF I, of t]
      I_T_lock [OF I, of u]
    by (auto simp add: T_din_def T_lock_def upd)
next
  case L121
  then show ?thesis
    using t u
      I_T_din [OF I, of t]
      I_T_din [OF I, of u]
      I_T_lock [OF I, of t]
      I_T_lock [OF I, of u]
    by (auto simp add: T_din_def T_lock_def upd)
next
  case SelTimer
  then show ?thesis
    using t u
      I_T_din [OF I, of t]
      I_T_din [OF I, of u]
      I_T_lock [OF I, of t]
      I_T_lock [OF I, of u]
    by (auto simp add: T_din_def T_lock_def upd)
next
  case SelDone
  then show ?thesis
    using t u
      I_T_din [OF I, of t]
      I_T_din [OF I, of u]
      I_T_lock [OF I, of t]
      I_T_lock [OF I, of u]
    by (auto simp add: T_din_def T_lock_def upd)
qed

lemma T_din_step:
  fixes s :: "('k, 'v::zero) state"
  assumes st: "step a s = Some s'" and I: "inv s" and u: "u < length (threads s')"
  shows "T_din s' u"
  using st
proof (cases rule: step_kinds)
  case (Go c)
  then show ?thesis
    using u
      I_T_din [OF I, of u]
      I_T_lock [OF I, of u]
    by (auto simp add: T_din_def T_lock_def upd)
next
  case (Thread t)
  show ?thesis
    by (rule T_din_tstep [OF st Thread I u])
next
  case (Expire e0)
  then show ?thesis
    using u
      I_T_din [OF I, of u]
      I_T_lock [OF I, of u]
    by (auto simp add: T_din_def T_lock_def)
qed

lemma T_cancel_tstep:
  fixes s :: "('k, 'v::zero) state"
  assumes st: "step a s = Some s'" and a: "a = Run t \<or> (\<exists>c. a = Select t c)"
    and t: "t < length (threads s)" and I: "inv s" and u: "u < length (threads s')"
  shows "T_cancel s' u"
  using st a
proof (cases rule: tstep_cases)
  case L51
  then show ?thesis
    using t u
      I_T_cancel [OF I, of t]
      I_T_cancel [OF I, of u]
      I_T_del [OF I, of u]
    by (auto simp add: T_cancel_def T_del_def upd)
next
  case L56nil
  then show ?thesis
    using t u
      I_T_cancel [OF I, of t]
      I_T_cancel [OF I, of u]
      I_T_del [OF I, of u]
    by (auto simp add: T_cancel_def T_del_def upd)
next
  case L56
  then show ?thesis
    using t u
      I_T_cancel [OF I, of t]
      I_T_cancel [OF I, of u]
      I_T_del [OF I, of u]
    by (auto simp add: T_cancel_def T_del_def upd)
next
  case L60
  then show ?thesis
    using t u
      I_T_cancel [OF I, of t]
      I_T_cancel [OF I, of u]
      I_T_del [OF I, of u]
    by (auto simp add: T_cancel_def T_del_def upd)
next
  case L61
  then show ?thesis
    using t u
      I_T_cancel [OF I, of t]
      I_T_cancel [OF I, of u]
      I_T_del [OF I, of u]
    by (auto simp add: T_cancel_def T_del_def upd)
next
  case (L65hit e0)
  then show ?thesis
    using t u
      I_T_cancel [OF I, of t]
      I_T_cancel [OF I, of u]
      I_T_del [OF I, of u]
    by (auto simp add: T_cancel_def T_del_def upd)
next
  case L65miss
  then show ?thesis
    using t u
      I_T_cancel [OF I, of t]
      I_T_cancel [OF I, of u]
      I_T_del [OF I, of u]
    by (auto simp add: T_cancel_def T_del_def upd)
next
  case L66
  then show ?thesis
    using t u
      I_T_cancel [OF I, of t]
      I_T_cancel [OF I, of u]
      I_T_del [OF I, of u]
    by (auto simp add: T_cancel_def T_del_def upd)
next
  case L69
  then show ?thesis
    using t u
      I_T_cancel [OF I, of t]
      I_T_cancel [OF I, of u]
      I_T_del [OF I, of u]
    by (auto simp add: T_cancel_def T_del_def upd)
next
  case L70
  then show ?thesis
    using t u
      I_T_cancel [OF I, of t]
      I_T_cancel [OF I, of u]
      I_T_del [OF I, of u]
    by (auto simp add: T_cancel_def T_del_def upd)
next
  case L71
  then show ?thesis
    using t u
      I_T_cancel [OF I, of t]
      I_T_cancel [OF I, of u]
      I_T_del [OF I, of u]
    by (auto simp add: T_cancel_def T_del_def upd)
next
  case L74
  then show ?thesis
    using t u
      I_T_cancel [OF I, of t]
      I_T_cancel [OF I, of u]
      I_T_del [OF I, of u]
    by (auto simp add: T_cancel_def T_del_def upd)
next
  case L77
  then show ?thesis
    using t u
      I_T_cancel [OF I, of t]
      I_T_cancel [OF I, of u]
      I_T_del [OF I, of u]
    by (auto simp add: T_cancel_def T_del_def upd)
next
  case L78
  then show ?thesis
    using t u
      I_T_cancel [OF I, of t]
      I_T_cancel [OF I, of u]
      I_T_del [OF I, of u]
    by (auto simp add: T_cancel_def T_del_def upd)
next
  case L79
  then show ?thesis
    using t u
      I_T_cancel [OF I, of t]
      I_T_cancel [OF I, of u]
      I_T_del [OF I, of u]
    by (auto simp add: T_cancel_def T_del_def upd)
next
  case L81
  then show ?thesis
    using t u
      I_T_cancel [OF I, of t]
      I_T_cancel [OF I, of u]
      I_T_del [OF I, of u]
    by (auto simp add: T_cancel_def T_del_def upd)
next
  case (L81r v0 er0)
  then show ?thesis
    using t u
      I_T_cancel [OF I, of t]
      I_T_cancel [OF I, of u]
      I_T_del [OF I, of u]
    by (auto simp add: T_cancel_def T_del_def upd)
next
  case L83err
  then show ?thesis
    using t u
      I_T_cancel [OF I, of t]
      I_T_cancel [OF I, of u]
      I_T_del [OF I, of u]
    by (auto simp add: T_cancel_def T_del_def upd)
next
  case L83timer
  then show ?thesis
    using t u
      I_T_cancel [OF I, of t]
      I_T_cancel [OF I, of u]
      I_T_del [OF I, of u]
    by (auto simp add: T_cancel_def T_del_def upd)
next
  case L83
  then show ?thesis
    using t u
      I_T_cancel [OF I, of t]
      I_T_cancel [OF I, of u]
      I_T_del [OF I, of u]
    by (auto simp add: T_cancel_def T_del_def upd)
next
  case L84
  then show ?thesis
    using t u
      I_T_cancel [OF I, of t]
      I_T_cancel [OF I, of u]
      I_T_del [OF I, of u]
    by (auto simp add: T_cancel_def T_del_def upd)
next
  case L85
  then show ?thesis
    using t u
      I_T_cancel [OF I, of t]
      I_T_cancel [OF I, of u]
      I_T_del [OF I, of u]
    by (auto simp add: T_cancel_def T_del_def upd)
next
  case L86
  then show ?thesis
    using t u
      I_T_cancel [OF I, of t]
      I_T_cancel [OF I, of u]
      I_T_del [OF I, of u]
    by (auto simp add: T_cancel_def T_del_def upd)
next
  case L88
  then show ?thesis
    using t u
      I_T_cancel [OF I, of t]
      I_T_cancel [OF I, of u]
      I_T_del [OF I, of u]
    by (auto simp add: T_cancel_def T_del_def upd)
next
  case L89
  then show ?thesis
    using t u
      I_T_cancel [OF I, of t]
      I_T_cancel [OF I, of u]
      I_T_del [OF I, of u]
    by (auto simp add: T_cancel_def T_del_def upd)
next
  case L92
  then show ?thesis
    using t u
      I_T_cancel [OF I, of t]
      I_T_cancel [OF I, of u]
      I_T_del [OF I, of u]
    by (auto simp add: T_cancel_def T_del_def upd)
next
  case L94
  then show ?thesis
    using t u
      I_T_cancel [OF I, of t]
      I_T_cancel [OF I, of u]
      I_T_del [OF I, of u]
    by (auto simp add: T_cancel_def T_del_def upd)
next
  case L100
  then show ?thesis
    using t u
      I_T_cancel [OF I, of t]
      I_T_cancel [OF I, of u]
      I_T_del [OF I, of u]
    by (auto simp add: T_cancel_def T_del_def upd)
next
  case L103
  then show ?thesis
    using t u
      I_T_cancel [OF I, of t]
      I_T_cancel [OF I, of u]
      I_T_del [OF I, of u]
    by (auto simp add: T_cancel_def T_del_def upd)
next
  case L108
  then show ?thesis
    using t u
      I_T_cancel [OF I, of t]
      I_T_cancel [OF I, of u]
      I_T_del [OF I, of u]
    by (auto simp add: T_cancel_def T_del_def upd)
next
  case L110miss
  then show ?thesis
    using t u
      I_T_cancel [OF I, of t]
      I_T_cancel [OF I, of u]
      I_T_del [OF I, of u]
    by (auto simp add: T_cancel_def T_del_def upd)
next
  case (L110hit e0)
  then show ?thesis
    using t u
      I_T_cancel [OF I, of t]
      I_T_cancel [OF I, of u]
      I_T_del [OF I, of u]
    by (auto simp add: T_cancel_def T_del_def upd)
next
  case L112
  then show ?thesis
    using t u
      I_T_cancel [OF I, of t]
      I_T_cancel [OF I, of u]
      I_T_del [OF I, of u]
    by (auto simp add: T_cancel_def T_del_def upd)
next
  case L116
  then show ?thesis
    using t u
      I_T_cancel [OF I, of t]
      I_T_cancel [OF I, of u]
      I_T_del [OF I, of u]
      I_T_del [OF I, of t]
    by (auto simp add: T_cancel_def T_del_def upd)
next
  case L117
  then show ?thesis
    using t u
      I_T_cancel [OF I, of t]
      I_T_cancel [OF I, of u]
      I_T_del [OF I, of u]
    by (auto simp add: T_cancel_def T_del_def upd)
next
  case L118
  then show ?thesis
    using t u
      I_T_cancel [OF I, of t]
      I_T_cancel [OF I, of u]
      I_T_del [OF I, of u]
    by (auto simp add: T_cancel_def T_del_def upd)
next
  case L120
  then show ?thesis
    using t u
      I_T_cancel [OF I, of t]
      I_T_cancel [OF I, of u]
      I_T_del [OF I, of u]
    by (auto simp add: T_cancel_def T_del_def upd)
next
  case L120nil
  then show ?thesis
    using t u
      I_T_cancel [OF I, of t]
      I_T_cancel [OF I, of u]
      I_T_del [OF I, of u]
    by (auto simp add: T_cancel_def T_del_def upd)
next
  case L121
  then show ?thesis
    using t u
      I_T_cancel [OF I, of t]
      I_T_cancel [OF I, of u]
      I_T_del [OF I, of u]
    by (auto simp add: T_cancel_def T_del_def upd)
next
  case SelTimer
  then show ?thesis
    using t u
      I_T_cancel [OF I, of t]
      I_T_cancel [OF I, of u]
      I_T_del [OF I, of u]
    by (auto simp add: T_cancel_def T_del_def upd)
next
  case SelDone
  then show ?thesis
    using t u
      I_T_cancel [OF I, of t]
      I_T_cancel [OF I, of u]
      I_T_del [OF I, of u]
    by (auto simp add: T_cancel_def T_del_def upd)
qed

lemma T_cancel_step:
  fixes s :: "('k, 'v::zero) state"
  assumes st: "step a s = Some s'" and I: "inv s" and u: "u < length (threads s')"
  shows "T_cancel s' u"
  using st
proof (cases rule: step_kinds)
  case (Go c)
  then show ?thesis
    using u
      I_T_cancel [OF I, of u]
      I_T_del [OF I, of u]
    by (auto simp add: T_cancel_def T_del_def upd)
next
  case (Thread t)
  show ?thesis
    by (rule T_cancel_tstep [OF st Thread I u])
next
  case (Expire e0)
  then show ?thesis
    using u
      I_T_cancel [OF I, of u]
      I_T_del [OF I, of u]
    by (auto simp add: T_cancel_def T_del_def)
qed

lemma T_dout_tstep:
  fixes s :: "('k, 'v::zero) state"
  assumes st: "step a s = Some s'" and a: "a = Run t \<or> (\<exists>c. a = Select t c)"
    and t: "t < length (threads s)" and I: "inv s" and u: "u < length (threads s')"
  shows "T_dout s' u"
  using st a
proof (cases rule: tstep_cases)
  case L51
  then show ?thesis
    using t u
      I_T_dout [OF I, of t]
      I_T_dout [OF I, of u]
    by (auto simp add: T_dout_def upd)
next
  case L56nil
  then show ?thesis
    using t u
      I_T_dout [OF I, of t]
      I_T_dout [OF I, of u]
    by (auto simp add: T_dout_def upd)
next
  case L56
  then show ?thesis
    using t u
      I_T_dout [OF I, of t]
      I_T_dout [OF I, of u]
    by (auto simp add: T_dout_def upd)
next
  case L60
  then show ?thesis
    using t u
      I_T_dout [OF I, of t]
      I_T_dout [OF I, of u]
    by (auto simp add: T_dout_def upd)
next
  case L61
  then show ?thesis
    using t u
      I_T_dout [OF I, of t]
      I_T_dout [OF I, of u]
    by (auto simp add: T_dout_def upd)
next
  case (L65hit e0)
  then show ?thesis
    using t u
      I_T_dout [OF I, of t]
      I_T_dout [OF I, of u]
    by (auto simp add: T_dout_def upd)
next
  case L65miss
  then show ?thesis
    using t u
      I_T_dout [OF I, of t]
      I_T_dout [OF I, of u]
    by (auto simp add: T_dout_def upd)
next
  case L66
  then show ?thesis
    using t u
      I_T_dout [OF I, of t]
      I_T_dout [OF I, of u]
    by (auto simp add: T_dout_def upd)
next
  case L69
  then show ?thesis
    using t u
      I_T_dout [OF I, of t]
      I_T_dout [OF I, of u]
    by (auto simp add: T_dout_def upd)
next
  case L70
  then show ?thesis
    using t u
      I_T_dout [OF I, of t]
      I_T_dout [OF I, of u]
    by (auto simp add: T_dout_def upd)
next
  case L71
  then show ?thesis
    using t u
      I_T_dout [OF I, of t]
      I_T_dout [OF I, of u]
    by (auto simp add: T_dout_def upd)
next
  case L74
  then show ?thesis
    using t u
      I_T_dout [OF I, of t]
      I_T_dout [OF I, of u]
    by (auto simp add: T_dout_def upd)
next
  case L77
  then show ?thesis
    using t u
      I_T_dout [OF I, of t]
      I_T_dout [OF I, of u]
    by (auto simp add: T_dout_def upd)
next
  case L78
  then show ?thesis
    using t u
      I_T_dout [OF I, of t]
      I_T_dout [OF I, of u]
      I_T_own [OF I, of t]
      I_T_del [OF I, of u]
    by (auto simp add: T_dout_def T_own_def T_del_def upd)
next
  case L79
  then show ?thesis
    using t u
      I_T_dout [OF I, of t]
      I_T_dout [OF I, of u]
    by (auto simp add: T_dout_def upd)
next
  case L81
  then show ?thesis
    using t u
      I_T_dout [OF I, of t]
      I_T_dout [OF I, of u]
    by (auto simp add: T_dout_def upd)
next
  case (L81r v0 er0)
  then show ?thesis
    using t u
      I_T_dout [OF I, of t]
      I_T_dout [OF I, of u]
    by (auto simp add: T_dout_def upd)
next
  case L83err
  then show ?thesis
    using t u
      I_T_dout [OF I, of t]
      I_T_dout [OF I, of u]
    by (auto simp add: T_dout_def upd)
next
  case L83timer
  then show ?thesis
    using t u
      I_T_dout [OF I, of t]
      I_T_dout [OF I, of u]
    by (auto simp add: T_dout_def upd)
next
  case L83
  then show ?thesis
    using t u
      I_T_dout [OF I, of t]
      I_T_dout [OF I, of u]
    by (auto simp add: T_dout_def upd)
next
  case L84
  then show ?thesis
    using t u
      I_T_dout [OF I, of t]
      I_T_dout [OF I, of u]
    by (auto simp add: T_dout_def upd)
next
  case L85
  then show ?thesis
    using t u
      I_T_dout [OF I, of t]
      I_T_dout [OF I, of u]
    by (auto simp add: T_dout_def upd)
next
  case L86
  then show ?thesis
    using t u
      I_T_dout [OF I, of t]
      I_T_dout [OF I, of u]
    by (auto simp add: T_dout_def upd)
next
  case L88
  then show ?thesis
    using t u
      I_T_dout [OF I, of t]
      I_T_dout [OF I, of u]
    by (auto simp add: T_dout_def upd)
next
  case L89
  then show ?thesis
    using t u
      I_T_dout [OF I, of t]
      I_T_dout [OF I, of u]
    by (auto simp add: T_dout_def upd)
next
  case L92
  then show ?thesis
    using t u
      I_T_dout [OF I, of t]
      I_T_dout [OF I, of u]
    by (auto simp add: T_dout_def upd)
next
  case L94
  then show ?thesis
    using t u
      I_T_dout [OF I, of t]
      I_T_dout [OF I, of u]
    by (auto simp add: T_dout_def upd)
next
  case L100
  then show ?thesis
    using t u
      I_T_dout [OF I, of t]
      I_T_dout [OF I, of u]
    by (auto simp add: T_dout_def upd)
next
  case L103
  then show ?thesis
    using t u
      I_T_dout [OF I, of t]
      I_T_dout [OF I, of u]
    by (auto simp add: T_dout_def upd)
next
  case L108
  then show ?thesis
    using t u
      I_T_dout [OF I, of t]
      I_T_dout [OF I, of u]
    by (auto simp add: T_dout_def upd)
next
  case L110miss
  then show ?thesis
    using t u
      I_T_dout [OF I, of t]
      I_T_dout [OF I, of u]
    by (auto simp add: T_dout_def upd)
next
  case (L110hit e0)
  then show ?thesis
    using t u
      I_T_dout [OF I, of t]
      I_T_dout [OF I, of u]
    by (auto simp add: T_dout_def upd)
next
  case L112
  then show ?thesis
    using t u
      I_T_dout [OF I, of t]
      I_T_dout [OF I, of u]
    by (auto simp add: T_dout_def upd)
next
  case L116
  then show ?thesis
    using t u
      I_T_dout [OF I, of t]
      I_T_dout [OF I, of u]
    by (auto simp add: T_dout_def upd)
next
  case L117
  then show ?thesis
    using t u
      I_T_dout [OF I, of t]
      I_T_dout [OF I, of u]
      I_T_din [OF I, of t]
      map_inj [OF I]
      I_M_tr [OF I, of "key (threads s ! t)" "del_ent (threads s ! t)"]
    by (auto simp add: T_dout_def T_din_def M_tr_def upd)
next
  case L118
  then show ?thesis
    using t u
      I_T_dout [OF I, of t]
      I_T_dout [OF I, of u]
    by (auto simp add: T_dout_def upd)
next
  case L120
  then show ?thesis
    using t u
      I_T_dout [OF I, of t]
      I_T_dout [OF I, of u]
    by (auto simp add: T_dout_def upd)
next
  case L120nil
  then show ?thesis
    using t u
      I_T_dout [OF I, of t]
      I_T_dout [OF I, of u]
    by (auto simp add: T_dout_def upd)
next
  case L121
  then show ?thesis
    using t u
      I_T_dout [OF I, of t]
      I_T_dout [OF I, of u]
      I_P_del [OF I, of t u]
    by (auto simp add: T_dout_def P_del_def upd)
next
  case SelTimer
  then show ?thesis
    using t u
      I_T_dout [OF I, of t]
      I_T_dout [OF I, of u]
    by (auto simp add: T_dout_def upd)
next
  case SelDone
  then show ?thesis
    using t u
      I_T_dout [OF I, of t]
      I_T_dout [OF I, of u]
    by (auto simp add: T_dout_def upd)
qed

lemma T_dout_step:
  fixes s :: "('k, 'v::zero) state"
  assumes st: "step a s = Some s'" and I: "inv s" and u: "u < length (threads s')"
  shows "T_dout s' u"
  using st
proof (cases rule: step_kinds)
  case (Go c)
  then show ?thesis
    using u
      I_T_dout [OF I, of u]
    by (auto simp add: T_dout_def upd)
next
  case (Thread t)
  show ?thesis
    by (rule T_dout_tstep [OF st Thread I u])
next
  case (Expire e0)
  then show ?thesis
    using u
      I_T_dout [OF I, of u]
    by (auto simp add: T_dout_def)
qed

lemma T_life_tstep:
  fixes s :: "('k, 'v::zero) state"
  assumes st: "step a s = Some s'" and a: "a = Run t \<or> (\<exists>c. a = Select t c)"
    and t: "t < length (threads s)" and I: "inv s" and u: "u < length (threads s')"
  shows "T_life s' u"
  using st a
proof (cases rule: tstep_cases)
  case L51
  then show ?thesis
    using t u
      I_T_life [OF I, of t]
      I_T_life [OF I, of u]
    by (auto simp add: T_life_def upd)
next
  case L56nil
  then show ?thesis
    using t u
      I_T_life [OF I, of t]
      I_T_life [OF I, of u]
    by (auto simp add: T_life_def upd)
next
  case L56
  then show ?thesis
    using t u
      I_T_life [OF I, of t]
      I_T_life [OF I, of u]
    by (auto simp add: T_life_def upd)
next
  case L60
  then show ?thesis
    using t u
      I_T_life [OF I, of t]
      I_T_life [OF I, of u]
    by (auto simp add: T_life_def upd)
next
  case L61
  then show ?thesis
    using t u
      I_T_life [OF I, of t]
      I_T_life [OF I, of u]
    by (auto simp add: T_life_def upd)
next
  case (L65hit e0)
  then show ?thesis
    using t u
      I_T_life [OF I, of t]
      I_T_life [OF I, of u]
    by (auto simp add: T_life_def upd)
next
  case L65miss
  then show ?thesis
    using t u
      I_T_life [OF I, of t]
      I_T_life [OF I, of u]
    by (auto simp add: T_life_def upd)
next
  case L66
  then show ?thesis
    using t u
      I_T_life [OF I, of t]
      I_T_life [OF I, of u]
    by (auto simp add: T_life_def upd)
next
  case L69
  then show ?thesis
    using t u
      I_T_life [OF I, of t]
      I_T_life [OF I, of u]
    by (auto simp add: T_life_def upd)
next
  case L70
  then show ?thesis
    using t u
      I_T_life [OF I, of t]
      I_T_life [OF I, of u]
    by (auto simp add: T_life_def upd)
next
  case L71
  then show ?thesis
    using t u
      I_T_life [OF I, of t]
      I_T_life [OF I, of u]
    by (auto simp add: T_life_def upd)
next
  case L74
  then show ?thesis
    using t u
      I_T_life [OF I, of t]
      I_T_life [OF I, of u]
    by (auto simp add: T_life_def upd)
next
  case L77
  then show ?thesis
    using t u
      I_T_life [OF I, of t]
      I_T_life [OF I, of u]
    by (auto simp add: T_life_def upd)
next
  case L78
  then show ?thesis
    using t u
      I_T_life [OF I, of t]
      I_T_life [OF I, of u]
    by (auto simp add: T_life_def upd)
next
  case L79
  then show ?thesis
    using t u
      I_T_life [OF I, of t]
      I_T_life [OF I, of u]
    by (auto simp add: T_life_def upd)
next
  case L81
  then show ?thesis
    using t u
      I_T_life [OF I, of t]
      I_T_life [OF I, of u]
    by (auto simp add: T_life_def upd)
next
  case (L81r v0 er0)
  then show ?thesis
    using t u
      I_T_life [OF I, of t]
      I_T_life [OF I, of u]
    by (auto simp add: T_life_def upd)
next
  case L83err
  then show ?thesis
    using t u
      I_T_life [OF I, of t]
      I_T_life [OF I, of u]
    by (auto simp add: T_life_def upd)
next
  case L83timer
  then show ?thesis
    using t u
      I_T_life [OF I, of t]
      I_T_life [OF I, of u]
    by (auto simp add: T_life_def upd)
next
  case L83
  then show ?thesis
    using t u
      I_T_life [OF I, of t]
      I_T_life [OF I, of u]
    by (auto simp add: T_life_def upd)
next
  case L84
  then show ?thesis
    using t u
      I_T_life [OF I, of t]
      I_T_life [OF I, of u]
    by (auto simp add: T_life_def upd)
next
  case L85
  then show ?thesis
    using t u
      I_T_life [OF I, of t]
      I_T_life [OF I, of u]
    by (auto simp add: T_life_def upd)
next
  case L86
  then show ?thesis
    using t u
      I_T_life [OF I, of t]
      I_T_life [OF I, of u]
    by (auto simp add: T_life_def upd)
next
  case L88
  then show ?thesis
    using t u
      I_T_life [OF I, of t]
      I_T_life [OF I, of u]
    by (auto simp add: T_life_def upd)
next
  case L89
  then show ?thesis
    using t u
      I_T_life [OF I, of t]
      I_T_life [OF I, of u]
    by (auto simp add: T_life_def upd)
next
  case L92
  then show ?thesis
    using t u
      I_T_life [OF I, of t]
      I_T_life [OF I, of u]
    by (auto simp add: T_life_def upd)
next
  case L94
  then show ?thesis
    using t u
      I_T_life [OF I, of t]
      I_T_life [OF I, of u]
    by (auto simp add: T_life_def upd)
next
  case L100
  then show ?thesis
    using t u
      I_T_life [OF I, of t]
      I_T_life [OF I, of u]
    by (auto simp add: T_life_def upd)
next
  case L103
  then show ?thesis
    using t u
      I_T_life [OF I, of t]
      I_T_life [OF I, of u]
    by (auto simp add: T_life_def upd)
next
  case L108
  then show ?thesis
    using t u
      I_T_life [OF I, of t]
      I_T_life [OF I, of u]
    by (auto simp add: T_life_def upd)
next
  case L110miss
  then show ?thesis
    using t u
      I_T_life [OF I, of t]
      I_T_life [OF I, of u]
    by (auto simp add: T_life_def upd)
next
  case (L110hit e0)
  then show ?thesis
    using t u
      I_T_life [OF I, of t]
      I_T_life [OF I, of u]
    by (auto simp add: T_life_def upd)
next
  case L112
  then show ?thesis
    using t u
      I_T_life [OF I, of t]
      I_T_life [OF I, of u]
    by (auto simp add: T_life_def upd)
next
  case L116
  then show ?thesis
    using t u
      I_T_life [OF I, of t]
      I_T_life [OF I, of u]
    by (auto simp add: T_life_def upd)
next
  case L117
  then show ?thesis
    using t u
      I_T_life [OF I, of t]
      I_T_life [OF I, of u]
    by (auto simp add: T_life_def upd)
next
  case L118
  then show ?thesis
    using t u
      I_T_life [OF I, of t]
      I_T_life [OF I, of u]
    by (auto simp add: T_life_def upd)
next
  case L120
  then show ?thesis
    using t u
      I_T_life [OF I, of t]
      I_T_life [OF I, of u]
    by (auto simp add: T_life_def upd)
next
  case L120nil
  then show ?thesis
    using t u
      I_T_life [OF I, of t]
      I_T_life [OF I, of u]
    by (auto simp add: T_life_def upd)
next
  case L121
  then show ?thesis
    using t u
      I_T_life [OF I, of t]
      I_T_life [OF I, of u]
    by (auto simp add: T_life_def upd)
next
  case SelTimer
  then show ?thesis
    using t u
      I_T_life [OF I, of t]
      I_T_life [OF I, of u]
    by (auto simp add: T_life_def upd)
next
  case SelDone
  then show ?thesis
    using t u
      I_T_life [OF I, of t]
      I_T_life [OF I, of u]
    by (auto simp add: T_life_def upd)
qed

lemma T_life_step:
  fixes s :: "('k, 'v::zero) state"
  assumes st: "step a s = Some s'" and I: "inv s" and u: "u < length (threads s')"
  shows "T_life s' u"
  using st
proof (cases rule: step_kinds)
  case (Go c)
  then show ?thesis
    using u
      I_T_life [OF I, of u]
    by (auto simp add: T_life_def upd)
next
  case (Thread t)
  show ?thesis
    by (rule T_life_tstep [OF st Thread I u])
next
  case (Expire e0)
  then show ?thesis
    using u
      I_T_life [OF I, of u]
    by (auto simp add: T_life_def)
qed

lemma P_del_tstep:
  fixes s :: "('k, 'v::zero) state"
  assumes st: "step a s = Some s'" and a: "a = Run t \<or> (\<exists>c. a = Select t c)"
    and t: "t < length (threads s)" and I: "inv s" and u: "u < length (threads s')" and v: "v < length (threads s')"
  shows "P_del s' u v"
  using st a
proof (cases rule: tstep_cases)
  case L51
  then show ?thesis
    using t u v
      I_P_del [OF I, of u v]
    by (auto simp add: P_del_def upd)
next
  case L56nil
  then show ?thesis
    using t u v
      I_P_del [OF I, of u v]
    by (auto simp add: P_del_def upd)
next
  case L56
  then show ?thesis
    using t u v
      I_P_del [OF I, of u v]
    by (auto simp add: P_del_def upd)
next
  case L60
  then show ?thesis
    using t u v
      I_P_del [OF I, of u v]
    by (auto simp add: P_del_def upd)
next
  case L61
  then show ?thesis
    using t u v
      I_P_del [OF I, of u v]
    by (auto simp add: P_del_def upd)
next
  case (L65hit e0)
  then show ?thesis
    using t u v
      I_P_del [OF I, of u v]
    by (auto simp add: P_del_def upd)
next
  case L65miss
  then show ?thesis
    using t u v
      I_P_del [OF I, of u v]
    by (auto simp add: P_del_def upd)
next
  case L66
  then show ?thesis
    using t u v
      I_P_del [OF I, of u v]
    by (auto simp add: P_del_def upd)
next
  case L69
  then show ?thesis
    using t u v
      I_P_del [OF I, of u v]
    by (auto simp add: P_del_def upd)
next
  case L70
  then show ?thesis
    using t u v
      I_P_del [OF I, of u v]
    by (auto simp add: P_del_def upd)
next
  case L71
  then show ?thesis
    using t u v
      I_P_del [OF I, of u v]
    by (auto simp add: P_del_def upd)
next
  case L74
  then show ?thesis
    using t u v
      I_P_del [OF I, of u v]
    by (auto simp add: P_del_def upd)
next
  case L77
  then show ?thesis
    using t u v
      I_P_del [OF I, of u v]
    by (auto simp add: P_del_def upd)
next
  case L78
  then show ?thesis
    using t u v
      I_P_del [OF I, of u v]
    by (auto simp add: P_del_def upd)
next
  case L79
  then show ?thesis
    using t u v
      I_P_del [OF I, of u v]
    by (auto simp add: P_del_def upd)
next
  case L81
  then show ?thesis
    using t u v
      I_P_del [OF I, of u v]
    by (auto simp add: P_del_def upd)
next
  case (L81r v0 er0)
  then show ?thesis
    using t u v
      I_P_del [OF I, of u v]
    by (auto simp add: P_del_def upd)
next
  case L83err
  then show ?thesis
    using t u v
      I_P_del [OF I, of u v]
    by (auto simp add: P_del_def upd)
next
  case L83timer
  then show ?thesis
    using t u v
      I_P_del [OF I, of u v]
    by (auto simp add: P_del_def upd)
next
  case L83
  then show ?thesis
    using t u v
      I_P_del [OF I, of u v]
    by (auto simp add: P_del_def upd)
next
  case L84
  then show ?thesis
    using t u v
      I_P_del [OF I, of u v]
    by (auto simp add: P_del_def upd)
next
  case L85
  then show ?thesis
    using t u v
      I_P_del [OF I, of u v]
    by (auto simp add: P_del_def upd)
next
  case L86
  then show ?thesis
    using t u v
      I_P_del [OF I, of u v]
    by (auto simp add: P_del_def upd)
next
  case L88
  then show ?thesis
    using t u v
      I_P_del [OF I, of u v]
    by (auto simp add: P_del_def upd)
next
  case L89
  then show ?thesis
    using t u v
      I_P_del [OF I, of u v]
    by (auto simp add: P_del_def upd)
next
  case L92
  then show ?thesis
    using t u v
      I_P_del [OF I, of u v]
    by (auto simp add: P_del_def upd)
next
  case L94
  then show ?thesis
    using t u v
      I_P_del [OF I, of u v]
    by (auto simp add: P_del_def upd)
next
  case L100
  then show ?thesis
    using t u v
      I_P_del [OF I, of u v]
    by (auto simp add: P_del_def upd)
next
  case L103
  then show ?thesis
    using t u v
      I_P_del [OF I, of u v]
    by (auto simp add: P_del_def upd)
next
  case L108
  then show ?thesis
    using t u v
      I_P_del [OF I, of u v]
    by (auto simp add: P_del_def upd)
next
  case L110miss
  then show ?thesis
    using t u v
      I_P_del [OF I, of u v]
    by (auto simp add: P_del_def upd)
next
  case (L110hit e0)
  then show ?thesis
    using t u v
      I_P_del [OF I, of u v]
    by (auto simp add: P_del_def upd)
next
  case L112
  then show ?thesis
    using t u v
      I_P_del [OF I, of u v]
    by (auto simp add: P_del_def upd)
next
  case L116
  then show ?thesis
    using t u v
      I_P_del [OF I, of u v]
    by (auto simp add: P_del_def upd)
next
  case L117
  then show ?thesis
    using t u v
      I_P_del [OF I, of u v]
      I_T_din [OF I, of t]
      I_T_dout [OF I, of u]
      I_T_dout [OF I, of v]
    by (auto simp add: P_del_def T_din_def T_dout_def upd)
next
  case L118
  then show ?thesis
    using t u v
      I_P_del [OF I, of u v]
    by (auto simp add: P_del_def upd)
next
  case L120
  then show ?thesis
    using t u v
      I_P_del [OF I, of u v]
    by (auto simp add: P_del_def upd)
next
  case L120nil
  then show ?thesis
    using t u v
      I_P_del [OF I, of u v]
    by (auto simp add: P_del_def upd)
next
  case L121
  then show ?thesis
    using t u v
      I_P_del [OF I, of u v]
    by (auto simp add: P_del_def upd)
next
  case SelTimer
  then show ?thesis
    using t u v
      I_P_del [OF I, of u v]
    by (auto simp add: P_del_def upd)
next
  case SelDone
  then show ?thesis
    using t u v
      I_P_del [OF I, of u v]
    by (auto simp add: P_del_def upd)
qed

lemma P_del_step:
  fixes s :: "('k, 'v::zero) state"
  assumes st: "step a s = Some s'" and I: "inv s" and u: "u < length (threads s')" and v: "v < length (threads s')"
  shows "P_del s' u v"
  using st
proof (cases rule: step_kinds)
  case (Go c)
  then show ?thesis
    using u v
      I_P_del [OF I, of u v]
    by (auto simp add: P_del_def upd)
next
  case (Thread t)
  show ?thesis
    by (rule P_del_tstep [OF st Thread I u v])
next
  case (Expire e0)
  then show ?thesis
    using u v
      I_P_del [OF I, of u v]
    by (auto simp add: P_del_def)
qed

lemma P_obs_tstep:
  fixes s :: "('k, 'v::zero) state"
  assumes st: "step a s = Some s'" and a: "a = Run t \<or> (\<exists>c. a = Select t c)"
    and t: "t < length (threads s)" and I: "inv s" and u: "u < length (threads s')" and v: "v < length (threads s')"
  shows "P_obs s' u v"
  using st a
proof (cases rule: tstep_cases)
  case L51
  then show ?thesis
    using t u v
      I_P_obs [OF I, of u v]
    by (auto simp add: P_obs_def upd)
next
  case L56nil
  then show ?thesis
    using t u v
      I_P_obs [OF I, of u v]
    by (auto simp add: P_obs_def upd)
next
  case L56
  then show ?thesis
    using t u v
      I_P_obs [OF I, of u v]
    by (auto simp add: P_obs_def upd)
next
  case L60
  then show ?thesis
    using t u v
      I_P_obs [OF I, of u v]
    by (auto simp add: P_obs_def upd)
next
  case L61
  then show ?thesis
    using t u v
      I_P_obs [OF I, of u v]
    by (auto simp add: P_obs_def upd)
next
  case (L65hit e0)
  then show ?thesis
    using t u v
      I_P_obs [OF I, of u v]
      I_T_obs [OF I, of t]
    by (auto simp add: P_obs_def T_obs_def upd)
next
  case L65miss
  then show ?thesis
    using t u v
      I_P_obs [OF I, of u v]
    by (auto simp add: P_obs_def upd)
next
  case L66
  then show ?thesis
    using t u v
      I_P_obs [OF I, of u v]
    by (auto simp add: P_obs_def upd)
next
  case L69
  then show ?thesis
    using t u v
      I_P_obs [OF I, of u v]
    by (auto simp add: P_obs_def upd)
next
  case L70
  then show ?thesis
    using t u v
      I_P_obs [OF I, of u v]
    by (auto simp add: P_obs_def upd)
next
  case L71
  then show ?thesis
    using t u v
      I_P_obs [OF I, of u v]
    by (auto simp add: P_obs_def upd)
next
  case L74
  then show ?thesis
    using t u v
      I_P_obs [OF I, of u v]
      I_T_obs [OF I, of t]
    by (auto simp add: P_obs_def T_obs_def upd)
next
  case L77
  then show ?thesis
    using t u v
      I_P_obs [OF I, of u v]
    by (auto simp add: P_obs_def upd)
next
  case L78
  then show ?thesis
    using t u v
      I_P_obs [OF I, of u v]
    by (auto simp add: P_obs_def upd)
next
  case L79
  then show ?thesis
    using t u v
      I_P_obs [OF I, of u v]
    by (auto simp add: P_obs_def upd)
next
  case L81
  then show ?thesis
    using t u v
      I_P_obs [OF I, of u v]
    by (auto simp add: P_obs_def upd)
next
  case (L81r v0 er0)
  then show ?thesis
    using t u v
      I_P_obs [OF I, of u v]
    by (auto simp add: P_obs_def upd)
next
  case L83err
  then show ?thesis
    using t u v
      I_P_obs [OF I, of u v]
    by (auto simp add: P_obs_def upd)
next
  case L83timer
  then show ?thesis
    using t u v
      I_P_obs [OF I, of u v]
    by (auto simp add: P_obs_def upd)
next
  case L83
  then show ?thesis
    using t u v
      I_P_obs [OF I, of u v]
    by (auto simp add: P_obs_def upd)
next
  case L84
  then show ?thesis
    using t u v
      I_P_obs [OF I, of u v]
    by (auto simp add: P_obs_def upd)
next
  case L85
  then show ?thesis
    using t u v
      I_P_obs [OF I, of u v]
    by (auto simp add: P_obs_def upd)
next
  case L86
  then show ?thesis
    using t u v
      I_P_obs [OF I, of u v]
    by (auto simp add: P_obs_def upd)
next
  case L88
  then show ?thesis
    using t u v
      I_P_obs [OF I, of u v]
    by (auto simp add: P_obs_def upd)
next
  case L89
  then show ?thesis
    using t u v
      I_P_obs [OF I, of u v]
      I_T_own [OF I, of t]
      I_T_obs [OF I, of u]
      I_T_obs [OF I, of v]
    by (auto simp add: P_obs_def T_own_def T_obs_def upd)
next
  case L92
  then show ?thesis
    using t u v
      I_P_obs [OF I, of u v]
    by (auto simp add: P_obs_def upd)
next
  case L94
  then show ?thesis
    using t u v
      I_P_obs [OF I, of u v]
    by (auto simp add: P_obs_def upd)
next
  case L100
  then show ?thesis
    using t u v
      I_P_obs [OF I, of u v]
    by (auto simp add: P_obs_def upd)
next
  case L103
  then show ?thesis
    using t u v
      I_P_obs [OF I, of u v]
    by (auto simp add: P_obs_def upd)
next
  case L108
  then show ?thesis
    using t u v
      I_P_obs [OF I, of u v]
    by (auto simp add: P_obs_def upd)
next
  case L110miss
  then show ?thesis
    using t u v
      I_P_obs [OF I, of u v]
    by (auto simp add: P_obs_def upd)
next
  case (L110hit e0)
  then show ?thesis
    using t u v
      I_P_obs [OF I, of u v]
    by (auto simp add: P_obs_def upd)
next
  case L112
  then show ?thesis
    using t u v
      I_P_obs [OF I, of u v]
    by (auto simp add: P_obs_def upd)
next
  case L116
  then show ?thesis
    using t u v
      I_P_obs [OF I, of u v]
    by (auto simp add: P_obs_def upd)
next
  case L117
  then show ?thesis
    using t u v
      I_P_obs [OF I, of u v]
    by (auto simp add: P_obs_def upd)
next
  case L118
  then show ?thesis
    using t u v
      I_P_obs [OF I, of u v]
    by (auto simp add: P_obs_def upd)
next
  case L120
  then show ?thesis
    using t u v
      I_P_obs [OF I, of u v]
    by (auto simp add: P_obs_def upd)
next
  case L120nil
  then show ?thesis
    using t u v
      I_P_obs [OF I, of u v]
    by (auto simp add: P_obs_def upd)
next
  case L121
  then show ?thesis
    using t u v
      I_P_obs [OF I, of u v]
    by (auto simp add: P_obs_def upd)
next
  case SelTimer
  then show ?thesis
    using t u v
      I_P_obs [OF I, of u v]
    by (auto simp add: P_obs_def upd)
next
  case SelDone
  then show ?thesis
    using t u v
      I_P_obs [OF I, of u v]
    by (auto simp add: P_obs_def upd)
qed

lemma P_obs_step:
  fixes s :: "('k, 'v::zero) state"
  assumes st: "step a s = Some s'" and I: "inv s" and u: "u < length (threads s')" and v: "v < length (threads s')"
  shows "P_obs s' u v"
  using st
proof (cases rule: step_kinds)
  case (Go c)
  then show ?thesis
    using u v
      I_P_obs [OF I, of u v]
    by (auto simp add: P_obs_def upd)
next
  case (Thread t)
  show ?thesis
    by (rule P_obs_tstep [OF st Thread I u v])
next
  case (Expire e0)
  then show ?thesis
    using u v
      I_P_obs [OF I, of u v]
    by (auto simp add: P_obs_def)
qed

lemma E_own_tstep:
  fixes s :: "('k, 'v::zero) state"
  assumes st: "step a s = Some s'" and a: "a = Run t \<or> (\<exists>c. a = Select t c)"
    and t: "t < length (threads s)" and I: "inv s" and e: "e < length (heap s')"
  shows "E_own s' e"
  using st a
proof (cases rule: tstep_cases)
  case L51
  then show ?thesis
    using t e
      I_E_own [OF I, of e]
      I_lenC [OF I]
    by (auto simp add: E_own_def upd)
next
  case L56nil
  then show ?thesis
    using t e
      I_E_own [OF I, of e]
      I_lenC [OF I]
    by (auto simp add: E_own_def upd)
next
  case L56
  then show ?thesis
    using t e
      I_E_own [OF I, of e]
      I_lenC [OF I]
    by (auto simp add: E_own_def upd)
next
  case L60
  then show ?thesis
    using t e
      I_E_own [OF I, of e]
      I_lenC [OF I]
    by (auto simp add: E_own_def upd)
next
  case L61
  then show ?thesis
    using t e
      I_E_own [OF I, of e]
      I_lenC [OF I]
    by (auto simp add: E_own_def upd)
next
  case (L65hit e0)
  then show ?thesis
    using t e
      I_E_own [OF I, of e]
      I_lenC [OF I]
    by (auto simp add: E_own_def upd)
next
  case L65miss
  then show ?thesis
    using t e
      I_E_own [OF I, of e]
      I_lenC [OF I]
    by (auto simp add: E_own_def upd)
next
  case L66
  then show ?thesis
    using t e
      I_E_own [OF I, of e]
      I_lenC [OF I]
    by (auto simp add: E_own_def upd)
next
  case L69
  then show ?thesis
    using t e
      I_E_own [OF I, of e]
      I_lenC [OF I]
    by (auto simp add: E_own_def upd)
next
  case L70
  then show ?thesis
    using t e
      I_E_own [OF I, of e]
      I_lenC [OF I]
    by (auto simp add: E_own_def upd)
next
  case L71
  then show ?thesis
    using t e
      I_E_own [OF I, of e]
      I_lenC [OF I]
    by (auto simp add: E_own_def upd)
next
  case L74
  then show ?thesis
    using t e
      I_E_own [OF I, of e]
      I_lenC [OF I]
      I_T_obs [OF I, of t]
    by (auto simp add: E_own_def T_obs_def upd)
next
  case L77
  then show ?thesis
    using t e
      I_E_own [OF I, of e]
      I_lenC [OF I]
    by (auto simp add: E_own_def upd)
next
  case L78
  then show ?thesis
    using t e
      I_E_own [OF I, of e]
      I_lenC [OF I]
    by (auto simp add: E_own_def upd)
next
  case L79
  then show ?thesis
    using t e
      I_E_own [OF I, of e]
      I_lenC [OF I]
    by (auto simp add: E_own_def upd)
next
  case L81
  then show ?thesis
    using t e
      I_E_own [OF I, of e]
      I_lenC [OF I]
    by (auto simp add: E_own_def upd)
next
  case (L81r v0 er0)
  then show ?thesis
    using t e
      I_E_own [OF I, of e]
      I_lenC [OF I]
    by (auto simp add: E_own_def upd)
next
  case L83err
  then show ?thesis
    using t e
      I_E_own [OF I, of e]
      I_lenC [OF I]
    by (auto simp add: E_own_def upd)
next
  case L83timer
  then show ?thesis
    using t e
      I_E_own [OF I, of e]
      I_lenC [OF I]
    by (auto simp add: E_own_def upd)
next
  case L83
  then show ?thesis
    using t e
      I_E_own [OF I, of e]
      I_lenC [OF I]
    by (auto simp add: E_own_def upd)
next
  case L84
  then show ?thesis
    using t e
      I_E_own [OF I, of e]
      I_lenC [OF I]
    by (auto simp add: E_own_def upd)
next
  case L85
  then show ?thesis
    using t e
      I_E_own [OF I, of e]
      I_lenC [OF I]
    by (auto simp add: E_own_def upd)
next
  case L86
  then show ?thesis
    using t e
      I_E_own [OF I, of e]
      I_lenC [OF I]
    by (auto simp add: E_own_def upd)
next
  case L88
  then show ?thesis
    using t e
      I_E_own [OF I, of e]
      I_lenC [OF I]
    by (auto simp add: E_own_def upd)
next
  case L89
  then show ?thesis
    using t e
      I_E_own [OF I, of e]
      I_lenC [OF I]
    by (auto simp add: E_own_def upd)
next
  case L92
  then show ?thesis
    using t e
      I_E_own [OF I, of e]
      I_lenC [OF I]
    by (auto simp add: E_own_def upd)
next
  case L94
  then show ?thesis
    using t e
      I_E_own [OF I, of e]
      I_lenC [OF I]
    by (auto simp add: E_own_def upd)
next
  case L100
  then show ?thesis
    using t e
      I_E_own [OF I, of e]
      I_lenC [OF I]
    by (auto simp add: E_own_def upd)
next
  case L103
  then show ?thesis
    using t e
      I_E_own [OF I, of e]
      I_lenC [OF I]
    by (auto simp add: E_own_def upd)
next
  case L108
  then show ?thesis
    using t e
      I_E_own [OF I, of e]
      I_lenC [OF I]
    by (auto simp add: E_own_def upd)
next
  case L110miss
  then show ?thesis
    using t e
      I_E_own [OF I, of e]
      I_lenC [OF I]
    by (auto simp add: E_own_def upd)
next
  case (L110hit e0)
  then show ?thesis
    using t e
      I_E_own [OF I, of e]
      I_lenC [OF I]
    by (auto simp add: E_own_def upd)
next
  case L112
  then show ?thesis
    using t e
      I_E_own [OF I, of e]
      I_lenC [OF I]
    by (auto simp add: E_own_def upd)
next
  case L116
  then show ?thesis
    using t e
      I_E_own [OF I, of e]
      I_lenC [OF I]
    by (auto simp add: E_own_def upd)
next
  case L117
  then show ?thesis
    using t e
      I_E_own [OF I, of e]
      I_lenC [OF I]
    by (auto simp add: E_own_def upd)
next
  case L118
  then show ?thesis
    using t e
      I_E_own [OF I, of e]
      I_lenC [OF I]
    by (auto simp add: E_own_def upd)
next
  case L120
  then show ?thesis
    using t e
      I_E_own [OF I, of e]
      I_lenC [OF I]
    by (auto simp add: E_own_def upd)
next
  case L120nil
  then show ?thesis
    using t e
      I_E_own [OF I, of e]
      I_lenC [OF I]
    by (auto simp add: E_own_def upd)
next
  case L121
  then show ?thesis
    using t e
      I_E_own [OF I, of e]
      I_lenC [OF I]
    by (auto simp add: E_own_def upd)
next
  case SelTimer
  then show ?thesis
    using t e
      I_E_own [OF I, of e]
      I_lenC [OF I]
    by (auto simp add: E_own_def upd)
next
  case SelDone
  then show ?thesis
    using t e
      I_E_own [OF I, of e]
      I_lenC [OF I]
    by (auto simp add: E_own_def upd)
qed

lemma E_own_step:
  fixes s :: "('k, 'v::zero) state"
  assumes st: "step a s = Some s'" and I: "inv s" and e: "e < length (heap s')"
  shows "E_own s' e"
  using st
proof (cases rule: step_kinds)
  case (Go c)
  then show ?thesis
    using e
      I_E_own [OF I, of e]
      I_lenC [OF I]
    by (auto simp add: E_own_def upd)
next
  case (Thread t)
  show ?thesis
    by (rule E_own_tstep [OF st Thread I e])
next
  case (Expire e0)
  then show ?thesis
    using e
      I_E_own [OF I, of e]
      I_lenC [OF I]
    by (auto simp add: E_own_def)
qed

lemma E_wg_tstep:
  fixes s :: "('k, 'v::zero) state"
  assumes st: "step a s = Some s'" and a: "a = Run t \<or> (\<exists>c. a = Select t c)"
    and t: "t < length (threads s)" and I: "inv s" and e: "e < length (heap s')"
  shows "E_wg s' e"
  using st a
proof (cases rule: tstep_cases)
  case L51
  then show ?thesis
    using t e
      I_E_wg [OF I, of e]
      I_E_own [OF I, of e]
      I_lenC [OF I]
    by (auto simp add: E_wg_def E_own_def upd)
next
  case L56nil
  then show ?thesis
    using t e
      I_E_wg [OF I, of e]
      I_E_own [OF I, of e]
      I_lenC [OF I]
    by (auto simp add: E_wg_def E_own_def upd)
next
  case L56
  then show ?thesis
    using t e
      I_E_wg [OF I, of e]
      I_E_own [OF I, of e]
      I_lenC [OF I]
    by (auto simp add: E_wg_def E_own_def upd)
next
  case L60
  then show ?thesis
    using t e
      I_E_wg [OF I, of e]
      I_E_own [OF I, of e]
      I_lenC [OF I]
    by (auto simp add: E_wg_def E_own_def upd)
next
  case L61
  then show ?thesis
    using t e
      I_E_wg [OF I, of e]
      I_E_own [OF I, of e]
      I_lenC [OF I]
    by (auto simp add: E_wg_def E_own_def upd)
next
  case (L65hit e0)
  then show ?thesis
    using t e
      I_E_wg [OF I, of e]
      I_E_own [OF I, of e]
      I_lenC [OF I]
    by (auto simp add: E_wg_def E_own_def upd)
next
  case L65miss
  then show ?thesis
    using t e
      I_E_wg [OF I, of e]
      I_E_own [OF I, of e]
      I_lenC [OF I]
    by (auto simp add: E_wg_def E_own_def upd)
next
  case L66
  then show ?thesis
    using t e
      I_E_wg [OF I, of e]
      I_E_own [OF I, of e]
      I_lenC [OF I]
    by (auto simp add: E_wg_def E_own_def upd)
next
  case L69
  then show ?thesis
    using t e
      I_E_wg [OF I, of e]
      I_E_own [OF I, of e]
      I_lenC [OF I]
    by (auto simp add: E_wg_def E_own_def upd)
next
  case L70
  then show ?thesis
    using t e
      I_E_wg [OF I, of e]
      I_E_own [OF I, of e]
      I_lenC [OF I]
    by (auto simp add: E_wg_def E_own_def upd)
next
  case L71
  then show ?thesis
    using t e
      I_E_wg [OF I, of e]
      I_E_own [OF I, of e]
      I_lenC [OF I]
    by (auto simp add: E_wg_def E_own_def upd)
next
  case L74
  then show ?thesis
    using t e
      I_E_wg [OF I, of e]
      I_E_own [OF I, of e]
      I_lenC [OF I]
    by (auto simp add: E_wg_def E_own_def new_entity_def upd)
next
  case L77
  then show ?thesis
    using t e
      I_E_wg [OF I, of e]
      I_E_own [OF I, of e]
      I_lenC [OF I]
      I_T_own [OF I, of t]
    by (auto simp add: E_wg_def E_own_def T_own_def upd)
next
  case L78
  then show ?thesis
    using t e
      I_E_wg [OF I, of e]
      I_E_own [OF I, of e]
      I_lenC [OF I]
    by (auto simp add: E_wg_def E_own_def upd)
next
  case L79
  then show ?thesis
    using t e
      I_E_wg [OF I, of e]
      I_E_own [OF I, of e]
      I_lenC [OF I]
    by (auto simp add: E_wg_def E_own_def upd)
next
  case L81
  then show ?thesis
    using t e
      I_E_wg [OF I, of e]
      I_E_own [OF I, of e]
      I_lenC [OF I]
    by (auto simp add: E_wg_def E_own_def upd)
next
  case (L81r v0 er0)
  then show ?thesis
    using t e
      I_E_wg [OF I, of e]
      I_E_own [OF I, of e]
      I_lenC [OF I]
    by (auto simp add: E_wg_def E_own_def upd)
next
  case L83err
  then show ?thesis
    using t e
      I_E_wg [OF I, of e]
      I_E_own [OF I, of e]
      I_lenC [OF I]
    by (auto simp add: E_wg_def E_own_def upd)
next
  case L83timer
  then show ?thesis
    using t e
      I_E_wg [OF I, of e]
      I_E_own [OF I, of e]
      I_lenC [OF I]
    by (auto simp add: E_wg_def E_own_def upd)
next
  case L83
  then show ?thesis
    using t e
      I_E_wg [OF I, of e]
      I_E_own [OF I, of e]
      I_lenC [OF I]
    by (auto simp add: E_wg_def E_own_def upd)
next
  case L84
  then show ?thesis
    using t e
      I_E_wg [OF I, of e]
      I_E_own [OF I, of e]
      I_lenC [OF I]
    by (auto simp add: E_wg_def E_own_def upd)
next
  case L85
  then show ?thesis
    using t e
      I_E_wg [OF I, of e]
      I_E_own [OF I, of e]
      I_lenC [OF I]
    by (auto simp add: E_wg_def E_own_def upd)
next
  case L86
  then show ?thesis
    using t e
      I_E_wg [OF I, of e]
      I_E_own [OF I, of e]
      I_lenC [OF I]
    by (auto simp add: E_wg_def E_own_def upd)
next
  case L88
  then show ?thesis
    using t e
      I_E_wg [OF I, of e]
      I_E_own [OF I, of e]
      I_lenC [OF I]
    by (auto simp add: E_wg_def E_own_def upd)
next
  case L89
  then show ?thesis
    using t e
      I_E_wg [OF I, of e]
      I_E_own [OF I, of e]
      I_lenC [OF I]
    by (auto simp add: E_wg_def E_own_def upd)
next
  case L92
  then show ?thesis
    using t e
      I_E_wg [OF I, of e]
      I_E_own [OF I, of e]
      I_lenC [OF I]
      I_T_own [OF I, of t]
    by (auto simp add: E_wg_def E_own_def T_own_def upd)
next
  case L94
  then show ?thesis
    using t e
      I_E_wg [OF I, of e]
      I_E_own [OF I, of e]
      I_lenC [OF I]
    by (auto simp add: E_wg_def E_own_def upd)
next
  case L100
  then show ?thesis
    using t e
      I_E_wg [OF I, of e]
      I_E_own [OF I, of e]
      I_lenC [OF I]
    by (auto simp add: E_wg_def E_own_def upd)
next
  case L103
  then show ?thesis
    using t e
      I_E_wg [OF I, of e]
      I_E_own [OF I, of e]
      I_lenC [OF I]
    by (auto simp add: E_wg_def E_own_def upd)
next
  case L108
  then show ?thesis
    using t e
      I_E_wg [OF I, of e]
      I_E_own [OF I, of e]
      I_lenC [OF I]
    by (auto simp add: E_wg_def E_own_def upd)
next
  case L110miss
  then show ?thesis
    using t e
      I_E_wg [OF I, of e]
      I_E_own [OF I, of e]
      I_lenC [OF I]
    by (auto simp add: E_wg_def E_own_def upd)
next
  case (L110hit e0)
  then show ?thesis
    using t e
      I_E_wg [OF I, of e]
      I_E_own [OF I, of e]
      I_lenC [OF I]
    by (auto simp add: E_wg_def E_own_def upd)
next
  case L112
  then show ?thesis
    using t e
      I_E_wg [OF I, of e]
      I_E_own [OF I, of e]
      I_lenC [OF I]
    by (auto simp add: E_wg_def E_own_def upd)
next
  case L116
  then show ?thesis
    using t e
      I_E_wg [OF I, of e]
      I_E_own [OF I, of e]
      I_lenC [OF I]
    by (auto simp add: E_wg_def E_own_def upd)
next
  case L117
  then show ?thesis
    using t e
      I_E_wg [OF I, of e]
      I_E_own [OF I, of e]
      I_lenC [OF I]
    by (auto simp add: E_wg_def E_own_def upd)
next
  case L118
  then show ?thesis
    using t e
      I_E_wg [OF I, of e]
      I_E_own [OF I, of e]
      I_lenC [OF I]
    by (auto simp add: E_wg_def E_own_def upd)
next
  case L120
  then show ?thesis
    using t e
      I_E_wg [OF I, of e]
      I_E_own [OF I, of e]
      I_lenC [OF I]
    by (auto simp add: E_wg_def E_own_def upd)
next
  case L120nil
  then show ?thesis
    using t e
      I_E_wg [OF I, of e]
      I_E_own [OF I, of e]
      I_lenC [OF I]
    by (auto simp add: E_wg_def E_own_def upd)
next
  case L121
  then show ?thesis
    using t e
      I_E_wg [OF I, of e]
      I_E_own [OF I, of e]
      I_lenC [OF I]
    by (auto simp add: E_wg_def E_own_def upd)
next
  case SelTimer
  then show ?thesis
    using t e
      I_E_wg [OF I, of e]
      I_E_own [OF I, of e]
      I_lenC [OF I]
    by (auto simp add: E_wg_def E_own_def upd)
next
  case SelDone
  then show ?thesis
    using t e
      I_E_wg [OF I, of e]
      I_E_own [OF I, of e]
      I_lenC [OF I]
    by (auto simp add: E_wg_def E_own_def upd)
qed

lemma E_wg_step:
  fixes s :: "('k, 'v::zero) state"
  assumes st: "step a s = Some s'" and I: "inv s" and e: "e < length (heap s')"
  shows "E_wg s' e"
  using st
proof (cases rule: step_kinds)
  case (Go c)
  then show ?thesis
    using e
      I_E_wg [OF I, of e]
      I_E_own [OF I, of e]
      I_lenC [OF I]
    by (auto simp add: E_wg_def E_own_def upd)
next
  case (Thread t)
  show ?thesis
    by (rule E_wg_tstep [OF st Thread I e])
next
  case (Expire e0)
  then show ?thesis
    using e
      I_E_wg [OF I, of e]
      I_E_own [OF I, of e]
      I_lenC [OF I]
    by (auto simp add: E_wg_def E_own_def)
qed

lemma E_unw_tstep:
  fixes s :: "('k, 'v::zero) state"
  assumes st: "step a s = Some s'" and a: "a = Run t \<or> (\<exists>c. a = Select t c)"
    and t: "t < length (threads s)" and I: "inv s" and e: "e < length (heap s')"
  shows "E_unw s' e"
  using st a
proof (cases rule: tstep_cases)
  case L51
  then show ?thesis
    using t e
      I_E_unw [OF I, of e]
      I_E_own [OF I, of e]
      I_lenC [OF I]
    by (auto simp add: E_unw_def E_own_def upd)
next
  case L56nil
  then show ?thesis
    using t e
      I_E_unw [OF I, of e]
      I_E_own [OF I, of e]
      I_lenC [OF I]
    by (auto simp add: E_unw_def E_own_def upd)
next
  case L56
  then show ?thesis
    using t e
      I_E_unw [OF I, of e]
      I_E_own [OF I, of e]
      I_lenC [OF I]
    by (auto simp add: E_unw_def E_own_def upd)
next
  case L60
  then show ?thesis
    using t e
      I_E_unw [OF I, of e]
      I_E_own [OF I, of e]
      I_lenC [OF I]
    by (auto simp add: E_unw_def E_own_def upd)
next
  case L61
  then show ?thesis
    using t e
      I_E_unw [OF I, of e]
      I_E_own [OF I, of e]
      I_lenC [OF I]
    by (auto simp add: E_unw_def E_own_def upd)
next
  case (L65hit e0)
  then show ?thesis
    using t e
      I_E_unw [OF I, of e]
      I_E_own [OF I, of e]
      I_lenC [OF I]
    by (auto simp add: E_unw_def E_own_def upd)
next
  case L65miss
  then show ?thesis
    using t e
      I_E_unw [OF I, of e]
      I_E_own [OF I, of e]
      I_lenC [OF I]
    by (auto simp add: E_unw_def E_own_def upd)
next
  case L66
  then show ?thesis
    using t e
      I_E_unw [OF I, of e]
      I_E_own [OF I, of e]
      I_lenC [OF I]
    by (auto simp add: E_unw_def E_own_def upd)
next
  case L69
  then show ?thesis
    using t e
      I_E_unw [OF I, of e]
      I_E_own [OF I, of e]
      I_lenC [OF I]
    by (auto simp add: E_unw_def E_own_def upd)
next
  case L70
  then show ?thesis
    using t e
      I_E_unw [OF I, of e]
      I_E_own [OF I, of e]
      I_lenC [OF I]
    by (auto simp add: E_unw_def E_own_def upd)
next
  case L71
  then show ?thesis
    using t e
      I_E_unw [OF I, of e]
      I_E_own [OF I, of e]
      I_lenC [OF I]
    by (auto simp add: E_unw_def E_own_def upd)
next
  case L74
  then show ?thesis
    using t e
      I_E_unw [OF I, of e]
      I_E_own [OF I, of e]
      I_lenC [OF I]
    by (auto simp add: E_unw_def E_own_def new_entity_def upd)
next
  case L77
  then show ?thesis
    using t e
      I_E_unw [OF I, of e]
      I_E_own [OF I, of e]
      I_lenC [OF I]
    by (auto simp add: E_unw_def E_own_def upd)
next
  case L78
  then show ?thesis
    using t e
      I_E_unw [OF I, of e]
      I_E_own [OF I, of e]
      I_lenC [OF I]
    by (auto simp add: E_unw_def E_own_def upd)
next
  case L79
  then show ?thesis
    using t e
      I_E_unw [OF I, of e]
      I_E_own [OF I, of e]
      I_lenC [OF I]
    by (auto simp add: E_unw_def E_own_def upd)
next
  case L81
  then show ?thesis
    using t e
      I_E_unw [OF I, of e]
      I_E_own [OF I, of e]
      I_lenC [OF I]
    by (auto simp add: E_unw_def E_own_def upd)
next
  case (L81r v0 er0)
  then show ?thesis
    using t e
      I_E_unw [OF I, of e]
      I_E_own [OF I, of e]
      I_lenC [OF I]
      I_T_own [OF I, of t]
    by (auto simp add: E_unw_def E_own_def T_own_def upd)
next
  case L83err
  then show ?thesis
    using t e
      I_E_unw [OF I, of e]
      I_E_own [OF I, of e]
      I_lenC [OF I]
    by (auto simp add: E_unw_def E_own_def upd)
next
  case L83timer
  then show ?thesis
    using t e
      I_E_unw [OF I, of e]
      I_E_own [OF I, of e]
      I_lenC [OF I]
    by (auto simp add: E_unw_def E_own_def upd)
next
  case L83
  then show ?thesis
    using t e
      I_E_unw [OF I, of e]
      I_E_own [OF I, of e]
      I_lenC [OF I]
    by (auto simp add: E_unw_def E_own_def upd)
next
  case L84
  then show ?thesis
    using t e
      I_E_unw [OF I, of e]
      I_E_own [OF I, of e]
      I_lenC [OF I]
    by (auto simp add: E_unw_def E_own_def upd)
next
  case L85
  then show ?thesis
    using t e
      I_E_unw [OF I, of e]
      I_E_own [OF I, of e]
      I_lenC [OF I]
    by (auto simp add: E_unw_def E_own_def upd)
next
  case L86
  then show ?thesis
    using t e
      I_E_unw [OF I, of e]
      I_E_own [OF I, of e]
      I_lenC [OF I]
    by (auto simp add: E_unw_def E_own_def upd)
next
  case L88
  then show ?thesis
    using t e
      I_E_unw [OF I, of e]
      I_E_own [OF I, of e]
      I_lenC [OF I]
    by (auto simp add: E_unw_def E_own_def upd)
next
  case L89
  then show ?thesis
    using t e
      I_E_unw [OF I, of e]
      I_E_own [OF I, of e]
      I_lenC [OF I]
    by (auto simp add: E_unw_def E_own_def upd)
next
  case L92
  then show ?thesis
    using t e
      I_E_unw [OF I, of e]
      I_E_own [OF I, of e]
      I_lenC [OF I]
    by (auto simp add: E_unw_def E_own_def upd)
next
  case L94
  then show ?thesis
    using t e
      I_E_unw [OF I, of e]
      I_E_own [OF I, of e]
      I_lenC [OF I]
    by (auto simp add: E_unw_def E_own_def upd)
next
  case L100
  then show ?thesis
    using t e
      I_E_unw [OF I, of e]
      I_E_own [OF I, of e]
      I_lenC [OF I]
    by (auto simp add: E_unw_def E_own_def upd)
next
  case L103
  then show ?thesis
    using t e
      I_E_unw [OF I, of e]
      I_E_own [OF I, of e]
      I_lenC [OF I]
    by (auto simp add: E_unw_def E_own_def upd)
next
  case L108
  then show ?thesis
    using t e
      I_E_unw [OF I, of e]
      I_E_own [OF I, of e]
      I_lenC [OF I]
    by (auto simp add: E_unw_def E_own_def upd)
next
  case L110miss
  then show ?thesis
    using t e
      I_E_unw [OF I, of e]
      I_E_own [OF I, of e]
      I_lenC [OF I]
    by (auto simp add: E_unw_def E_own_def upd)
next
  case (L110hit e0)
  then show ?thesis
    using t e
      I_E_unw [OF I, of e]
      I_E_own [OF I, of e]
      I_lenC [OF I]
    by (auto simp add: E_unw_def E_own_def upd)
next
  case L112
  then show ?thesis
    using t e
      I_E_unw [OF I, of e]
      I_E_own [OF I, of e]
      I_lenC [OF I]
    by (auto simp add: E_unw_def E_own_def upd)
next
  case L116
  then show ?thesis
    using t e
      I_E_unw [OF I, of e]
      I_E_own [OF I, of e]
      I_lenC [OF I]
    by (auto simp add: E_unw_def E_own_def upd)
next
  case L117
  then show ?thesis
    using t e
      I_E_unw [OF I, of e]
      I_E_own [OF I, of e]
      I_lenC [OF I]
    by (auto simp add: E_unw_def E_own_def upd)
next
  case L118
  then show ?thesis
    using t e
      I_E_unw [OF I, of e]
      I_E_own [OF I, of e]
      I_lenC [OF I]
    by (auto simp add: E_unw_def E_own_def upd)
next
  case L120
  then show ?thesis
    using t e
      I_E_unw [OF I, of e]
      I_E_own [OF I, of e]
      I_lenC [OF I]
    by (auto simp add: E_unw_def E_own_def upd)
next
  case L120nil
  then show ?thesis
    using t e
      I_E_unw [OF I, of e]
      I_E_own [OF I, of e]
      I_lenC [OF I]
    by (auto simp add: E_unw_def E_own_def upd)
next
  case L121
  then show ?thesis
    using t e
      I_E_unw [OF I, of e]
      I_E_own [OF I, of e]
      I_lenC [OF I]
    by (auto simp add: E_unw_def E_own_def upd)
next
  case SelTimer
  then show ?thesis
    using t e
      I_E_unw [OF I, of e]
      I_E_own [OF I, of e]
      I_lenC [OF I]
    by (auto simp add: E_unw_def E_own_def upd)
next
  case SelDone
  then show ?thesis
    using t e
      I_E_unw [OF I, of e]
      I_E_own [OF I, of e]
      I_lenC [OF I]
    by (auto simp add: E_unw_def E_own_def upd)
qed

lemma E_unw_step:
  fixes s :: "('k, 'v::zero) state"
  assumes st: "step a s = Some s'" and I: "inv s" and e: "e < length (heap s')"
  shows "E_unw s' e"
  using st
proof (cases rule: step_kinds)
  case (Go c)
  then show ?thesis
    using e
      I_E_unw [OF I, of e]
      I_E_own [OF I, of e]
      I_lenC [OF I]
    by (auto simp add: E_unw_def E_own_def upd)
next
  case (Thread t)
  show ?thesis
    by (rule E_unw_tstep [OF st Thread I e])
next
  case (Expire e0)
  then show ?thesis
    using e
      I_E_unw [OF I, of e]
      I_E_own [OF I, of e]
      I_lenC [OF I]
    by (auto simp add: E_unw_def E_own_def)
qed

lemma E_wr_tstep:
  fixes s :: "('k, 'v::zero) state"
  assumes st: "step a s = Some s'" and a: "a = Run t \<or> (\<exists>c. a = Select t c)"
    and t: "t < length (threads s)" and I: "inv s" and e: "e < length (heap s')"
  shows "E_wr s' e"
  using st a
proof (cases rule: tstep_cases)
  case L51
  then show ?thesis
    using t e
      I_E_wr [OF I, of e]
      I_E_own [OF I, of e]
      I_lenC [OF I]
    by (auto simp add: E_wr_def E_own_def upd)
next
  case L56nil
  then show ?thesis
    using t e
      I_E_wr [OF I, of e]
      I_E_own [OF I, of e]
      I_lenC [OF I]
    by (auto simp add: E_wr_def E_own_def upd)
next
  case L56
  then show ?thesis
    using t e
      I_E_wr [OF I, of e]
      I_E_own [OF I, of e]
      I_lenC [OF I]
    by (auto simp add: E_wr_def E_own_def upd)
next
  case L60
  then show ?thesis
    using t e
      I_E_wr [OF I, of e]
      I_E_own [OF I, of e]
      I_lenC [OF I]
    by (auto simp add: E_wr_def E_own_def upd)
next
  case L61
  then show ?thesis
    using t e
      I_E_wr [OF I, of e]
      I_E_own [OF I, of e]
      I_lenC [OF I]
    by (auto simp add: E_wr_def E_own_def upd)
next
  case (L65hit e0)
  then show ?thesis
    using t e
      I_E_wr [OF I, of e]
      I_E_own [OF I, of e]
      I_lenC [OF I]
    by (auto simp add: E_wr_def E_own_def upd)
next
  case L65miss
  then show ?thesis
    using t e
      I_E_wr [OF I, of e]
      I_E_own [OF I, of e]
      I_lenC [OF I]
    by (auto simp add: E_wr_def E_own_def upd)
next
  case L66
  then show ?thesis
    using t e
      I_E_wr [OF I, of e]
      I_E_own [OF I, of e]
      I_lenC [OF I]
    by (auto simp add: E_wr_def E_own_def upd)
next
  case L69
  then show ?thesis
    using t e
      I_E_wr [OF I, of e]
      I_E_own [OF I, of e]
      I_lenC [OF I]
    by (auto simp add: E_wr_def E_own_def upd)
next
  case L70
  then show ?thesis
    using t e
      I_E_wr [OF I, of e]
      I_E_own [OF I, of e]
      I_lenC [OF I]
    by (auto simp add: E_wr_def E_own_def upd)
next
  case L71
  then show ?thesis
    using t e
      I_E_wr [OF I, of e]
      I_E_own [OF I, of e]
      I_lenC [OF I]
    by (auto simp add: E_wr_def E_own_def upd)
next
  case L74
  then show ?thesis
    using t e
      I_E_wr [OF I, of e]
      I_E_own [OF I, of e]
      I_lenC [OF I]
    by (auto simp add: E_wr_def E_own_def upd)
next
  case L77
  then show ?thesis
    using t e
      I_E_wr [OF I, of e]
      I_E_own [OF I, of e]
      I_lenC [OF I]
    by (auto simp add: E_wr_def E_own_def upd)
next
  case L78
  then show ?thesis
    using t e
      I_E_wr [OF I, of e]
      I_E_own [OF I, of e]
      I_lenC [OF I]
    by (auto simp add: E_wr_def E_own_def upd)
next
  case L79
  then show ?thesis
    using t e
      I_E_wr [OF I, of e]
      I_E_own [OF I, of e]
      I_lenC [OF I]
    by (auto simp add: E_wr_def E_own_def upd)
next
  case L81
  then show ?thesis
    using t e
      I_E_wr [OF I, of e]
      I_E_own [OF I, of e]
      I_lenC [OF I]
    by (auto simp add: E_wr_def E_own_def upd)
next
  case (L81r v0 er0)
  then show ?thesis
    using t e
      I_E_wr [OF I, of e]
      I_E_own [OF I, of e]
      I_lenC [OF I]
      I_T_own [OF I, of t]
    by (auto simp add: E_wr_def E_own_def T_own_def upd)
next
  case L83err
  then show ?thesis
    using t e
      I_E_wr [OF I, of e]
      I_E_own [OF I, of e]
      I_lenC [OF I]
    by (auto simp add: E_wr_def E_own_def upd)
next
  case L83timer
  then show ?thesis
    using t e
      I_E_wr [OF I, of e]
      I_E_own [OF I, of e]
      I_lenC [OF I]
    by (auto simp add: E_wr_def E_own_def upd)
next
  case L83
  then show ?thesis
    using t e
      I_E_wr [OF I, of e]
      I_E_own [OF I, of e]
      I_lenC [OF I]
    by (auto simp add: E_wr_def E_own_def upd)
next
  case L84
  then show ?thesis
    using t e
      I_E_wr [OF I, of e]
      I_E_own [OF I, of e]
      I_lenC [OF I]
    by (auto simp add: E_wr_def E_own_def upd)
next
  case L85
  then show ?thesis
    using t e
      I_E_wr [OF I, of e]
      I_E_own [OF I, of e]
      I_lenC [OF I]
    by (auto simp add: E_wr_def E_own_def upd)
next
  case L86
  then show ?thesis
    using t e
      I_E_wr [OF I, of e]
      I_E_own [OF I, of e]
      I_lenC [OF I]
    by (auto simp add: E_wr_def E_own_def upd)
next
  case L88
  then show ?thesis
    using t e
      I_E_wr [OF I, of e]
      I_E_own [OF I, of e]
      I_lenC [OF I]
    by (auto simp add: E_wr_def E_own_def upd)
next
  case L89
  then show ?thesis
    using t e
      I_E_wr [OF I, of e]
      I_E_own [OF I, of e]
      I_lenC [OF I]
    by (auto simp add: E_wr_def E_own_def upd)
next
  case L92
  then show ?thesis
    using t e
      I_E_wr [OF I, of e]
      I_E_own [OF I, of e]
      I_lenC [OF I]
    by (auto simp add: E_wr_def E_own_def upd)
next
  case L94
  then show ?thesis
    using t e
      I_E_wr [OF I, of e]
      I_E_own [OF I, of e]
      I_lenC [OF I]
    by (auto simp add: E_wr_def E_own_def upd)
next
  case L100
  then show ?thesis
    using t e
      I_E_wr [OF I, of e]
      I_E_own [OF I, of e]
      I_lenC [OF I]
    by (auto simp add: E_wr_def E_own_def upd)
next
  case L103
  then show ?thesis
    using t e
      I_E_wr [OF I, of e]
      I_E_own [OF I, of e]
      I_lenC [OF I]
    by (auto simp add: E_wr_def E_own_def upd)
next
  case L108
  then show ?thesis
    using t e
      I_E_wr [OF I, of e]
      I_E_own [OF I, of e]
      I_lenC [OF I]
    by (auto simp add: E_wr_def E_own_def upd)
next
  case L110miss
  then show ?thesis
    using t e
      I_E_wr [OF I, of e]
      I_E_own [OF I, of e]
      I_lenC [OF I]
    by (auto simp add: E_wr_def E_own_def upd)
next
  case (L110hit e0)
  then show ?thesis
    using t e
      I_E_wr [OF I, of e]
      I_E_own [OF I, of e]
      I_lenC [OF I]
    by (auto simp add: E_wr_def E_own_def upd)
next
  case L112
  then show ?thesis
    using t e
      I_E_wr [OF I, of e]
      I_E_own [OF I, of e]
      I_lenC [OF I]
    by (auto simp add: E_wr_def E_own_def upd)
next
  case L116
  then show ?thesis
    using t e
      I_E_wr [OF I, of e]
      I_E_own [OF I, of e]
      I_lenC [OF I]
    by (auto simp add: E_wr_def E_own_def upd)
next
  case L117
  then show ?thesis
    using t e
      I_E_wr [OF I, of e]
      I_E_own [OF I, of e]
      I_lenC [OF I]
    by (auto simp add: E_wr_def E_own_def upd)
next
  case L118
  then show ?thesis
    using t e
      I_E_wr [OF I, of e]
      I_E_own [OF I, of e]
      I_lenC [OF I]
    by (auto simp add: E_wr_def E_own_def upd)
next
  case L120
  then show ?thesis
    using t e
      I_E_wr [OF I, of e]
      I_E_own [OF I, of e]
      I_lenC [OF I]
    by (auto simp add: E_wr_def E_own_def upd)
next
  case L120nil
  then show ?thesis
    using t e
      I_E_wr [OF I, of e]
      I_E_own [OF I, of e]
      I_lenC [OF I]
    by (auto simp add: E_wr_def E_own_def upd)
next
  case L121
  then show ?thesis
    using t e
      I_E_wr [OF I, of e]
      I_E_own [OF I, of e]
      I_lenC [OF I]
    by (auto simp add: E_wr_def E_own_def upd)
next
  case SelTimer
  then show ?thesis
    using t e
      I_E_wr [OF I, of e]
      I_E_own [OF I, of e]
      I_lenC [OF I]
    by (auto simp add: E_wr_def E_own_def upd)
next
  case SelDone
  then show ?thesis
    using t e
      I_E_wr [OF I, of e]
      I_E_own [OF I, of e]
      I_lenC [OF I]
    by (auto simp add: E_wr_def E_own_def upd)
qed

lemma E_wr_step:
  fixes s :: "('k, 'v::zero) state"
  assumes st: "step a s = Some s'" and I: "inv s" and e: "e < length (heap s')"
  shows "E_wr s' e"
  using st
proof (cases rule: step_kinds)
  case (Go c)
  then show ?thesis
    using e
      I_E_wr [OF I, of e]
      I_E_own [OF I, of e]
      I_lenC [OF I]
    by (auto simp add: E_wr_def E_own_def upd)
next
  case (Thread t)
  show ?thesis
    by (rule E_wr_tstep [OF st Thread I e])
next
  case (Expire e0)
  then show ?thesis
    using e
      I_E_wr [OF I, of e]
      I_E_own [OF I, of e]
      I_lenC [OF I]
    by (auto simp add: E_wr_def E_own_def)
qed

lemma E_fail_tstep:
  fixes s :: "('k, 'v::zero) state"
  assumes st: "step a s = Some s'" and a: "a = Run t \<or> (\<exists>c. a = Select t c)"
    and t: "t < length (threads s)" and I: "inv s" and e: "e < length (heap s')"
  shows "E_fail s' e"
  using st a
proof (cases rule: tstep_cases)
  case L51
  then show ?thesis
    using t e
      I_E_fail [OF I, of e]
      I_E_own [OF I, of e]
      I_lenC [OF I]
    by (auto simp add: E_fail_def E_own_def upd)
next
  case L56nil
  then show ?thesis
    using t e
      I_E_fail [OF I, of e]
      I_E_own [OF I, of e]
      I_lenC [OF I]
    by (auto simp add: E_fail_def E_own_def upd)
next
  case L56
  then show ?thesis
    using t e
      I_E_fail [OF I, of e]
      I_E_own [OF I, of e]
      I_lenC [OF I]
    by (auto simp add: E_fail_def E_own_def upd)
next
  case L60
  then show ?thesis
    using t e
      I_E_fail [OF I, of e]
      I_E_own [OF I, of e]
      I_lenC [OF I]
    by (auto simp add: E_fail_def E_own_def upd)
next
  case L61
  then show ?thesis
    using t e
      I_E_fail [OF I, of e]
      I_E_own [OF I, of e]
      I_lenC [OF I]
    by (auto simp add: E_fail_def E_own_def upd)
next
  case (L65hit e0)
  then show ?thesis
    using t e
      I_E_fail [OF I, of e]
      I_E_own [OF I, of e]
      I_lenC [OF I]
    by (auto simp add: E_fail_def E_own_def upd)
next
  case L65miss
  then show ?thesis
    using t e
      I_E_fail [OF I, of e]
      I_E_own [OF I, of e]
      I_lenC [OF I]
    by (auto simp add: E_fail_def E_own_def upd)
next
  case L66
  then show ?thesis
    using t e
      I_E_fail [OF I, of e]
      I_E_own [OF I, of e]
      I_lenC [OF I]
    by (auto simp add: E_fail_def E_own_def upd)
next
  case L69
  then show ?thesis
    using t e
      I_E_fail [OF I, of e]
      I_E_own [OF I, of e]
      I_lenC [OF I]
    by (auto simp add: E_fail_def E_own_def upd)
next
  case L70
  then show ?thesis
    using t e
      I_E_fail [OF I, of e]
      I_E_own [OF I, of e]
      I_lenC [OF I]
    by (auto simp add: E_fail_def E_own_def upd)
next
  case L71
  then show ?thesis
    using t e
      I_E_fail [OF I, of e]
      I_E_own [OF I, of e]
      I_lenC [OF I]
    by (auto simp add: E_fail_def E_own_def upd)
next
  case L74
  then show ?thesis
    using t e
      I_E_fail [OF I, of e]
      I_E_own [OF I, of e]
      I_lenC [OF I]
    by (auto simp add: E_fail_def E_own_def upd)
next
  case L77
  then show ?thesis
    using t e
      I_E_fail [OF I, of e]
      I_E_own [OF I, of e]
      I_lenC [OF I]
    by (auto simp add: E_fail_def E_own_def upd)
next
  case L78
  then show ?thesis
    using t e
      I_E_fail [OF I, of e]
      I_E_own [OF I, of e]
      I_lenC [OF I]
    by (auto simp add: E_fail_def E_own_def upd)
next
  case L79
  then show ?thesis
    using t e
      I_E_fail [OF I, of e]
      I_E_own [OF I, of e]
      I_lenC [OF I]
    by (auto simp add: E_fail_def E_own_def upd)
next
  case L81
  then show ?thesis
    using t e
      I_E_fail [OF I, of e]
      I_E_own [OF I, of e]
      I_lenC [OF I]
    by (auto simp add: E_fail_def E_own_def upd)
next
  case (L81r v0 er0)
  then show ?thesis
    using t e
      I_E_fail [OF I, of e]
      I_E_own [OF I, of e]
      I_lenC [OF I]
      I_T_own [OF I, of t]
    by (auto simp add: E_fail_def E_own_def T_own_def upd)
next
  case L83err
  then show ?thesis
    using t e
      I_E_fail [OF I, of e]
      I_E_own [OF I, of e]
      I_lenC [OF I]
    by (auto simp add: E_fail_def E_own_def upd)
next
  case L83timer
  then show ?thesis
    using t e
      I_E_fail [OF I, of e]
      I_E_own [OF I, of e]
      I_lenC [OF I]
    by (auto simp add: E_fail_def E_own_def upd)
next
  case L83
  then show ?thesis
    using t e
      I_E_fail [OF I, of e]
      I_E_own [OF I, of e]
      I_lenC [OF I]
    by (auto simp add: E_fail_def E_own_def upd)
next
  case L84
  then show ?thesis
    using t e
      I_E_fail [OF I, of e]
      I_E_own [OF I, of e]
      I_lenC [OF I]
    by (auto simp add: E_fail_def E_own_def upd)
next
  case L85
  then show ?thesis
    using t e
      I_E_fail [OF I, of e]
      I_E_own [OF I, of e]
      I_lenC [OF I]
    by (auto simp add: E_fail_def E_own_def upd)
next
  case L86
  then show ?thesis
    using t e
      I_E_fail [OF I, of e]
      I_E_own [OF I, of e]
      I_lenC [OF I]
    by (auto simp add: E_fail_def E_own_def upd)
next
  case L88
  then show ?thesis
    using t e
      I_E_fail [OF I, of e]
      I_E_own [OF I, of e]
      I_lenC [OF I]
    by (auto simp add: E_fail_def E_own_def upd)
next
  case L89
  then show ?thesis
    using t e
      I_E_fail [OF I, of e]
      I_E_own [OF I, of e]
      I_lenC [OF I]
    by (auto simp add: E_fail_def E_own_def upd)
next
  case L92
  then show ?thesis
    using t e
      I_E_fail [OF I, of e]
      I_E_own [OF I, of e]
      I_lenC [OF I]
    by (auto simp add: E_fail_def E_own_def upd)
next
  case L94
  then show ?thesis
    using t e
      I_E_fail [OF I, of e]
      I_E_own [OF I, of e]
      I_lenC [OF I]
    by (auto simp add: E_fail_def E_own_def upd)
next
  case L100
  then show ?thesis
    using t e
      I_E_fail [OF I, of e]
      I_E_own [OF I, of e]
      I_lenC [OF I]
    by (auto simp add: E_fail_def E_own_def upd)
next
  case L103
  then show ?thesis
    using t e
      I_E_fail [OF I, of e]
      I_E_own [OF I, of e]
      I_lenC [OF I]
    by (auto simp add: E_fail_def E_own_def upd)
next
  case L108
  then show ?thesis
    using t e
      I_E_fail [OF I, of e]
      I_E_own [OF I, of e]
      I_lenC [OF I]
    by (auto simp add: E_fail_def E_own_def upd)
next
  case L110miss
  then show ?thesis
    using t e
      I_E_fail [OF I, of e]
      I_E_own [OF I, of e]
      I_lenC [OF I]
    by (auto simp add: E_fail_def E_own_def upd)
next
  case (L110hit e0)
  then show ?thesis
    using t e
      I_E_fail [OF I, of e]
      I_E_own [OF I, of e]
      I_lenC [OF I]
    by (auto simp add: E_fail_def E_own_def upd)
next
  case L112
  then show ?thesis
    using t e
      I_E_fail [OF I, of e]
      I_E_own [OF I, of e]
      I_lenC [OF I]
    by (auto simp add: E_fail_def E_own_def upd)
next
  case L116
  then show ?thesis
    using t e
      I_E_fail [OF I, of e]
      I_E_own [OF I, of e]
      I_lenC [OF I]
    by (auto simp add: E_fail_def E_own_def upd)
next
  case L117
  then show ?thesis
    using t e
      I_E_fail [OF I, of e]
      I_E_own [OF I, of e]
      I_lenC [OF I]
    by (auto simp add: E_fail_def E_own_def upd)
next
  case L118
  then show ?thesis
    using t e
      I_E_fail [OF I, of e]
      I_E_own [OF I, of e]
      I_lenC [OF I]
    by (auto simp add: E_fail_def E_own_def upd)
next
  case L120
  then show ?thesis
    using t e
      I_E_fail [OF I, of e]
      I_E_own [OF I, of e]
      I_lenC [OF I]
    by (auto simp add: E_fail_def E_own_def upd)
next
  case L120nil
  then show ?thesis
    using t e
      I_E_fail [OF I, of e]
      I_E_own [OF I, of e]
      I_lenC [OF I]
    by (auto simp add: E_fail_def E_own_def upd)
next
  case L121
  then show ?thesis
    using t e
      I_E_fail [OF I, of e]
      I_E_own [OF I, of e]
      I_lenC [OF I]
    by (auto simp add: E_fail_def E_own_def upd)
next
  case SelTimer
  then show ?thesis
    using t e
      I_E_fail [OF I, of e]
      I_E_own [OF I, of e]
      I_lenC [OF I]
    by (auto simp add: E_fail_def E_own_def upd)
next
  case SelDone
  then show ?thesis
    using t e
      I_E_fail [OF I, of e]
      I_E_own [OF I, of e]
      I_lenC [OF I]
    by (auto simp add: E_fail_def E_own_def upd)
qed

lemma E_fail_step:
  fixes s :: "('k, 'v::zero) state"
  assumes st: "step a s = Some s'" and I: "inv s" and e: "e < length (heap s')"
  shows "E_fail s' e"
  using st
proof (cases rule: step_kinds)
  case (Go c)
  then show ?thesis
    using e
      I_E_fail [OF I, of e]
      I_E_own [OF I, of e]
      I_lenC [OF I]
    by (auto simp add: E_fail_def E_own_def upd)
next
  case (Thread t)
  show ?thesis
    by (rule E_fail_tstep [OF st Thread I e])
next
  case (Expire e0)
  then show ?thesis
    using e
      I_E_fail [OF I, of e]
      I_E_own [OF I, of e]
      I_lenC [OF I]
    by (auto simp add: E_fail_def E_own_def)
qed

lemma E_notimer_tstep:
  fixes s :: "('k, 'v::zero) state"
  assumes st: "step a s = Some s'" and a: "a = Run t \<or> (\<exists>c. a = Select t c)"
    and t: "t < length (threads s)" and I: "inv s" and e: "e < length (heap s')"
  shows "E_notimer s' e"
  using st a
proof (cases rule: tstep_cases)
  case L51
  then show ?thesis
    using t e
      I_E_notimer [OF I, of e]
      I_E_own [OF I, of e]
      I_lenC [OF I]
    by (auto simp add: E_notimer_def E_own_def upd)
next
  case L56nil
  then show ?thesis
    using t e
      I_E_notimer [OF I, of e]
      I_E_own [OF I, of e]
      I_lenC [OF I]
    by (auto simp add: E_notimer_def E_own_def upd)
next
  case L56
  then show ?thesis
    using t e
      I_E_notimer [OF I, of e]
      I_E_own [OF I, of e]
      I_lenC [OF I]
    by (auto simp add: E_notimer_def E_own_def upd)
next
  case L60
  then show ?thesis
    using t e
      I_E_notimer [OF I, of e]
      I_E_own [OF I, of e]
      I_lenC [OF I]
    by (auto simp add: E_notimer_def E_own_def upd)
next
  case L61
  then show ?thesis
    using t e
      I_E_notimer [OF I, of e]
      I_E_own [OF I, of e]
      I_lenC [OF I]
    by (auto simp add: E_notimer_def E_own_def upd)
next
  case (L65hit e0)
  then show ?thesis
    using t e
      I_E_notimer [OF I, of e]
      I_E_own [OF I, of e]
      I_lenC [OF I]
    by (auto simp add: E_notimer_def E_own_def upd)
next
  case L65miss
  then show ?thesis
    using t e
      I_E_notimer [OF I, of e]
      I_E_own [OF I, of e]
      I_lenC [OF I]
    by (auto simp add: E_notimer_def E_own_def upd)
next
  case L66
  then show ?thesis
    using t e
      I_E_notimer [OF I, of e]
      I_E_own [OF I, of e]
      I_lenC [OF I]
    by (auto simp add: E_notimer_def E_own_def upd)
next
  case L69
  then show ?thesis
    using t e
      I_E_notimer [OF I, of e]
      I_E_own [OF I, of e]
      I_lenC [OF I]
    by (auto simp add: E_notimer_def E_own_def upd)
next
  case L70
  then show ?thesis
    using t e
      I_E_notimer [OF I, of e]
      I_E_own [OF I, of e]
      I_lenC [OF I]
    by (auto simp add: E_notimer_def E_own_def upd)
next
  case L71
  then show ?thesis
    using t e
      I_E_notimer [OF I, of e]
      I_E_own [OF I, of e]
      I_lenC [OF I]
    by (auto simp add: E_notimer_def E_own_def upd)
next
  case L74
  then show ?thesis
    using t e
      I_E_notimer [OF I, of e]
      I_E_own [OF I, of e]
      I_lenC [OF I]
    by (auto simp add: E_notimer_def E_own_def new_entity_def upd)
next
  case L77
  then show ?thesis
    using t e
      I_E_notimer [OF I, of e]
      I_E_own [OF I, of e]
      I_lenC [OF I]
    by (auto simp add: E_notimer_def E_own_def upd)
next
  case L78
  then show ?thesis
    using t e
      I_E_notimer [OF I, of e]
      I_E_own [OF I, of e]
      I_lenC [OF I]
    by (auto simp add: E_notimer_def E_own_def upd)
next
  case L79
  then show ?thesis
    using t e
      I_E_notimer [OF I, of e]
      I_E_own [OF I, of e]
      I_lenC [OF I]
    by (auto simp add: E_notimer_def E_own_def upd)
next
  case L81
  then show ?thesis
    using t e
      I_E_notimer [OF I, of e]
      I_E_own [OF I, of e]
      I_lenC [OF I]
    by (auto simp add: E_notimer_def E_own_def upd)
next
  case (L81r v0 er0)
  then show ?thesis
    using t e
      I_E_notimer [OF I, of e]
      I_E_own [OF I, of e]
      I_lenC [OF I]
    by (auto simp add: E_notimer_def E_own_def upd)
next
  case L83err
  then show ?thesis
    using t e
      I_E_notimer [OF I, of e]
      I_E_own [OF I, of e]
      I_lenC [OF I]
    by (auto simp add: E_notimer_def E_own_def upd)
next
  case L83timer
  then show ?thesis
    using t e
      I_E_notimer [OF I, of e]
      I_E_own [OF I, of e]
      I_lenC [OF I]
    by (auto simp add: E_notimer_def E_own_def upd)
next
  case L83
  then show ?thesis
    using t e
      I_E_notimer [OF I, of e]
      I_E_own [OF I, of e]
      I_lenC [OF I]
    by (auto simp add: E_notimer_def E_own_def upd)
next
  case L84
  then show ?thesis
    using t e
      I_E_notimer [OF I, of e]
      I_E_own [OF I, of e]
      I_lenC [OF I]
    by (auto simp add: E_notimer_def E_own_def upd)
next
  case L85
  then show ?thesis
    using t e
      I_E_notimer [OF I, of e]
      I_E_own [OF I, of e]
      I_lenC [OF I]
    by (auto simp add: E_notimer_def E_own_def upd)
next
  case L86
  then show ?thesis
    using t e
      I_E_notimer [OF I, of e]
      I_E_own [OF I, of e]
      I_lenC [OF I]
    by (auto simp add: E_notimer_def E_own_def upd)
next
  case L88
  then show ?thesis
    using t e
      I_E_notimer [OF I, of e]
      I_E_own [OF I, of e]
      I_lenC [OF I]
      I_T_own [OF I, of t]
    by (auto simp add: E_notimer_def E_own_def T_own_def upd)
next
  case L89
  then show ?thesis
    using t e
      I_E_notimer [OF I, of e]
      I_E_own [OF I, of e]
      I_lenC [OF I]
    by (auto simp add: E_notimer_def E_own_def upd)
next
  case L92
  then show ?thesis
    using t e
      I_E_notimer [OF I, of e]
      I_E_own [OF I, of e]
      I_lenC [OF I]
    by (auto simp add: E_notimer_def E_own_def upd)
next
  case L94
  then show ?thesis
    using t e
      I_E_notimer [OF I, of e]
      I_E_own [OF I, of e]
      I_lenC [OF I]
    by (auto simp add: E_notimer_def E_own_def upd)
next
  case L100
  then show ?thesis
    using t e
      I_E_notimer [OF I, of e]
      I_E_own [OF I, of e]
      I_lenC [OF I]
    by (auto simp add: E_notimer_def E_own_def upd)
next
  case L103
  then show ?thesis
    using t e
      I_E_notimer [OF I, of e]
      I_E_own [OF I, of e]
      I_lenC [OF I]
    by (auto simp add: E_notimer_def E_own_def upd)
next
  case L108
  then show ?thesis
    using t e
      I_E_notimer [OF I, of e]
      I_E_own [OF I, of e]
      I_lenC [OF I]
    by (auto simp add: E_notimer_def E_own_def upd)
next
  case L110miss
  then show ?thesis
    using t e
      I_E_notimer [OF I, of e]
      I_E_own [OF I, of e]
      I_lenC [OF I]
    by (auto simp add: E_notimer_def E_own_def upd)
next
  case (L110hit e0)
  then show ?thesis
    using t e
      I_E_notimer [OF I, of e]
      I_E_own [OF I, of e]
      I_lenC [OF I]
    by (auto simp add: E_notimer_def E_own_def upd)
next
  case L112
  then show ?thesis
    using t e
      I_E_notimer [OF I, of e]
      I_E_own [OF I, of e]
      I_lenC [OF I]
    by (auto simp add: E_notimer_def E_own_def upd)
next
  case L116
  then show ?thesis
    using t e
      I_E_notimer [OF I, of e]
      I_E_own [OF I, of e]
      I_lenC [OF I]
    by (auto simp add: E_notimer_def E_own_def upd)
next
  case L117
  then show ?thesis
    using t e
      I_E_notimer [OF I, of e]
      I_E_own [OF I, of e]
      I_lenC [OF I]
    by (auto simp add: E_notimer_def E_own_def upd)
next
  case L118
  then show ?thesis
    using t e
      I_E_notimer [OF I, of e]
      I_E_own [OF I, of e]
      I_lenC [OF I]
    by (auto simp add: E_notimer_def E_own_def upd)
next
  case L120
  then show ?thesis
    using t e
      I_E_notimer [OF I, of e]
      I_E_own [OF I, of e]
      I_lenC [OF I]
    by (auto simp add: E_notimer_def E_own_def upd)
next
  case L120nil
  then show ?thesis
    using t e
      I_E_notimer [OF I, of e]
      I_E_own [OF I, of e]
      I_lenC [OF I]
    by (auto simp add: E_notimer_def E_own_def upd)
next
  case L121
  then show ?thesis
    using t e
      I_E_notimer [OF I, of e]
      I_E_own [OF I, of e]
      I_lenC [OF I]
    by (auto simp add: E_notimer_def E_own_def upd)
next
  case SelTimer
  then show ?thesis
    using t e
      I_E_notimer [OF I, of e]
      I_E_own [OF I, of e]
      I_lenC [OF I]
    by (auto simp add: E_notimer_def E_own_def upd)
next
  case SelDone
  then show ?thesis
    using t e
      I_E_notimer [OF I, of e]
      I_E_own [OF I, of e]
      I_lenC [OF I]
    by (auto simp add: E_notimer_def E_own_def upd)
qed

lemma E_notimer_step:
  fixes s :: "('k, 'v::zero) state"
  assumes st: "step a s = Some s'" and I: "inv s" and e: "e < length (heap s')"
  shows "E_notimer s' e"
  using st
proof (cases rule: step_kinds)
  case (Go c)
  then show ?thesis
    using e
      I_E_notimer [OF I, of e]
      I_E_own [OF I, of e]
      I_lenC [OF I]
    by (auto simp add: E_notimer_def E_own_def upd)
next
  case (Thread t)
  show ?thesis
    by (rule E_notimer_tstep [OF st Thread I e])
next
  case (Expire e0)
  then show ?thesis
    using e
      I_E_notimer [OF I, of e]
      I_E_own [OF I, of e]
      I_lenC [OF I]
    by (auto simp add: E_notimer_def E_own_def)
qed

lemma E_timer_tstep:
  fixes s :: "('k, 'v::zero) state"
  assumes st: "step a s = Some s'" and a: "a = Run t \<or> (\<exists>c. a = Select t c)"
    and t: "t < length (threads s)" and I: "inv s" and e: "e < length (heap s')"
  shows "E_timer s' e"
  using st a
proof (cases rule: tstep_cases)
  case L51
  then show ?thesis
    using t e
      I_E_timer [OF I, of e]
      I_lenC [OF I]
    by (auto simp add: E_timer_def upd)
next
  case L56nil
  then show ?thesis
    using t e
      I_E_timer [OF I, of e]
      I_lenC [OF I]
    by (auto simp add: E_timer_def upd)
next
  case L56
  then show ?thesis
    using t e
      I_E_timer [OF I, of e]
      I_lenC [OF I]
    by (auto simp add: E_timer_def upd)
next
  case L60
  then show ?thesis
    using t e
      I_E_timer [OF I, of e]
      I_lenC [OF I]
    by (auto simp add: E_timer_def upd)
next
  case L61
  then show ?thesis
    using t e
      I_E_timer [OF I, of e]
      I_lenC [OF I]
    by (auto simp add: E_timer_def upd)
next
  case (L65hit e0)
  then show ?thesis
    using t e
      I_E_timer [OF I, of e]
      I_lenC [OF I]
    by (auto simp add: E_timer_def upd)
next
  case L65miss
  then show ?thesis
    using t e
      I_E_timer [OF I, of e]
      I_lenC [OF I]
    by (auto simp add: E_timer_def upd)
next
  case L66
  then show ?thesis
    using t e
      I_E_timer [OF I, of e]
      I_lenC [OF I]
    by (auto simp add: E_timer_def upd)
next
  case L69
  then show ?thesis
    using t e
      I_E_timer [OF I, of e]
      I_lenC [OF I]
    by (auto simp add: E_timer_def upd)
next
  case L70
  then show ?thesis
    using t e
      I_E_timer [OF I, of e]
      I_lenC [OF I]
    by (auto simp add: E_timer_def upd)
next
  case L71
  then show ?thesis
    using t e
      I_E_timer [OF I, of e]
      I_lenC [OF I]
    by (auto simp add: E_timer_def upd)
next
  case L74
  then show ?thesis
    using t e
      I_E_timer [OF I, of e]
      I_lenC [OF I]
    by (auto simp add: E_timer_def new_entity_def upd)
next
  case L77
  then show ?thesis
    using t e
      I_E_timer [OF I, of e]
      I_lenC [OF I]
    by (auto simp add: E_timer_def upd)
next
  case L78
  then show ?thesis
    using t e
      I_E_timer [OF I, of e]
      I_lenC [OF I]
    by (auto simp add: E_timer_def upd)
next
  case L79
  then show ?thesis
    using t e
      I_E_timer [OF I, of e]
      I_lenC [OF I]
    by (auto simp add: E_timer_def upd)
next
  case L81
  then show ?thesis
    using t e
      I_E_timer [OF I, of e]
      I_lenC [OF I]
    by (auto simp add: E_timer_def upd)
next
  case (L81r v0 er0)
  then show ?thesis
    using t e
      I_E_timer [OF I, of e]
      I_lenC [OF I]
      I_E_notimer [OF I, of "ent (threads s ! t)"]
      I_T_own [OF I, of t]
    by (auto simp add: E_timer_def E_notimer_def T_own_def upd)
next
  case L83err
  then show ?thesis
    using t e
      I_E_timer [OF I, of e]
      I_lenC [OF I]
    by (auto simp add: E_timer_def upd)
next
  case L83timer
  then show ?thesis
    using t e
      I_E_timer [OF I, of e]
      I_lenC [OF I]
    by (auto simp add: E_timer_def upd)
next
  case L83
  then show ?thesis
    using t e
      I_E_timer [OF I, of e]
      I_lenC [OF I]
    by (auto simp add: E_timer_def upd)
next
  case L84
  then show ?thesis
    using t e
      I_E_timer [OF I, of e]
      I_lenC [OF I]
    by (auto simp add: E_timer_def upd)
next
  case L85
  then show ?thesis
    using t e
      I_E_timer [OF I, of e]
      I_lenC [OF I]
    by (auto simp add: E_timer_def upd)
next
  case L86
  then show ?thesis
    using t e
      I_E_timer [OF I, of e]
      I_lenC [OF I]
    by (auto simp add: E_timer_def upd)
next
  case L88
  then show ?thesis
    using t e
      I_E_timer [OF I, of e]
      I_lenC [OF I]
      I_T_own [OF I, of t]
      I_T_life [OF I, of t]
      I_E_fail [OF I, of "ent (threads s ! t)"]
    by (auto simp add: E_timer_def T_own_def T_life_def E_fail_def upd)
next
  case L89
  then show ?thesis
    using t e
      I_E_timer [OF I, of e]
      I_lenC [OF I]
    by (auto simp add: E_timer_def upd)
next
  case L92
  then show ?thesis
    using t e
      I_E_timer [OF I, of e]
      I_lenC [OF I]
    by (auto simp add: E_timer_def upd)
next
  case L94
  then show ?thesis
    using t e
      I_E_timer [OF I, of e]
      I_lenC [OF I]
    by (auto simp add: E_timer_def upd)
next
  case L100
  then show ?thesis
    using t e
      I_E_timer [OF I, of e]
      I_lenC [OF I]
    by (auto simp add: E_timer_def upd)
next
  case L103
  then show ?thesis
    using t e
      I_E_timer [OF I, of e]
      I_lenC [OF I]
    by (auto simp add: E_timer_def upd)
next
  case L108
  then show ?thesis
    using t e
      I_E_timer [OF I, of e]
      I_lenC [OF I]
    by (auto simp add: E_timer_def upd)
next
  case L110miss
  then show ?thesis
    using t e
      I_E_timer [OF I, of e]
      I_lenC [OF I]
    by (auto simp add: E_timer_def upd)
next
  case (L110hit e0)
  then show ?thesis
    using t e
      I_E_timer [OF I, of e]
      I_lenC [OF I]
    by (auto simp add: E_timer_def upd)
next
  case L112
  then show ?thesis
    using t e
      I_E_timer [OF I, of e]
      I_lenC [OF I]
    by (auto simp add: E_timer_def upd)
next
  case L116
  then show ?thesis
    using t e
      I_E_timer [OF I, of e]
      I_lenC [OF I]
    by (auto simp add: E_timer_def upd)
next
  case L117
  then show ?thesis
    using t e
      I_E_timer [OF I, of e]
      I_lenC [OF I]
    by (auto simp add: E_timer_def upd)
next
  case L118
  then show ?thesis
    using t e
      I_E_timer [OF I, of e]
      I_lenC [OF I]
    by (auto simp add: E_timer_def upd)
next
  case L120
  then show ?thesis
    using t e
      I_E_timer [OF I, of e]
      I_lenC [OF I]
    by (auto simp add: E_timer_def upd)
next
  case L120nil
  then show ?thesis
    using t e
      I_E_timer [OF I, of e]
      I_lenC [OF I]
    by (auto simp add: E_timer_def upd)
next
  case L121
  then show ?thesis
    using t e
      I_E_timer [OF I, of e]
      I_lenC [OF I]
    by (auto simp add: E_timer_def upd)
next
  case SelTimer
  then show ?thesis
    using t e
      I_E_timer [OF I, of e]
      I_lenC [OF I]
    by (auto simp add: E_timer_def upd)
next
  case SelDone
  then show ?thesis
    using t e
      I_E_timer [OF I, of e]
      I_lenC [OF I]
    by (auto simp add: E_timer_def upd)
qed

lemma E_timer_step:
  fixes s :: "('k, 'v::zero) state"
  assumes st: "step a s = Some s'" and I: "inv s" and e: "e < length (heap s')"
  shows "E_timer s' e"
  using st
proof (cases rule: step_kinds)
  case (Go c)
  then show ?thesis
    using e
      I_E_timer [OF I, of e]
      I_lenC [OF I]
    by (auto simp add: E_timer_def upd)
next
  case (Thread t)
  show ?thesis
    by (rule E_timer_tstep [OF st Thread I e])
next
  case (Expire e0)
  then show ?thesis
    using e
      I_E_timer [OF I, of e]
      I_lenC [OF I]
    by (auto simp add: E_timer_def)
qed

lemma E_ctor_tstep:
  fixes s :: "('k, 'v::zero) state"
  assumes st: "step a s = Some s'" and a: "a = Run t \<or> (\<exists>c. a = Select t c)"
    and t: "t < length (threads s)" and I: "inv s" and e: "e < length (heap s')"
  shows "E_ctor s' e"
  using st a
proof (cases rule: tstep_cases)
  case L51
  then show ?thesis
    using t e
      I_E_ctor [OF I, of e]
      I_E_own [OF I, of e]
      I_lenC [OF I]
    by (auto simp add: E_ctor_def E_own_def upd)
next
  case L56nil
  then show ?thesis
    using t e
      I_E_ctor [OF I, of e]
      I_E_own [OF I, of e]
      I_lenC [OF I]
    by (auto simp add: E_ctor_def E_own_def upd)
next
  case L56
  then show ?thesis
    using t e
      I_E_ctor [OF I, of e]
      I_E_own [OF I, of e]
      I_lenC [OF I]
    by (auto simp add: E_ctor_def E_own_def upd)
next
  case L60
  then show ?thesis
    using t e
      I_E_ctor [OF I, of e]
      I_E_own [OF I, of e]
      I_lenC [OF I]
    by (auto simp add: E_ctor_def E_own_def upd)
next
  case L61
  then show ?thesis
    using t e
      I_E_ctor [OF I, of e]
      I_E_own [OF I, of e]
      I_lenC [OF I]
    by (auto simp add: E_ctor_def E_own_def upd)
next
  case (L65hit e0)
  then show ?thesis
    using t e
      I_E_ctor [OF I, of e]
      I_E_own [OF I, of e]
      I_lenC [OF I]
    by (auto simp add: E_ctor_def E_own_def upd)
next
  case L65miss
  then show ?thesis
    using t e
      I_E_ctor [OF I, of e]
      I_E_own [OF I, of e]
      I_lenC [OF I]
    by (auto simp add: E_ctor_def E_own_def upd)
next
  case L66
  then show ?thesis
    using t e
      I_E_ctor [OF I, of e]
      I_E_own [OF I, of e]
      I_lenC [OF I]
    by (auto simp add: E_ctor_def E_own_def upd)
next
  case L69
  then show ?thesis
    using t e
      I_E_ctor [OF I, of e]
      I_E_own [OF I, of e]
      I_lenC [OF I]
    by (auto simp add: E_ctor_def E_own_def upd)
next
  case L70
  then show ?thesis
    using t e
      I_E_ctor [OF I, of e]
      I_E_own [OF I, of e]
      I_lenC [OF I]
    by (auto simp add: E_ctor_def E_own_def upd)
next
  case L71
  then show ?thesis
    using t e
      I_E_ctor [OF I, of e]
      I_E_own [OF I, of e]
      I_lenC [OF I]
    by (auto simp add: E_ctor_def E_own_def upd)
next
  case L74
  then show ?thesis
    using t e
      I_E_ctor [OF I, of e]
      I_E_own [OF I, of e]
      I_lenC [OF I]
      filter_fresh [OF I_tr [OF I]]
    by (auto simp add: E_ctor_def E_own_def less_Suc_eq upd)
next
  case L77
  then show ?thesis
    using t e
      I_E_ctor [OF I, of e]
      I_E_own [OF I, of e]
      I_lenC [OF I]
    by (auto simp add: E_ctor_def E_own_def upd)
next
  case L78
  then show ?thesis
    using t e
      I_E_ctor [OF I, of e]
      I_E_own [OF I, of e]
      I_lenC [OF I]
    by (auto simp add: E_ctor_def E_own_def upd)
next
  case L79
  then show ?thesis
    using t e
      I_E_ctor [OF I, of e]
      I_E_own [OF I, of e]
      I_lenC [OF I]
    by (auto simp add: E_ctor_def E_own_def upd)
next
  case L81
  then show ?thesis
    using t e
      I_E_ctor [OF I, of e]
      I_E_own [OF I, of e]
      I_lenC [OF I]
      I_T_own [OF I, of t]
    by (auto simp add: E_ctor_def E_own_def T_own_def upd)
next
  case (L81r v0 er0)
  then show ?thesis
    using t e
      I_E_ctor [OF I, of e]
      I_E_own [OF I, of e]
      I_lenC [OF I]
    by (auto simp add: E_ctor_def E_own_def upd)
next
  case L83err
  then show ?thesis
    using t e
      I_E_ctor [OF I, of e]
      I_E_own [OF I, of e]
      I_lenC [OF I]
    by (auto simp add: E_ctor_def E_own_def upd)
next
  case L83timer
  then show ?thesis
    using t e
      I_E_ctor [OF I, of e]
      I_E_own [OF I, of e]
      I_lenC [OF I]
    by (auto simp add: E_ctor_def E_own_def upd)
next
  case L83
  then show ?thesis
    using t e
      I_E_ctor [OF I, of e]
      I_E_own [OF I, of e]
      I_lenC [OF I]
    by (auto simp add: E_ctor_def E_own_def upd)
next
  case L84
  then show ?thesis
    using t e
      I_E_ctor [OF I, of e]
      I_E_own [OF I, of e]
      I_lenC [OF I]
    by (auto simp add: E_ctor_def E_own_def upd)
next
  case L85
  then show ?thesis
    using t e
      I_E_ctor [OF I, of e]
      I_E_own [OF I, of e]
      I_lenC [OF I]
    by (auto simp add: E_ctor_def E_own_def upd)
next
  case L86
  then show ?thesis
    using t e
      I_E_ctor [OF I, of e]
      I_E_own [OF I, of e]
      I_lenC [OF I]
    by (auto simp add: E_ctor_def E_own_def upd)
next
  case L88
  then show ?thesis
    using t e
      I_E_ctor [OF I, of e]
      I_E_own [OF I, of e]
      I_lenC [OF I]
    by (auto simp add: E_ctor_def E_own_def upd)
next
  case L89
  then show ?thesis
    using t e
      I_E_ctor [OF I, of e]
      I_E_own [OF I, of e]
      I_lenC [OF I]
    by (auto simp add: E_ctor_def E_own_def upd)
next
  case L92
  then show ?thesis
    using t e
      I_E_ctor [OF I, of e]
      I_E_own [OF I, of e]
      I_lenC [OF I]
    by (auto simp add: E_ctor_def E_own_def upd)
next
  case L94
  then show ?thesis
    using t e
      I_E_ctor [OF I, of e]
      I_E_own [OF I, of e]
      I_lenC [OF I]
    by (auto simp add: E_ctor_def E_own_def upd)
next
  case L100
  then show ?thesis
    using t e
      I_E_ctor [OF I, of e]
      I_E_own [OF I, of e]
      I_lenC [OF I]
    by (auto simp add: E_ctor_def E_own_def upd)
next
  case L103
  then show ?thesis
    using t e
      I_E_ctor [OF I, of e]
      I_E_own [OF I, of e]
      I_lenC [OF I]
    by (auto simp add: E_ctor_def E_own_def upd)
next
  case L108
  then show ?thesis
    using t e
      I_E_ctor [OF I, of e]
      I_E_own [OF I, of e]
      I_lenC [OF I]
    by (auto simp add: E_ctor_def E_own_def upd)
next
  case L110miss
  then show ?thesis
    using t e
      I_E_ctor [OF I, of e]
      I_E_own [OF I, of e]
      I_lenC [OF I]
    by (auto simp add: E_ctor_def E_own_def upd)
next
  case (L110hit e0)
  then show ?thesis
    using t e
      I_E_ctor [OF I, of e]
      I_E_own [OF I, of e]
      I_lenC [OF I]
    by (auto simp add: E_ctor_def E_own_def upd)
next
  case L112
  then show ?thesis
    using t e
      I_E_ctor [OF I, of e]
      I_E_own [OF I, of e]
      I_lenC [OF I]
    by (auto simp add: E_ctor_def E_own_def upd)
next
  case L116
  then show ?thesis
    using t e
      I_E_ctor [OF I, of e]
      I_E_own [OF I, of e]
      I_lenC [OF I]
    by (auto simp add: E_ctor_def E_own_def upd)
next
  case L117
  then show ?thesis
    using t e
      I_E_ctor [OF I, of e]
      I_E_own [OF I, of e]
      I_lenC [OF I]
    by (auto simp add: E_ctor_def E_own_def upd)
next
  case L118
  then show ?thesis
    using t e
      I_E_ctor [OF I, of e]
      I_E_own [OF I, of e]
      I_lenC [OF I]
    by (auto simp add: E_ctor_def E_own_def upd)
next
  case L120
  then show ?thesis
    using t e
      I_E_ctor [OF I, of e]
      I_E_own [OF I, of e]
      I_lenC [OF I]
    by (auto simp add: E_ctor_def E_own_def upd)
next
  case L120nil
  then show ?thesis
    using t e
      I_E_ctor [OF I, of e]
      I_E_own [OF I, of e]
      I_lenC [OF I]
    by (auto simp add: E_ctor_def E_own_def upd)
next
  case L121
  then show ?thesis
    using t e
      I_E_ctor [OF I, of e]
      I_E_own [OF I, of e]
      I_lenC [OF I]
    by (auto simp add: E_ctor_def E_own_def upd)
next
  case SelTimer
  then show ?thesis
    using t e
      I_E_ctor [OF I, of e]
      I_E_own [OF I, of e]
      I_lenC [OF I]
    by (auto simp add: E_ctor_def E_own_def upd)
next
  case SelDone
  then show ?thesis
    using t e
      I_E_ctor [OF I, of e]
      I_E_own [OF I, of e]
      I_lenC [OF I]
    by (auto simp add: E_ctor_def E_own_def upd)
qed

lemma E_ctor_step:
  fixes s :: "('k, 'v::zero) state"
  assumes st: "step a s = Some s'" and I: "inv s" and e: "e < length (heap s')"
  shows "E_ctor s' e"
  using st
proof (cases rule: step_kinds)
  case (Go c)
  then show ?thesis
    using e
      I_E_ctor [OF I, of e]
      I_E_own [OF I, of e]
      I_lenC [OF I]
    by (auto simp add: E_ctor_def E_own_def upd)
next
  case (Thread t)
  show ?thesis
    by (rule E_ctor_tstep [OF st Thread I e])
next
  case (Expire e0)
  then show ?thesis
    using e
      I_E_ctor [OF I, of e]
      I_E_own [OF I, of e]
      I_lenC [OF I]
    by (auto simp add: E_ctor_def E_own_def)
qed

lemma E_fresh_tstep:
  fixes s :: "('k, 'v::zero) state"
  assumes st: "step a s = Some s'" and a: "a = Run t \<or> (\<exists>c. a = Select t c)"
    and t: "t < length (threads s)" and I: "inv s" and e: "e < length (heap s')"
  shows "E_fresh s' e"
  using st a
proof (cases rule: tstep_cases)
  case L51
  then show ?thesis
    using t e
      I_E_fresh [OF I, of e]
      I_E_own [OF I, of e]
      I_lenC [OF I]
    by (auto simp add: E_fresh_def E_own_def upd)
next
  case L56nil
  then show ?thesis
    using t e
      I_E_fresh [OF I, of e]
      I_E_own [OF I, of e]
      I_lenC [OF I]
    by (auto simp add: E_fresh_def E_own_def upd)
next
  case L56
  then show ?thesis
    using t e
      I_E_fresh [OF I, of e]
      I_E_own [OF I, of e]
      I_lenC [OF I]
    by (auto simp add: E_fresh_def E_own_def upd)
next
  case L60
  then show ?thesis
    using t e
      I_E_fresh [OF I, of e]
      I_E_own [OF I, of e]
      I_lenC [OF I]
    by (auto simp add: E_fresh_def E_own_def upd)
next
  case L61
  then show ?thesis
    using t e
      I_E_fresh [OF I, of e]
      I_E_own [OF I, of e]
      I_lenC [OF I]
    by (auto simp add: E_fresh_def E_own_def upd)
next
  case (L65hit e0)
  then show ?thesis
    using t e
      I_E_fresh [OF I, of e]
      I_E_own [OF I, of e]
      I_lenC [OF I]
    by (auto simp add: E_fresh_def E_own_def upd)
next
  case L65miss
  then show ?thesis
    using t e
      I_E_fresh [OF I, of e]
      I_E_own [OF I, of e]
      I_lenC [OF I]
    by (auto simp add: E_fresh_def E_own_def upd)
next
  case L66
  then show ?thesis
    using t e
      I_E_fresh [OF I, of e]
      I_E_own [OF I, of e]
      I_lenC [OF I]
    by (auto simp add: E_fresh_def E_own_def upd)
next
  case L69
  then show ?thesis
    using t e
      I_E_fresh [OF I, of e]
      I_E_own [OF I, of e]
      I_lenC [OF I]
    by (auto simp add: E_fresh_def E_own_def upd)
next
  case L70
  then show ?thesis
    using t e
      I_E_fresh [OF I, of e]
      I_E_own [OF I, of e]
      I_lenC [OF I]
    by (auto simp add: E_fresh_def E_own_def upd)
next
  case L71
  then show ?thesis
    using t e
      I_E_fresh [OF I, of e]
      I_E_own [OF I, of e]
      I_lenC [OF I]
    by (auto simp add: E_fresh_def E_own_def upd)
next
  case L74
  then show ?thesis
    using t e
      I_E_fresh [OF I, of e]
      I_E_own [OF I, of e]
      I_lenC [OF I]
      filter_fresh [OF I_tr [OF I]]
    by (auto simp add: E_fresh_def E_own_def less_Suc_eq upd)
next
  case L77
  then show ?thesis
    using t e
      I_E_fresh [OF I, of e]
      I_E_own [OF I, of e]
      I_lenC [OF I]
    by (auto simp add: E_fresh_def E_own_def upd)
next
  case L78
  then show ?thesis
    using t e
      I_E_fresh [OF I, of e]
      I_E_own [OF I, of e]
      I_lenC [OF I]
    by (auto simp add: E_fresh_def E_own_def upd)
next
  case L79
  then show ?thesis
    using t e
      I_E_fresh [OF I, of e]
      I_E_own [OF I, of e]
      I_lenC [OF I]
    by (auto simp add: E_fresh_def E_own_def upd)
next
  case L81
  then show ?thesis
    using t e
      I_E_fresh [OF I, of e]
      I_E_own [OF I, of e]
      I_lenC [OF I]
    by (auto simp add: E_fresh_def E_own_def upd)
next
  case (L81r v0 er0)
  then show ?thesis
    using t e
      I_E_fresh [OF I, of e]
      I_E_own [OF I, of e]
      I_lenC [OF I]
    by (auto simp add: E_fresh_def E_own_def upd)
next
  case L83err
  then show ?thesis
    using t e
      I_E_fresh [OF I, of e]
      I_E_own [OF I, of e]
      I_lenC [OF I]
    by (auto simp add: E_fresh_def E_own_def upd)
next
  case L83timer
  then show ?thesis
    using t e
      I_E_fresh [OF I, of e]
      I_E_own [OF I, of e]
      I_lenC [OF I]
    by (auto simp add: E_fresh_def E_own_def upd)
next
  case L83
  then show ?thesis
    using t e
      I_E_fresh [OF I, of e]
      I_E_own [OF I, of e]
      I_lenC [OF I]
    by (auto simp add: E_fresh_def E_own_def upd)
next
  case L84
  then show ?thesis
    using t e
      I_E_fresh [OF I, of e]
      I_E_own [OF I, of e]
      I_lenC [OF I]
    by (auto simp add: E_fresh_def E_own_def upd)
next
  case L85
  then show ?thesis
    using t e
      I_E_fresh [OF I, of e]
      I_E_own [OF I, of e]
      I_lenC [OF I]
    by (auto simp add: E_fresh_def E_own_def upd)
next
  case L86
  then show ?thesis
    using t e
      I_E_fresh [OF I, of e]
      I_E_own [OF I, of e]
      I_lenC [OF I]
    by (auto simp add: E_fresh_def E_own_def upd)
next
  case L88
  then show ?thesis
    using t e
      I_E_fresh [OF I, of e]
      I_E_own [OF I, of e]
      I_lenC [OF I]
    by (auto simp add: E_fresh_def E_own_def upd)
next
  case L89
  then show ?thesis
    using t e
      I_E_fresh [OF I, of e]
      I_E_own [OF I, of e]
      I_lenC [OF I]
    by (auto simp add: E_fresh_def E_own_def upd)
next
  case L92
  then show ?thesis
    using t e
      I_E_fresh [OF I, of e]
      I_E_own [OF I, of e]
      I_lenC [OF I]
    by (auto simp add: E_fresh_def E_own_def upd)
next
  case L94
  then show ?thesis
    using t e
      I_E_fresh [OF I, of e]
      I_E_own [OF I, of e]
      I_lenC [OF I]
    by (auto simp add: E_fresh_def E_own_def upd)
next
  case L100
  then show ?thesis
    using t e
      I_E_fresh [OF I, of e]
      I_E_own [OF I, of e]
      I_lenC [OF I]
    by (auto simp add: E_fresh_def E_own_def upd)
next
  case L103
  then show ?thesis
    using t e
      I_E_fresh [OF I, of e]
      I_E_own [OF I, of e]
      I_lenC [OF I]
    by (auto simp add: E_fresh_def E_own_def upd)
next
  case L108
  then show ?thesis
    using t e
      I_E_fresh [OF I, of e]
      I_E_own [OF I, of e]
      I_lenC [OF I]
    by (auto simp add: E_fresh_def E_own_def upd)
next
  case L110miss
  then show ?thesis
    using t e
      I_E_fresh [OF I, of e]
      I_E_own [OF I, of e]
      I_lenC [OF I]
    by (auto simp add: E_fresh_def E_own_def upd)
next
  case (L110hit e0)
  then show ?thesis
    using t e
      I_E_fresh [OF I, of e]
      I_E_own [OF I, of e]
      I_lenC [OF I]
    by (auto simp add: E_fresh_def E_own_def upd)
next
  case L112
  then show ?thesis
    using t e
      I_E_fresh [OF I, of e]
      I_E_own [OF I, of e]
      I_lenC [OF I]
    by (auto simp add: E_fresh_def E_own_def upd)
next
  case L116
  then show ?thesis
    using t e
      I_E_fresh [OF I, of e]
      I_E_own [OF I, of e]
      I_lenC [OF I]
    by (auto simp add: E_fresh_def E_own_def upd)
next
  case L117
  then show ?thesis
    using t e
      I_E_fresh [OF I, of e]
      I_E_own [OF I, of e]
      I_lenC [OF I]
    by (auto simp add: E_fresh_def E_own_def upd)
next
  case L118
  then show ?thesis
    using t e
      I_E_fresh [OF I, of e]
      I_E_own [OF I, of e]
      I_lenC [OF I]
    by (auto simp add: E_fresh_def E_own_def upd)
next
  case L120
  then show ?thesis
    using t e
      I_E_fresh [OF I, of e]
      I_E_own [OF I, of e]
      I_lenC [OF I]
    by (auto simp add: E_fresh_def E_own_def upd)
next
  case L120nil
  then show ?thesis
    using t e
      I_E_fresh [OF I, of e]
      I_E_own [OF I, of e]
      I_lenC [OF I]
    by (auto simp add: E_fresh_def E_own_def upd)
next
  case L121
  then show ?thesis
    using t e
      I_E_fresh [OF I, of e]
      I_E_own [OF I, of e]
      I_lenC [OF I]
      I_T_del [OF I, of t]
    by (auto simp add: E_fresh_def E_own_def T_del_def upd)
next
  case SelTimer
  then show ?thesis
    using t e
      I_E_fresh [OF I, of e]
      I_E_own [OF I, of e]
      I_lenC [OF I]
    by (auto simp add: E_fresh_def E_own_def upd)
next
  case SelDone
  then show ?thesis
    using t e
      I_E_fresh [OF I, of e]
      I_E_own [OF I, of e]
      I_lenC [OF I]
    by (auto simp add: E_fresh_def E_own_def upd)
qed

lemma E_fresh_step:
  fixes s :: "('k, 'v::zero) state"
  assumes st: "step a s = Some s'" and I: "inv s" and e: "e < length (heap s')"
  shows "E_fresh s' e"
  using st
proof (cases rule: step_kinds)
  case (Go c)
  then show ?thesis
    using e
      I_E_fresh [OF I, of e]
      I_E_own [OF I, of e]
      I_lenC [OF I]
    by (auto simp add: E_fresh_def E_own_def upd)
next
  case (Thread t)
  show ?thesis
    by (rule E_fresh_tstep [OF st Thread I e])
next
  case (Expire e0)
  then show ?thesis
    using e
      I_E_fresh [OF I, of e]
      I_E_own [OF I, of e]
      I_lenC [OF I]
    by (auto simp add: E_fresh_def E_own_def)
qed

lemma E_once_tstep:
  fixes s :: "('k, 'v::zero) state"
  assumes st: "step a s = Some s'" and a: "a = Run t \<or> (\<exists>c. a = Select t c)"
    and t: "t < length (threads s)" and I: "inv s" and e: "e < length (heap s')"
  shows "E_once s' e"
  using st a
proof (cases rule: tstep_cases)
  case L51
  then show ?thesis
    using t e
      I_E_once [OF I, of e]
    by (auto simp add: E_once_def upd)
next
  case L56nil
  then show ?thesis
    using t e
      I_E_once [OF I, of e]
    by (auto simp add: E_once_def upd)
next
  case L56
  then show ?thesis
    using t e
      I_E_once [OF I, of e]
    by (auto simp add: E_once_def upd)
next
  case L60
  then show ?thesis
    using t e
      I_E_once [OF I, of e]
    by (auto simp add: E_once_def upd)
next
  case L61
  then show ?thesis
    using t e
      I_E_once [OF I, of e]
    by (auto simp add: E_once_def upd)
next
  case (L65hit e0)
  then show ?thesis
    using t e
      I_E_once [OF I, of e]
    by (auto simp add: E_once_def upd)
next
  case L65miss
  then show ?thesis
    using t e
      I_E_once [OF I, of e]
    by (auto simp add: E_once_def upd)
next
  case L66
  then show ?thesis
    using t e
      I_E_once [OF I, of e]
    by (auto simp add: E_once_def upd)
next
  case L69
  then show ?thesis
    using t e
      I_E_once [OF I, of e]
    by (auto simp add: E_once_def upd)
next
  case L70
  then show ?thesis
    using t e
      I_E_once [OF I, of e]
    by (auto simp add: E_once_def upd)
next
  case L71
  then show ?thesis
    using t e
      I_E_once [OF I, of e]
    by (auto simp add: E_once_def upd)
next
  case L74
  then show ?thesis
    using t e
      I_E_once [OF I, of e]
      filter_fresh [OF I_tr [OF I]]
    by (auto simp add: E_once_def less_Suc_eq upd)
next
  case L77
  then show ?thesis
    using t e
      I_E_once [OF I, of e]
    by (auto simp add: E_once_def upd)
next
  case L78
  then show ?thesis
    using t e
      I_E_once [OF I, of e]
    by (auto simp add: E_once_def upd)
next
  case L79
  then show ?thesis
    using t e
      I_E_once [OF I, of e]
    by (auto simp add: E_once_def upd)
next
  case L81
  then show ?thesis
    using t e
      I_E_once [OF I, of e]
    by (auto simp add: E_once_def upd)
next
  case (L81r v0 er0)
  then show ?thesis
    using t e
      I_E_once [OF I, of e]
    by (auto simp add: E_once_def upd)
next
  case L83err
  then show ?thesis
    using t e
      I_E_once [OF I, of e]
    by (auto simp add: E_once_def upd)
next
  case L83timer
  then show ?thesis
    using t e
      I_E_once [OF I, of e]
    by (auto simp add: E_once_def upd)
next
  case L83
  then show ?thesis
    using t e
      I_E_once [OF I, of e]
    by (auto simp add: E_once_def upd)
next
  case L84
  then show ?thesis
    using t e
      I_E_once [OF I, of e]
    by (auto simp add: E_once_def upd)
next
  case L85
  then show ?thesis
    using t e
      I_E_once [OF I, of e]
    by (auto simp add: E_once_def upd)
next
  case L86
  then show ?thesis
    using t e
      I_E_once [OF I, of e]
    by (auto simp add: E_once_def upd)
next
  case L88
  then show ?thesis
    using t e
      I_E_once [OF I, of e]
    by (auto simp add: E_once_def upd)
next
  case L89
  then show ?thesis
    using t e
      I_E_once [OF I, of e]
    by (auto simp add: E_once_def upd)
next
  case L92
  then show ?thesis
    using t e
      I_E_once [OF I, of e]
    by (auto simp add: E_once_def upd)
next
  case L94
  then show ?thesis
    using t e
      I_E_once [OF I, of e]
    by (auto simp add: E_once_def upd)
next
  case L100
  then show ?thesis
    using t e
      I_E_once [OF I, of e]
    by (auto simp add: E_once_def upd)
next
  case L103
  then show ?thesis
    using t e
      I_E_once [OF I, of e]
    by (auto simp add: E_once_def upd)
next
  case L108
  then show ?thesis
    using t e
      I_E_once [OF I, of e]
    by (auto simp add: E_once_def upd)
next
  case L110miss
  then show ?thesis
    using t e
      I_E_once [OF I, of e]
    by (auto simp add: E_once_def upd)
next
  case (L110hit e0)
  then show ?thesis
    using t e
      I_E_once [OF I, of e]
    by (auto simp add: E_once_def upd)
next
  case L112
  then show ?thesis
    using t e
      I_E_once [OF I, of e]
    by (auto simp add: E_once_def upd)
next
  case L116
  then show ?thesis
    using t e
      I_E_once [OF I, of e]
    by (auto simp add: E_once_def upd)
next
  case L117
  then show ?thesis
    using t e
      I_E_once [OF I, of e]
    by (auto simp add: E_once_def upd)
next
  case L118
  then show ?thesis
    using t e
      I_E_once [OF I, of e]
    by (auto simp add: E_once_def upd)
next
  case L120
  then show ?thesis
    using t e
      I_E_once [OF I, of e]
    by (auto simp add: E_once_def upd)
next
  case L120nil
  then show ?thesis
    using t e
      I_E_once [OF I, of e]
    by (auto simp add: E_once_def upd)
next
  case L121
  then show ?thesis
    using t e
      I_E_once [OF I, of e]
      I_T_dout [OF I, of t]
    by (auto simp add: E_once_def T_dout_def upd)
next
  case SelTimer
  then show ?thesis
    using t e
      I_E_once [OF I, of e]
    by (auto simp add: E_once_def upd)
next
  case SelDone
  then show ?thesis
    using t e
      I_E_once [OF I, of e]
    by (auto simp add: E_once_def upd)
qed

lemma E_once_step:
  fixes s :: "('k, 'v::zero) state"
  assumes st: "step a s = Some s'" and I: "inv s" and e: "e < length (heap s')"
  shows "E_once s' e"
  using st
proof (cases rule: step_kinds)
  case (Go c)
  then show ?thesis
    using e
      I_E_once [OF I, of e]
    by (auto simp add: E_once_def upd)
next
  case (Thread t)
  show ?thesis
    by (rule E_once_tstep [OF st Thread I e])
next
  case (Expire e0)
  then show ?thesis
    using e
      I_E_once [OF I, of e]
    by (auto simp add: E_once_def)
qed

lemma M_wf_tstep:
  fixes s :: "('k, 'v::zero) state"
  assumes st: "step a s = Some s'" and a: "a = Run t \<or> (\<exists>c. a = Select t c)"
    and t: "t < length (threads s)" and I: "inv s"
  shows "M_wf s' k e"
  using st a
proof (cases rule: tstep_cases)
  case L51
  then show ?thesis
    using t 
      I_M_wf [OF I, of k e]
      I_E_own [OF I, of e]
      I_lenC [OF I]
    by (auto simp add: M_wf_def E_own_def upd)
next
  case L56nil
  then show ?thesis
    using t 
      I_M_wf [OF I, of k e]
      I_E_own [OF I, of e]
      I_lenC [OF I]
    by (auto simp add: M_wf_def E_own_def upd)
next
  case L56
  then show ?thesis
    using t 
      I_M_wf [OF I, of k e]
      I_E_own [OF I, of e]
      I_lenC [OF I]
    by (auto simp add: M_wf_def E_own_def upd)
next
  case L60
  then show ?thesis
    using t 
      I_M_wf [OF I, of k e]
      I_E_own [OF I, of e]
      I_lenC [OF I]
    by (auto simp add: M_wf_def E_own_def upd)
next
  case L61
  then show ?thesis
    using t 
      I_M_wf [OF I, of k e]
      I_E_own [OF I, of e]
      I_lenC [OF I]
    by (auto simp add: M_wf_def E_own_def upd)
next
  case (L65hit e0)
  then show ?thesis
    using t 
      I_M_wf [OF I, of k e]
      I_E_own [OF I, of e]
      I_lenC [OF I]
    by (auto simp add: M_wf_def E_own_def upd)
next
  case L65miss
  then show ?thesis
    using t 
      I_M_wf [OF I, of k e]
      I_E_own [OF I, of e]
      I_lenC [OF I]
    by (auto simp add: M_wf_def E_own_def upd)
next
  case L66
  then show ?thesis
    using t 
      I_M_wf [OF I, of k e]
      I_E_own [OF I, of e]
      I_lenC [OF I]
    by (auto simp add: M_wf_def E_own_def upd)
next
  case L69
  then show ?thesis
    using t 
      I_M_wf [OF I, of k e]
      I_E_own [OF I, of e]
      I_lenC [OF I]
    by (auto simp add: M_wf_def E_own_def upd)
next
  case L70
  then show ?thesis
    using t 
      I_M_wf [OF I, of k e]
      I_E_own [OF I, of e]
      I_lenC [OF I]
    by (auto simp add: M_wf_def E_own_def upd)
next
  case L71
  then show ?thesis
    using t 
      I_M_wf [OF I, of k e]
      I_E_own [OF I, of e]
      I_lenC [OF I]
    by (auto simp add: M_wf_def E_own_def upd)
next
  case L74
  then show ?thesis
    using t 
      I_M_wf [OF I, of k e]
      I_E_own [OF I, of e]
      I_lenC [OF I]
    by (auto simp add: M_wf_def E_own_def upd)
next
  case L77
  then show ?thesis
    using t 
      I_M_wf [OF I, of k e]
      I_E_own [OF I, of e]
      I_lenC [OF I]
    by (auto simp add: M_wf_def E_own_def upd)
next
  case L78
  then show ?thesis
    using t 
      I_M_wf [OF I, of k e]
      I_E_own [OF I, of e]
      I_lenC [OF I]
      I_T_own [OF I, of t]
    by (auto simp add: M_wf_def E_own_def T_own_def upd)
next
  case L79
  then show ?thesis
    using t 
      I_M_wf [OF I, of k e]
      I_E_own [OF I, of e]
      I_lenC [OF I]
    by (auto simp add: M_wf_def E_own_def upd)
next
  case L81
  then show ?thesis
    using t 
      I_M_wf [OF I, of k e]
      I_E_own [OF I, of e]
      I_lenC [OF I]
    by (auto simp add: M_wf_def E_own_def upd)
next
  case (L81r v0 er0)
  then show ?thesis
    using t 
      I_M_wf [OF I, of k e]
      I_E_own [OF I, of e]
      I_lenC [OF I]
    by (auto simp add: M_wf_def E_own_def upd)
next
  case L83err
  then show ?thesis
    using t 
      I_M_wf [OF I, of k e]
      I_E_own [OF I, of e]
      I_lenC [OF I]
    by (auto simp add: M_wf_def E_own_def upd)
next
  case L83timer
  then show ?thesis
    using t 
      I_M_wf [OF I, of k e]
      I_E_own [OF I, of e]
      I_lenC [OF I]
    by (auto simp add: M_wf_def E_own_def upd)
next
  case L83
  then show ?thesis
    using t 
      I_M_wf [OF I, of k e]
      I_E_own [OF I, of e]
      I_lenC [OF I]
    by (auto simp add: M_wf_def E_own_def upd)
next
  case L84
  then show ?thesis
    using t 
      I_M_wf [OF I, of k e]
      I_E_own [OF I, of e]
      I_lenC [OF I]
    by (auto simp add: M_wf_def E_own_def upd)
next
  case L85
  then show ?thesis
    using t 
      I_M_wf [OF I, of k e]
      I_E_own [OF I, of e]
      I_lenC [OF I]
    by (auto simp add: M_wf_def E_own_def upd)
next
  case L86
  then show ?thesis
    using t 
      I_M_wf [OF I, of k e]
      I_E_own [OF I, of e]
      I_lenC [OF I]
    by (auto simp add: M_wf_def E_own_def upd)
next
  case L88
  then show ?thesis
    using t 
      I_M_wf [OF I, of k e]
      I_E_own [OF I, of e]
      I_lenC [OF I]
    by (auto simp add: M_wf_def E_own_def upd)
next
  case L89
  then show ?thesis
    using t 
      I_M_wf [OF I, of k e]
      I_E_own [OF I, of e]
      I_lenC [OF I]
    by (auto simp add: M_wf_def E_own_def upd)
next
  case L92
  then show ?thesis
    using t 
      I_M_wf [OF I, of k e]
      I_E_own [OF I, of e]
      I_lenC [OF I]
    by (auto simp add: M_wf_def E_own_def upd)
next
  case L94
  then show ?thesis
    using t 
      I_M_wf [OF I, of k e]
      I_E_own [OF I, of e]
      I_lenC [OF I]
    by (auto simp add: M_wf_def E_own_def upd)
next
  case L100
  then show ?thesis
    using t 
      I_M_wf [OF I, of k e]
      I_E_own [OF I, of e]
      I_lenC [OF I]
    by (auto simp add: M_wf_def E_own_def upd)
next
  case L103
  then show ?thesis
    using t 
      I_M_wf [OF I, of k e]
      I_E_own [OF I, of e]
      I_lenC [OF I]
    by (auto simp add: M_wf_def E_own_def upd)
next
  case L108
  then show ?thesis
    using t 
      I_M_wf [OF I, of k e]
      I_E_own [OF I, of e]
      I_lenC [OF I]
    by (auto simp add: M_wf_def E_own_def upd)
next
  case L110miss
  then show ?thesis
    using t 
      I_M_wf [OF I, of k e]
      I_E_own [OF I, of e]
      I_lenC [OF I]
    by (auto simp add: M_wf_def E_own_def upd)
next
  case (L110hit e0)
  then show ?thesis
    using t 
      I_M_wf [OF I, of k e]
      I_E_own [OF I, of e]
      I_lenC [OF I]
    by (auto simp add: M_wf_def E_own_def upd)
next
  case L112
  then show ?thesis
    using t 
      I_M_wf [OF I, of k e]
      I_E_own [OF I, of e]
      I_lenC [OF I]
    by (auto simp add: M_wf_def E_own_def upd)
next
  case L116
  then show ?thesis
    using t 
      I_M_wf [OF I, of k e]
      I_E_own [OF I, of e]
      I_lenC [OF I]
    by (auto simp add: M_wf_def E_own_def upd)
next
  case L117
  then show ?thesis
    using t 
      I_M_wf [OF I, of k e]
      I_E_own [OF I, of e]
      I_lenC [OF I]
    by (auto simp add: M_wf_def E_own_def upd)
next
  case L118
  then show ?thesis
    using t 
      I_M_wf [OF I, of k e]
      I_E_own [OF I, of e]
      I_lenC [OF I]
    by (auto simp add: M_wf_def E_own_def upd)
next
  case L120
  then show ?thesis
    using t 
      I_M_wf [OF I, of k e]
      I_E_own [OF I, of e]
      I_lenC [OF I]
    by (auto simp add: M_wf_def E_own_def upd)
next
  case L120nil
  then show ?thesis
    using t 
      I_M_wf [OF I, of k e]
      I_E_own [OF I, of e]
      I_lenC [OF I]
    by (auto simp add: M_wf_def E_own_def upd)
next
  case L121
  then show ?thesis
    using t 
      I_M_wf [OF I, of k e]
      I_E_own [OF I, of e]
      I_lenC [OF I]
    by (auto simp add: M_wf_def E_own_def upd)
next
  case SelTimer
  then show ?thesis
    using t 
      I_M_wf [OF I, of k e]
      I_E_own [OF I, of e]
      I_lenC [OF I]
    by (auto simp add: M_wf_def E_own_def upd)
next
  case SelDone
  then show ?thesis
    using t 
      I_M_wf [OF I, of k e]
      I_E_own [OF I, of e]
      I_lenC [OF I]
    by (auto simp add: M_wf_def E_own_def upd)
qed

lemma M_wf_step:
  fixes s :: "('k, 'v::zero) state"
  assumes st: "step a s = Some s'" and I: "inv s"
  shows "M_wf s' k e"
  using st
proof (cases rule: step_kinds)
  case (Go c)
  then show ?thesis
    using 
      I_M_wf [OF I, of k e]
      I_E_own [OF I, of e]
      I_lenC [OF I]
    by (auto simp add: M_wf_def E_own_def upd)
next
  case (Thread t)
  show ?thesis
    by (rule M_wf_tstep [OF st Thread I])
next
  case (Expire e0)
  then show ?thesis
    using 
      I_M_wf [OF I, of k e]
      I_E_own [OF I, of e]
      I_lenC [OF I]
    by (auto simp add: M_wf_def E_own_def)
qed

lemma M_err_tstep:
  fixes s :: "('k, 'v::zero) state"
  assumes st: "step a s = Some s'" and a: "a = Run t \<or> (\<exists>c. a = Select t c)"
    and t: "t < length (threads s)" and I: "inv s"
  shows "M_err s' k e"
  using st a
proof (cases rule: tstep_cases)
  case L51
  then show ?thesis
    using t 
      I_M_err [OF I, of k e]
      I_M_wf [OF I, of k e]
      I_E_own [OF I, of e]
    by (auto simp add: M_err_def M_wf_def E_own_def upd)
next
  case L56nil
  then show ?thesis
    using t 
      I_M_err [OF I, of k e]
      I_M_wf [OF I, of k e]
      I_E_own [OF I, of e]
    by (auto simp add: M_err_def M_wf_def E_own_def upd)
next
  case L56
  then show ?thesis
    using t 
      I_M_err [OF I, of k e]
      I_M_wf [OF I, of k e]
      I_E_own [OF I, of e]
    by (auto simp add: M_err_def M_wf_def E_own_def upd)
next
  case L60
  then show ?thesis
    using t 
      I_M_err [OF I, of k e]
      I_M_wf [OF I, of k e]
      I_E_own [OF I, of e]
    by (auto simp add: M_err_def M_wf_def E_own_def upd)
next
  case L61
  then show ?thesis
    using t 
      I_M_err [OF I, of k e]
      I_M_wf [OF I, of k e]
      I_E_own [OF I, of e]
    by (auto simp add: M_err_def M_wf_def E_own_def upd)
next
  case (L65hit e0)
  then show ?thesis
    using t 
      I_M_err [OF I, of k e]
      I_M_wf [OF I, of k e]
      I_E_own [OF I, of e]
    by (auto simp add: M_err_def M_wf_def E_own_def upd)
next
  case L65miss
  then show ?thesis
    using t 
      I_M_err [OF I, of k e]
      I_M_wf [OF I, of k e]
      I_E_own [OF I, of e]
    by (auto simp add: M_err_def M_wf_def E_own_def upd)
next
  case L66
  then show ?thesis
    using t 
      I_M_err [OF I, of k e]
      I_M_wf [OF I, of k e]
      I_E_own [OF I, of e]
    by (auto simp add: M_err_def M_wf_def E_own_def upd)
next
  case L69
  then show ?thesis
    using t 
      I_M_err [OF I, of k e]
      I_M_wf [OF I, of k e]
      I_E_own [OF I, of e]
    by (auto simp add: M_err_def M_wf_def E_own_def upd)
next
  case L70
  then show ?thesis
    using t 
      I_M_err [OF I, of k e]
      I_M_wf [OF I, of k e]
      I_E_own [OF I, of e]
    by (auto simp add: M_err_def M_wf_def E_own_def upd)
next
  case L71
  then show ?thesis
    using t 
      I_M_err [OF I, of k e]
      I_M_wf [OF I, of k e]
      I_E_own [OF I, of e]
    by (auto simp add: M_err_def M_wf_def E_own_def upd)
next
  case L74
  then show ?thesis
    using t 
      I_M_err [OF I, of k e]
      I_M_wf [OF I, of k e]
      I_E_own [OF I, of e]
      I_lenC [OF I]
    by (auto simp add: M_err_def M_wf_def E_own_def upd)
next
  case L77
  then show ?thesis
    using t 
      I_M_err [OF I, of k e]
      I_M_wf [OF I, of k e]
      I_E_own [OF I, of e]
    by (auto simp add: M_err_def M_wf_def E_own_def upd)
next
  case L78
  then show ?thesis
    using t 
      I_M_err [OF I, of k e]
      I_M_wf [OF I, of k e]
      I_E_own [OF I, of e]
      I_T_own [OF I, of t]
      I_E_unw [OF I, of "ent (threads s ! t)"]
    by (auto simp add: M_err_def M_wf_def E_own_def T_own_def E_unw_def upd)
next
  case L79
  then show ?thesis
    using t 
      I_M_err [OF I, of k e]
      I_M_wf [OF I, of k e]
      I_E_own [OF I, of e]
    by (auto simp add: M_err_def M_wf_def E_own_def upd)
next
  case L81
  then show ?thesis
    using t 
      I_M_err [OF I, of k e]
      I_M_wf [OF I, of k e]
      I_E_own [OF I, of e]
    by (auto simp add: M_err_def M_wf_def E_own_def upd)
next
  case (L81r v0 er0)
  then show ?thesis
    using t 
      I_M_err [OF I, of k e]
      I_M_wf [OF I, of k e]
      I_E_own [OF I, of e]
      I_T_own [OF I, of t]
    by (auto simp add: M_err_def M_wf_def E_own_def T_own_def upd)
next
  case L83err
  then show ?thesis
    using t 
      I_M_err [OF I, of k e]
      I_M_wf [OF I, of k e]
      I_E_own [OF I, of e]
    by (auto simp add: M_err_def M_wf_def E_own_def upd)
next
  case L83timer
  then show ?thesis
    using t 
      I_M_err [OF I, of k e]
      I_M_wf [OF I, of k e]
      I_E_own [OF I, of e]
    by (auto simp add: M_err_def M_wf_def E_own_def upd)
next
  case L83
  then show ?thesis
    using t 
      I_M_err [OF I, of k e]
      I_M_wf [OF I, of k e]
      I_E_own [OF I, of e]
    by (auto simp add: M_err_def M_wf_def E_own_def upd)
next
  case L84
  then show ?thesis
    using t 
      I_M_err [OF I, of k e]
      I_M_wf [OF I, of k e]
      I_E_own [OF I, of e]
    by (auto simp add: M_err_def M_wf_def E_own_def upd)
next
  case L85
  then show ?thesis
    using t 
      I_M_err [OF I, of k e]
      I_M_wf [OF I, of k e]
      I_E_own [OF I, of e]
    by (auto simp add: M_err_def M_wf_def E_own_def upd)
next
  case L86
  then show ?thesis
    using t 
      I_M_err [OF I, of k e]
      I_M_wf [OF I, of k e]
      I_E_own [OF I, of e]
    by (auto simp add: M_err_def M_wf_def E_own_def upd)
next
  case L88
  then show ?thesis
    using t 
      I_M_err [OF I, of k e]
      I_M_wf [OF I, of k e]
      I_E_own [OF I, of e]
    by (auto simp add: M_err_def M_wf_def E_own_def upd)
next
  case L89
  then show ?thesis
    using t 
      I_M_err [OF I, of k e]
      I_M_wf [OF I, of k e]
      I_E_own [OF I, of e]
    by (auto simp add: M_err_def M_wf_def E_own_def upd)
next
  case L92
  then show ?thesis
    using t 
      I_M_err [OF I, of k e]
      I_M_wf [OF I, of k e]
      I_E_own [OF I, of e]
    by (auto simp add: M_err_def M_wf_def E_own_def upd)
next
  case L94
  then show ?thesis
    using t 
      I_M_err [OF I, of k e]
      I_M_wf [OF I, of k e]
      I_E_own [OF I, of e]
    by (auto simp add: M_err_def M_wf_def E_own_def upd)
next
  case L100
  then show ?thesis
    using t 
      I_M_err [OF I, of k e]
      I_M_wf [OF I, of k e]
      I_E_own [OF I, of e]
    by (auto simp add: M_err_def M_wf_def E_own_def upd)
next
  case L103
  then show ?thesis
    using t 
      I_M_err [OF I, of k e]
      I_M_wf [OF I, of k e]
      I_E_own [OF I, of e]
    by (auto simp add: M_err_def M_wf_def E_own_def upd)
next
  case L108
  then show ?thesis
    using t 
      I_M_err [OF I, of k e]
      I_M_wf [OF I, of k e]
      I_E_own [OF I, of e]
    by (auto simp add: M_err_def M_wf_def E_own_def upd)
next
  case L110miss
  then show ?thesis
    using t 
      I_M_err [OF I, of k e]
      I_M_wf [OF I, of k e]
      I_E_own [OF I, of e]
    by (auto simp add: M_err_def M_wf_def E_own_def upd)
next
  case (L110hit e0)
  then show ?thesis
    using t 
      I_M_err [OF I, of k e]
      I_M_wf [OF I, of k e]
      I_E_own [OF I, of e]
    by (auto simp add: M_err_def M_wf_def E_own_def upd)
next
  case L112
  then show ?thesis
    using t 
      I_M_err [OF I, of k e]
      I_M_wf [OF I, of k e]
      I_E_own [OF I, of e]
    by (auto simp add: M_err_def M_wf_def E_own_def upd)
next
  case L116
  then show ?thesis
    using t 
      I_M_err [OF I, of k e]
      I_M_wf [OF I, of k e]
      I_E_own [OF I, of e]
    by (auto simp add: M_err_def M_wf_def E_own_def upd)
next
  case L117
  then show ?thesis
    using t 
      I_M_err [OF I, of k e]
      I_M_wf [OF I, of k e]
      I_E_own [OF I, of e]
    by (auto simp add: M_err_def M_wf_def E_own_def upd)
next
  case L118
  then show ?thesis
    using t 
      I_M_err [OF I, of k e]
      I_M_wf [OF I, of k e]
      I_E_own [OF I, of e]
    by (auto simp add: M_err_def M_wf_def E_own_def upd)
next
  case L120
  then show ?thesis
    using t 
      I_M_err [OF I, of k e]
      I_M_wf [OF I, of k e]
      I_E_own [OF I, of e]
    by (auto simp add: M_err_def M_wf_def E_own_def upd)
next
  case L120nil
  then show ?thesis
    using t 
      I_M_err [OF I, of k e]
      I_M_wf [OF I, of k e]
      I_E_own [OF I, of e]
    by (auto simp add: M_err_def M_wf_def E_own_def upd)
next
  case L121
  then show ?thesis
    using t 
      I_M_err [OF I, of k e]
      I_M_wf [OF I, of k e]
      I_E_own [OF I, of e]
    by (auto simp add: M_err_def M_wf_def E_own_def upd)
next
  case SelTimer
  then show ?thesis
    using t 
      I_M_err [OF I, of k e]
      I_M_wf [OF I, of k e]
      I_E_own [OF I, of e]
    by (auto simp add: M_err_def M_wf_def E_own_def upd)
next
  case SelDone
  then show ?thesis
    using t 
      I_M_err [OF I, of k e]
      I_M_wf [OF I, of k e]
      I_E_own [OF I, of e]
    by (auto simp add: M_err_def M_wf_def E_own_def upd)
qed

lemma M_err_step:
  fixes s :: "('k, 'v::zero) state"
  assumes st: "step a s = Some s'" and I: "inv s"
  shows "M_err s' k e"
  using st
proof (cases rule: step_kinds)
  case (Go c)
  then show ?thesis
    using 
      I_M_err [OF I, of k e]
      I_M_wf [OF I, of k e]
      I_E_own [OF I, of e]
    by (auto simp add: M_err_def M_wf_def E_own_def upd)
next
  case (Thread t)
  show ?thesis
    by (rule M_err_tstep [OF st Thread I])
next
  case (Expire e0)
  then show ?thesis
    using 
      I_M_err [OF I, of k e]
      I_M_wf [OF I, of k e]
      I_E_own [OF I, of e]
    by (auto simp add: M_err_def M_wf_def E_own_def)
qed

lemma M_tr_tstep:
  fixes s :: "('k, 'v::zero) state"
  assumes st: "step a s = Some s'" and a: "a = Run t \<or> (\<exists>c. a = Select t c)"
    and t: "t < length (threads s)" and I: "inv s"
  shows "M_tr s' k e"
  using st a
proof (cases rule: tstep_cases)
  case L51
  then show ?thesis
    using t 
      I_M_tr [OF I, of k e]
    by (auto simp add: M_tr_def upd)
next
  case L56nil
  then show ?thesis
    using t 
      I_M_tr [OF I, of k e]
    by (auto simp add: M_tr_def upd)
next
  case L56
  then show ?thesis
    using t 
      I_M_tr [OF I, of k e]
    by (auto simp add: M_tr_def upd)
next
  case L60
  then show ?thesis
    using t 
      I_M_tr [OF I, of k e]
    by (auto simp add: M_tr_def upd)
next
  case L61
  then show ?thesis
    using t 
      I_M_tr [OF I, of k e]
    by (auto simp add: M_tr_def upd)
next
  case (L65hit e0)
  then show ?thesis
    using t 
      I_M_tr [OF I, of k e]
    by (auto simp add: M_tr_def upd)
next
  case L65miss
  then show ?thesis
    using t 
      I_M_tr [OF I, of k e]
    by (auto simp add: M_tr_def upd)
next
  case L66
  then show ?thesis
    using t 
      I_M_tr [OF I, of k e]
    by (auto simp add: M_tr_def upd)
next
  case L69
  then show ?thesis
    using t 
      I_M_tr [OF I, of k e]
    by (auto simp add: M_tr_def upd)
next
  case L70
  then show ?thesis
    using t 
      I_M_tr [OF I, of k e]
    by (auto simp add: M_tr_def upd)
next
  case L71
  then show ?thesis
    using t 
      I_M_tr [OF I, of k e]
    by (auto simp add: M_tr_def upd)
next
  case L74
  then show ?thesis
    using t 
      I_M_tr [OF I, of k e]
    by (auto simp add: M_tr_def upd)
next
  case L77
  then show ?thesis
    using t 
      I_M_tr [OF I, of k e]
    by (auto simp add: M_tr_def upd)
next
  case L78
  then show ?thesis
    using t 
      I_M_tr [OF I, of k e]
      I_E_fresh [OF I, of "ent (threads s ! t)"]
      I_T_own [OF I, of t]
    by (auto simp add: M_tr_def E_fresh_def T_own_def upd)
next
  case L79
  then show ?thesis
    using t 
      I_M_tr [OF I, of k e]
    by (auto simp add: M_tr_def upd)
next
  case L81
  then show ?thesis
    using t 
      I_M_tr [OF I, of k e]
    by (auto simp add: M_tr_def upd)
next
  case (L81r v0 er0)
  then show ?thesis
    using t 
      I_M_tr [OF I, of k e]
    by (auto simp add: M_tr_def upd)
next
  case L83err
  then show ?thesis
    using t 
      I_M_tr [OF I, of k e]
    by (auto simp add: M_tr_def upd)
next
  case L83timer
  then show ?thesis
    using t 
      I_M_tr [OF I, of k e]
    by (auto simp add: M_tr_def upd)
next
  case L83
  then show ?thesis
    using t 
      I_M_tr [OF I, of k e]
    by (auto simp add: M_tr_def upd)
next
  case L84
  then show ?thesis
    using t 
      I_M_tr [OF I, of k e]
    by (auto simp add: M_tr_def upd)
next
  case L85
  then show ?thesis
    using t 
      I_M_tr [OF I, of k e]
    by (auto simp add: M_tr_def upd)
next
  case L86
  then show ?thesis
    using t 
      I_M_tr [OF I, of k e]
    by (auto simp add: M_tr_def upd)
next
  case L88
  then show ?thesis
    using t 
      I_M_tr [OF I, of k e]
    by (auto simp add: M_tr_def upd)
next
  case L89
  then show ?thesis
    using t 
      I_M_tr [OF I, of k e]
    by (auto simp add: M_tr_def upd)
next
  case L92
  then show ?thesis
    using t 
      I_M_tr [OF I, of k e]
    by (auto simp add: M_tr_def upd)
next
  case L94
  then show ?thesis
    using t 
      I_M_tr [OF I, of k e]
    by (auto simp add: M_tr_def upd)
next
  case L100
  then show ?thesis
    using t 
      I_M_tr [OF I, of k e]
    by (auto simp add: M_tr_def upd)
next
  case L103
  then show ?thesis
    using t 
      I_M_tr [OF I, of k e]
    by (auto simp add: M_tr_def upd)
next
  case L108
  then show ?thesis
    using t 
      I_M_tr [OF I, of k e]
    by (auto simp add: M_tr_def upd)
next
  case L110miss
  then show ?thesis
    using t 
      I_M_tr [OF I, of k e]
    by (auto simp add: M_tr_def upd)
next
  case (L110hit e0)
  then show ?thesis
    using t 
      I_M_tr [OF I, of k e]
    by (auto simp add: M_tr_def upd)
next
  case L112
  then show ?thesis
    using t 
      I_M_tr [OF I, of k e]
    by (auto simp add: M_tr_def upd)
next
  case L116
  then show ?thesis
    using t 
      I_M_tr [OF I, of k e]
    by (auto simp add: M_tr_def upd)
next
  case L117
  then show ?thesis
    using t 
      I_M_tr [OF I, of k e]
    by (auto simp add: M_tr_def upd)
next
  case L118
  then show ?thesis
    using t 
      I_M_tr [OF I, of k e]
    by (auto simp add: M_tr_def upd)
next
  case L120
  then show ?thesis
    using t 
      I_M_tr [OF I, of k e]
    by (auto simp add: M_tr_def upd)
next
  case L120nil
  then show ?thesis
    using t 
      I_M_tr [OF I, of k e]
    by (auto simp add: M_tr_def upd)
next
  case L121
  then show ?thesis
    using t 
      I_M_tr [OF I, of k e]
      I_T_dout [OF I, of t]
    by (auto simp add: M_tr_def T_dout_def upd)
next
  case SelTimer
  then show ?thesis
    using t 
      I_M_tr [OF I, of k e]
    by (auto simp add: M_tr_def upd)
next
  case SelDone
  then show ?thesis
    using t 
      I_M_tr [OF I, of k e]
    by (auto simp add: M_tr_def upd)
qed

lemma M_tr_step:
  fixes s :: "('k, 'v::zero) state"
  assumes st: "step a s = Some s'" and I: "inv s"
  shows "M_tr s' k e"
  using st
proof (cases rule: step_kinds)
  case (Go c)
  then show ?thesis
    using 
      I_M_tr [OF I, of k e]
    by (auto simp add: M_tr_def upd)
next
  case (Thread t)
  show ?thesis
    by (rule M_tr_tstep [OF st Thread I])
next
  case (Expire e0)
  then show ?thesis
    using 
      I_M_tr [OF I, of k e]
    by (auto simp add: M_tr_def)
qed

lemma G_lenC_tstep:
  fixes s :: "('k, 'v::zero) state"
  assumes st: "step a s = Some s'" and a: "a = Run t \<or> (\<exists>c. a = Select t c)"
    and t: "t < length (threads s)" and I: "inv s"
  shows "length (creator s') = length (heap s')"
  using st a
proof (cases rule: tstep_cases)
  case L51
  then show ?thesis
    using t 
      I_lenC [OF I]
    by (auto simp add:  upd)
next
  case L56nil
  then show ?thesis
    using t 
      I_lenC [OF I]
    by (auto simp add:  upd)
next
  case L56
  then show ?thesis
    using t 
      I_lenC [OF I]
    by (auto simp add:  upd)
next
  case L60
  then show ?thesis
    using t 
      I_lenC [OF I]
    by (auto simp add:  upd)
next
  case L61
  then show ?thesis
    using t 
      I_lenC [OF I]
    by (auto simp add:  upd)
next
  case (L65hit e0)
  then show ?thesis
    using t 
      I_lenC [OF I]
    by (auto simp add:  upd)
next
  case L65miss
  then show ?thesis
    using t 
      I_lenC [OF I]
    by (auto simp add:  upd)
next
  case L66
  then show ?thesis
    using t 
      I_lenC [OF I]
    by (auto simp add:  upd)
next
  case L69
  then show ?thesis
    using t 
      I_lenC [OF I]
    by (auto simp add:  upd)
next
  case L70
  then show ?thesis
    using t 
      I_lenC [OF I]
    by (auto simp add:  upd)
next
  case L71
  then show ?thesis
    using t 
      I_lenC [OF I]
    by (auto simp add:  upd)
next
  case L74
  then show ?thesis
    using t 
      I_lenC [OF I]
    by (auto simp add:  upd)
next
  case L77
  then show ?thesis
    using t 
      I_lenC [OF I]
    by (auto simp add:  upd)
next
  case L78
  then show ?thesis
    using t 
      I_lenC [OF I]
    by (auto simp add:  upd)
next
  case L79
  then show ?thesis
    using t 
      I_lenC [OF I]
    by (auto simp add:  upd)
next
  case L81
  then show ?thesis
    using t 
      I_lenC [OF I]
    by (auto simp add:  upd)
next
  case (L81r v0 er0)
  then show ?thesis
    using t 
      I_lenC [OF I]
    by (auto simp add:  upd)
next
  case L83err
  then show ?thesis
    using t 
      I_lenC [OF I]
    by (auto simp add:  upd)
next
  case L83timer
  then show ?thesis
    using t 
      I_lenC [OF I]
    by (auto simp add:  upd)
next
  case L83
  then show ?thesis
    using t 
      I_lenC [OF I]
    by (auto simp add:  upd)
next
  case L84
  then show ?thesis
    using t 
      I_lenC [OF I]
    by (auto simp add:  upd)
next
  case L85
  then show ?thesis
    using t 
      I_lenC [OF I]
    by (auto simp add:  upd)
next
  case L86
  then show ?thesis
    using t 
      I_lenC [OF I]
    by (auto simp add:  upd)
next
  case L88
  then show ?thesis
    using t 
      I_lenC [OF I]
    by (auto simp add:  upd)
next
  case L89
  then show ?thesis
    using t 
      I_lenC [OF I]
    by (auto simp add:  upd)
next
  case L92
  then show ?thesis
    using t 
      I_lenC [OF I]
    by (auto simp add:  upd)
next
  case L94
  then show ?thesis
    using t 
      I_lenC [OF I]
    by (auto simp add:  upd)
next
  case L100
  then show ?thesis
    using t 
      I_lenC [OF I]
    by (auto simp add:  upd)
next
  case L103
  then show ?thesis
    using t 
      I_lenC [OF I]
    by (auto simp add:  upd)
next
  case L108
  then show ?thesis
    using t 
      I_lenC [OF I]
    by (auto simp add:  upd)
next
  case L110miss
  then show ?thesis
    using t 
      I_lenC [OF I]
    by (auto simp add:  upd)
next
  case (L110hit e0)
  then show ?thesis
    using t 
      I_lenC [OF I]
    by (auto simp add:  upd)
next
  case L112
  then show ?thesis
    using t 
      I_lenC [OF I]
    by (auto simp add:  upd)
next
  case L116
  then show ?thesis
    using t 
      I_lenC [OF I]
    by (auto simp add:  upd)
next
  case L117
  then show ?thesis
    using t 
      I_lenC [OF I]
    by (auto simp add:  upd)
next
  case L118
  then show ?thesis
    using t 
      I_lenC [OF I]
    by (auto simp add:  upd)
next
  case L120
  then show ?thesis
    using t 
      I_lenC [OF I]
    by (auto simp add:  upd)
next
  case L120nil
  then show ?thesis
    using t 
      I_lenC [OF I]
    by (auto simp add:  upd)
next
  case L121
  then show ?thesis
    using t 
      I_lenC [OF I]
    by (auto simp add:  upd)
next
  case SelTimer
  then show ?thesis
    using t 
      I_lenC [OF I]
    by (auto simp add:  upd)
next
  case SelDone
  then show ?thesis
    using t 
      I_lenC [OF I]
    by (auto simp add:  upd)
qed

lemma G_lenC_step:
  fixes s :: "('k, 'v::zero) state"
  assumes st: "step a s = Some s'" and I: "inv s"
  shows "length (creator s') = length (heap s')"
  using st
proof (cases rule: step_kinds)
  case (Go c)
  then show ?thesis
    using 
      I_lenC [OF I]
    by (auto simp add:  upd)
next
  case (Thread t)
  show ?thesis
    by (rule G_lenC_tstep [OF st Thread I])
next
  case (Expire e0)
  then show ?thesis
    using 
      I_lenC [OF I]
    by (auto simp add: )
qed

lemma G_mu_tstep:
  fixes s :: "('k, 'v::zero) state"
  assumes st: "step a s = Some s'" and a: "a = Run t \<or> (\<exists>c. a = Select t c)"
    and t: "t < length (threads s)" and I: "inv s"
  shows "mu s' = Some x \<longrightarrow> x < length (threads s')"
  using st a
proof (cases rule: tstep_cases)
  case L51
  then show ?thesis
    using t 
      I_mu [OF I, of x]
    by (auto simp add:  upd)
next
  case L56nil
  then show ?thesis
    using t 
      I_mu [OF I, of x]
    by (auto simp add:  upd)
next
  case L56
  then show ?thesis
    using t 
      I_mu [OF I, of x]
    by (auto simp add:  upd)
next
  case L60
  then show ?thesis
    using t 
      I_mu [OF I, of x]
    by (auto simp add:  upd)
next
  case L61
  then show ?thesis
    using t 
      I_mu [OF I, of x]
    by (auto simp add:  upd)
next
  case (L65hit e0)
  then show ?thesis
    using t 
      I_mu [OF I, of x]
    by (auto simp add:  upd)
next
  case L65miss
  then show ?thesis
    using t 
      I_mu [OF I, of x]
    by (auto simp add:  upd)
next
  case L66
  then show ?thesis
    using t 
      I_mu [OF I, of x]
    by (auto simp add:  upd)
next
  case L69
  then show ?thesis
    using t 
      I_mu [OF I, of x]
    by (auto simp add:  upd)
next
  case L70
  then show ?thesis
    using t 
      I_mu [OF I, of x]
    by (auto simp add:  upd)
next
  case L71
  then show ?thesis
    using t 
      I_mu [OF I, of x]
    by (auto simp add:  upd)
next
  case L74
  then show ?thesis
    using t 
      I_mu [OF I, of x]
    by (auto simp add:  upd)
next
  case L77
  then show ?thesis
    using t 
      I_mu [OF I, of x]
    by (auto simp add:  upd)
next
  case L78
  then show ?thesis
    using t 
      I_mu [OF I, of x]
    by (auto simp add:  upd)
next
  case L79
  then show ?thesis
    using t 
      I_mu [OF I, of x]
    by (auto simp add:  upd)
next
  case L81
  then show ?thesis
    using t 
      I_mu [OF I, of x]
    by (auto simp add:  upd)
next
  case (L81r v0 er0)
  then show ?thesis
    using t 
      I_mu [OF I, of x]
    by (auto simp add:  upd)
next
  case L83err
  then show ?thesis
    using t 
      I_mu [OF I, of x]
    by (auto simp add:  upd)
next
  case L83timer
  then show ?thesis
    using t 
      I_mu [OF I, of x]
    by (auto simp add:  upd)
next
  case L83
  then show ?thesis
    using t 
      I_mu [OF I, of x]
    by (auto simp add:  upd)
next
  case L84
  then show ?thesis
    using t 
      I_mu [OF I, of x]
    by (auto simp add:  upd)
next
  case L85
  then show ?thesis
    using t 
      I_mu [OF I, of x]
    by (auto simp add:  upd)
next
  case L86
  then show ?thesis
    using t 
      I_mu [OF I, of x]
    by (auto simp add:  upd)
next
  case L88
  then show ?thesis
    using t 
      I_mu [OF I, of x]
    by (auto simp add:  upd)
next
  case L89
  then show ?thesis
    using t 
      I_mu [OF I, of x]
    by (auto simp add:  upd)
next
  case L92
  then show ?thesis
    using t 
      I_mu [OF I, of x]
    by (auto simp add:  upd)
next
  case L94
  then show ?thesis
    using t 
      I_mu [OF I, of x]
    by (auto simp add:  upd)
next
  case L100
  then show ?thesis
    using t 
      I_mu [OF I, of x]
    by (auto simp add:  upd)
next
  case L103
  then show ?thesis
    using t 
      I_mu [OF I, of x]
    by (auto simp add:  upd)
next
  case L108
  then show ?thesis
    using t 
      I_mu [OF I, of x]
    by (auto simp add:  upd)
next
  case L110miss
  then show ?thesis
    using t 
      I_mu [OF I, of x]
    by (auto simp add:  upd)
next
  case (L110hit e0)
  then show ?thesis
    using t 
      I_mu [OF I, of x]
    by (auto simp add:  upd)
next
  case L112
  then show ?thesis
    using t 
      I_mu [OF I, of x]
    by (auto simp add:  upd)
next
  case L116
  then show ?thesis
    using t 
      I_mu [OF I, of x]
    by (auto simp add:  upd)
next
  case L117
  then show ?thesis
    using t 
      I_mu [OF I, of x]
    by (auto simp add:  upd)
next
  case L118
  then show ?thesis
    using t 
      I_mu [OF I, of x]
    by (auto simp add:  upd)
next
  case L120
  then show ?thesis
    using t 
      I_mu [OF I, of x]
    by (auto simp add:  upd)
next
  case L120nil
  then show ?thesis
    using t 
      I_mu [OF I, of x]
    by (auto simp add:  upd)
next
  case L121
  then show ?thesis
    using t 
      I_mu [OF I, of x]
    by (auto simp add:  upd)
next
  case SelTimer
  then show ?thesis
    using t 
      I_mu [OF I, of x]
    by (auto simp add:  upd)
next
  case SelDone
  then show ?thesis
    using t 
      I_mu [OF I, of x]
    by (auto simp add:  upd)
qed

lemma G_mu_step:
  fixes s :: "('k, 'v::zero) state"
  assumes st: "step a s = Some s'" and I: "inv s"
  shows "mu s' = Some x \<longrightarrow> x < length (threads s')"
  using st
proof (cases rule: step_kinds)
  case (Go c)
  then show ?thesis
    using 
      I_mu [OF I, of x]
    by (auto simp add:  upd)
next
  case (Thread t)
  show ?thesis
    by (rule G_mu_tstep [OF st Thread I])
next
  case (Expire e0)
  then show ?thesis
    using 
      I_mu [OF I, of x]
    by (auto simp add: )
qed

lemma G_tr_tstep:
  fixes s :: "('k, 'v::zero) state"
  assumes st: "step a s = Some s'" and a: "a = Run t \<or> (\<exists>c. a = Select t c)"
    and t: "t < length (threads s)" and I: "inv s"
  shows "\<forall>ev \<in> set (trace s'). ent_of ev < length (heap s')"
  using st a
proof (cases rule: tstep_cases)
  case L51
  then show ?thesis
    using t 
      I_tr [OF I]
    by (auto simp add:  upd)
next
  case L56nil
  then show ?thesis
    using t 
      I_tr [OF I]
    by (auto simp add:  upd)
next
  case L56
  then show ?thesis
    using t 
      I_tr [OF I]
    by (auto simp add:  upd)
next
  case L60
  then show ?thesis
    using t 
      I_tr [OF I]
    by (auto simp add:  upd)
next
  case L61
  then show ?thesis
    using t 
      I_tr [OF I]
    by (auto simp add:  upd)
next
  case (L65hit e0)
  then show ?thesis
    using t 
      I_tr [OF I]
    by (auto simp add:  upd)
next
  case L65miss
  then show ?thesis
    using t 
      I_tr [OF I]
    by (auto simp add:  upd)
next
  case L66
  then show ?thesis
    using t 
      I_tr [OF I]
    by (auto simp add:  upd)
next
  case L69
  then show ?thesis
    using t 
      I_tr [OF I]
    by (auto simp add:  upd)
next
  case L70
  then show ?thesis
    using t 
      I_tr [OF I]
    by (auto simp add:  upd)
next
  case L71
  then show ?thesis
    using t 
      I_tr [OF I]
    by (auto simp add:  upd)
next
  case L74
  then show ?thesis
    using t 
      I_tr [OF I]
    by (auto simp add:  upd)
next
  case L77
  then show ?thesis
    using t 
      I_tr [OF I]
    by (auto simp add:  upd)
next
  case L78
  then show ?thesis
    using t 
      I_tr [OF I]
    by (auto simp add:  upd)
next
  case L79
  then show ?thesis
    using t 
      I_tr [OF I]
    by (auto simp add:  upd)
next
  case L81
  then show ?thesis
    using t 
      I_tr [OF I]
      I_T_own [OF I, of t]
    by (auto simp add: T_own_def upd)
next
  case (L81r v0 er0)
  then show ?thesis
    using t 
      I_tr [OF I]
    by (auto simp add:  upd)
next
  case L83err
  then show ?thesis
    using t 
      I_tr [OF I]
    by (auto simp add:  upd)
next
  case L83timer
  then show ?thesis
    using t 
      I_tr [OF I]
    by (auto simp add:  upd)
next
  case L83
  then show ?thesis
    using t 
      I_tr [OF I]
    by (auto simp add:  upd)
next
  case L84
  then show ?thesis
    using t 
      I_tr [OF I]
    by (auto simp add:  upd)
next
  case L85
  then show ?thesis
    using t 
      I_tr [OF I]
    by (auto simp add:  upd)
next
  case L86
  then show ?thesis
    using t 
      I_tr [OF I]
    by (auto simp add:  upd)
next
  case L88
  then show ?thesis
    using t 
      I_tr [OF I]
    by (auto simp add:  upd)
next
  case L89
  then show ?thesis
    using t 
      I_tr [OF I]
    by (auto simp add:  upd)
next
  case L92
  then show ?thesis
    using t 
      I_tr [OF I]
    by (auto simp add:  upd)
next
  case L94
  then show ?thesis
    using t 
      I_tr [OF I]
    by (auto simp add:  upd)
next
  case L100
  then show ?thesis
    using t 
      I_tr [OF I]
    by (auto simp add:  upd)
next
  case L103
  then show ?thesis
    using t 
      I_tr [OF I]
    by (auto simp add:  upd)
next
  case L108
  then show ?thesis
    using t 
      I_tr [OF I]
    by (auto simp add:  upd)
next
  case L110miss
  then show ?thesis
    using t 
      I_tr [OF I]
    by (auto simp add:  upd)
next
  case (L110hit e0)
  then show ?thesis
    using t 
      I_tr [OF I]
    by (auto simp add:  upd)
next
  case L112
  then show ?thesis
    using t 
      I_tr [OF I]
    by (auto simp add:  upd)
next
  case L116
  then show ?thesis
    using t 
      I_tr [OF I]
    by (auto simp add:  upd)
next
  case L117
  then show ?thesis
    using t 
      I_tr [OF I]
    by (auto simp add:  upd)
next
  case L118
  then show ?thesis
    using t 
      I_tr [OF I]
    by (auto simp add:  upd)
next
  case L120
  then show ?thesis
    using t 
      I_tr [OF I]
    by (auto simp add:  upd)
next
  case L120nil
  then show ?thesis
    using t 
      I_tr [OF I]
    by (auto simp add:  upd)
next
  case L121
  then show ?thesis
    using t 
      I_tr [OF I]
      I_T_del [OF I, of t]
    by (auto simp add: T_del_def upd)
next
  case SelTimer
  then show ?thesis
    using t 
      I_tr [OF I]
    by (auto simp add:  upd)
next
  case SelDone
  then show ?thesis
    using t 
      I_tr [OF I]
    by (auto simp add:  upd)
qed

lemma G_tr_step:
  fixes s :: "('k, 'v::zero) state"
  assumes st: "step a s = Some s'" and I: "inv s"
  shows "\<forall>ev \<in> set (trace s'). ent_of ev < length (heap s')"
  using st
proof (cases rule: step_kinds)
  case (Go c)
  then show ?thesis
    using 
      I_tr [OF I]
    by (auto simp add:  upd)
next
  case (Thread t)
  show ?thesis
    by (rule G_tr_tstep [OF st Thread I])
next
  case (Expire e0)
  then show ?thesis
    using 
      I_tr [OF I]
    by (auto simp add: )
qed

lemma T_calls_tstep:
  fixes s :: "('k, 'v::zero) state"
  assumes st: "step a s = Some s'" and a: "a = Run t \<or> (\<exists>c. a = Select t c)"
    and t: "t < length (threads s)" and I: "inv s" and u: "u < length (threads s')"
  shows "T_calls s' u"
  using st a
proof (cases rule: tstep_cases)
  case L51
  then show ?thesis
    using t u
      I_T_calls [OF I, of t]
      I_T_calls [OF I, of u]
    by (auto simp add: T_calls_def upd)
next
  case L56nil
  then show ?thesis
    using t u
      I_T_calls [OF I, of t]
      I_T_calls [OF I, of u]
    by (auto simp add: T_calls_def upd)
next
  case L56
  then show ?thesis
    using t u
      I_T_calls [OF I, of t]
      I_T_calls [OF I, of u]
    by (auto simp add: T_calls_def upd)
next
  case L60
  then show ?thesis
    using t u
      I_T_calls [OF I, of t]
      I_T_calls [OF I, of u]
    by (auto simp add: T_calls_def upd)
next
  case L61
  then show ?thesis
    using t u
      I_T_calls [OF I, of t]
      I_T_calls [OF I, of u]
    by (auto simp add: T_calls_def upd)
next
  case (L65hit e0)
  then show ?thesis
    using t u
      I_T_calls [OF I, of t]
      I_T_calls [OF I, of u]
    by (auto simp add: T_calls_def upd)
next
  case L65miss
  then show ?thesis
    using t u
      I_T_calls [OF I, of t]
      I_T_calls [OF I, of u]
    by (auto simp add: T_calls_def upd)
next
  case L66
  then show ?thesis
    using t u
      I_T_calls [OF I, of t]
      I_T_calls [OF I, of u]
    by (auto simp add: T_calls_def upd)
next
  case L69
  then show ?thesis
    using t u
      I_T_calls [OF I, of t]
      I_T_calls [OF I, of u]
    by (auto simp add: T_calls_def upd)
next
  case L70
  then show ?thesis
    using t u
      I_T_calls [OF I, of t]
      I_T_calls [OF I, of u]
    by (auto simp add: T_calls_def upd)
next
  case L71
  then show ?thesis
    using t u
      I_T_calls [OF I, of t]
      I_T_calls [OF I, of u]
    by (auto simp add: T_calls_def upd)
next
  case L74
  then show ?thesis
    using t u
      I_T_calls [OF I, of t]
      I_T_calls [OF I, of u]
    by (auto simp add: T_calls_def upd)
next
  case L77
  then show ?thesis
    using t u
      I_T_calls [OF I, of t]
      I_T_calls [OF I, of u]
    by (auto simp add: T_calls_def upd)
next
  case L78
  then show ?thesis
    using t u
      I_T_calls [OF I, of t]
      I_T_calls [OF I, of u]
    by (auto simp add: T_calls_def upd)
next
  case L79
  then show ?thesis
    using t u
      I_T_calls [OF I, of t]
      I_T_calls [OF I, of u]
    by (auto simp add: T_calls_def upd)
next
  case L81
  then show ?thesis
    using t u
      I_T_calls [OF I, of t]
      I_T_calls [OF I, of u]
    by (auto simp add: T_calls_def upd)
next
  case (L81r v0 er0)
  then show ?thesis
    using t u
      I_T_calls [OF I, of t]
      I_T_calls [OF I, of u]
    by (auto simp add: T_calls_def upd)
next
  case L83err
  then show ?thesis
    using t u
      I_T_calls [OF I, of t]
      I_T_calls [OF I, of u]
    by (auto simp add: T_calls_def upd)
next
  case L83timer
  then show ?thesis
    using t u
      I_T_calls [OF I, of t]
      I_T_calls [OF I, of u]
    by (auto simp add: T_calls_def upd)
next
  case L83
  then show ?thesis
    using t u
      I_T_calls [OF I, of t]
      I_T_calls [OF I, of u]
    by (auto simp add: T_calls_def upd)
next
  case L84
  then show ?thesis
    using t u
      I_T_calls [OF I, of t]
      I_T_calls [OF I, of u]
    by (auto simp add: T_calls_def upd)
next
  case L85
  then show ?thesis
    using t u
      I_T_calls [OF I, of t]
      I_T_calls [OF I, of u]
    by (auto simp add: T_calls_def upd)
next
  case L86
  then show ?thesis
    using t u
      I_T_calls [OF I, of t]
      I_T_calls [OF I, of u]
    by (auto simp add: T_calls_def upd)
next
  case L88
  then show ?thesis
    using t u
      I_T_calls [OF I, of t]
      I_T_calls [OF I, of u]
    by (auto simp add: T_calls_def upd)
next
  case L89
  then show ?thesis
    using t u
      I_T_calls [OF I, of t]
      I_T_calls [OF I, of u]
      filter_fresh_tid [OF I_tid [OF I]]
    by (auto simp add: T_calls_def less_Suc_eq upd)
next
  case L92
  then show ?thesis
    using t u
      I_T_calls [OF I, of t]
      I_T_calls [OF I, of u]
    by (auto simp add: T_calls_def upd)
next
  case L94
  then show ?thesis
    using t u
      I_T_calls [OF I, of t]
      I_T_calls [OF I, of u]
    by (auto simp add: T_calls_def upd)
next
  case L100
  then show ?thesis
    using t u
      I_T_calls [OF I, of t]
      I_T_calls [OF I, of u]
    by (auto simp add: T_calls_def upd)
next
  case L103
  then show ?thesis
    using t u
      I_T_calls [OF I, of t]
      I_T_calls [OF I, of u]
    by (auto simp add: T_calls_def upd)
next
  case L108
  then show ?thesis
    using t u
      I_T_calls [OF I, of t]
      I_T_calls [OF I, of u]
    by (auto simp add: T_calls_def upd)
next
  case L110miss
  then show ?thesis
    using t u
      I_T_calls [OF I, of t]
      I_T_calls [OF I, of u]
    by (auto simp add: T_calls_def upd)
next
  case (L110hit e0)
  then show ?thesis
    using t u
      I_T_calls [OF I, of t]
      I_T_calls [OF I, of u]
    by (auto simp add: T_calls_def upd)
next
  case L112
  then show ?thesis
    using t u
      I_T_calls [OF I, of t]
      I_T_calls [OF I, of u]
    by (auto simp add: T_calls_def upd)
next
  case L116
  then show ?thesis
    using t u
      I_T_calls [OF I, of t]
      I_T_calls [OF I, of u]
    by (auto simp add: T_calls_def upd)
next
  case L117
  then show ?thesis
    using t u
      I_T_calls [OF I, of t]
      I_T_calls [OF I, of u]
    by (auto simp add: T_calls_def upd)
next
  case L118
  then show ?thesis
    using t u
      I_T_calls [OF I, of t]
      I_T_calls [OF I, of u]
    by (auto simp add: T_calls_def upd)
next
  case L120
  then show ?thesis
    using t u
      I_T_calls [OF I, of t]
      I_T_calls [OF I, of u]
    by (auto simp add: T_calls_def upd)
next
  case L120nil
  then show ?thesis
    using t u
      I_T_calls [OF I, of t]
      I_T_calls [OF I, of u]
    by (auto simp add: T_calls_def upd)
next
  case L121
  then show ?thesis
    using t u
      I_T_calls [OF I, of t]
      I_T_calls [OF I, of u]
    by (auto simp add: T_calls_def upd)
next
  case SelTimer
  then show ?thesis
    using t u
      I_T_calls [OF I, of t]
      I_T_calls [OF I, of u]
    by (auto simp add: T_calls_def upd)
next
  case SelDone
  then show ?thesis
    using t u
      I_T_calls [OF I, of t]
      I_T_calls [OF I, of u]
    by (auto simp add: T_calls_def upd)
qed

lemma T_calls_step:
  fixes s :: "('k, 'v::zero) state"
  assumes st: "step a s = Some s'" and I: "inv s" and u: "u < length (threads s')"
  shows "T_calls s' u"
  using st
proof (cases rule: step_kinds)
  case (Go c)
  then show ?thesis
    using u
      I_T_calls [OF I, of u]
      filter_fresh_tid [OF I_tid [OF I]]
    by (auto simp add: T_calls_def upd less_Suc_eq)
next
  case (Thread t)
  show ?thesis
    by (rule T_calls_tstep [OF st Thread I u])
next
  case (Expire e0)
  then show ?thesis
    using u
      I_T_calls [OF I, of u]
    by (auto simp add: T_calls_def)
qed

lemma G_tid_tstep:
  fixes s :: "('k, 'v::zero) state"
  assumes st: "step a s = Some s'" and a: "a = Run t \<or> (\<exists>c. a = Select t c)"
    and t: "t < length (threads s)" and I: "inv s"
  shows "\<forall>ev \<in> set (trace s'). tid_of ev < length (threads s')"
  using st a
proof (cases rule: tstep_cases)
  case L51
  then show ?thesis
    using t 
      I_tid [OF I]
    by (auto simp add:  upd)
next
  case L56nil
  then show ?thesis
    using t 
      I_tid [OF I]
    by (auto simp add:  upd)
next
  case L56
  then show ?thesis
    using t 
      I_tid [OF I]
    by (auto simp add:  upd)
next
  case L60
  then show ?thesis
    using t 
      I_tid [OF I]
    by (auto simp add:  upd)
next
  case L61
  then show ?thesis
    using t 
      I_tid [OF I]
    by (auto simp add:  upd)
next
  case (L65hit e0)
  then show ?thesis
    using t 
      I_tid [OF I]
    by (auto simp add:  upd)
next
  case L65miss
  then show ?thesis
    using t 
      I_tid [OF I]
    by (auto simp add:  upd)
next
  case L66
  then show ?thesis
    using t 
      I_tid [OF I]
    by (auto simp add:  upd)
next
  case L69
  then show ?thesis
    using t 
      I_tid [OF I]
    by (auto simp add:  upd)
next
  case L70
  then show ?thesis
    using t 
      I_tid [OF I]
    by (auto simp add:  upd)
next
  case L71
  then show ?thesis
    using t 
      I_tid [OF I]
    by (auto simp add:  upd)
next
  case L74
  then show ?thesis
    using t 
      I_tid [OF I]
    by (auto simp add:  upd)
next
  case L77
  then show ?thesis
    using t 
      I_tid [OF I]
    by (auto simp add:  upd)
next
  case L78
  then show ?thesis
    using t 
      I_tid [OF I]
    by (auto simp add:  upd)
next
  case L79
  then show ?thesis
    using t 
      I_tid [OF I]
    by (auto simp add:  upd)
next
  case L81
  then show ?thesis
    using t 
      I_tid [OF I]
    by (auto simp add:  upd)
next
  case (L81r v0 er0)
  then show ?thesis
    using t 
      I_tid [OF I]
    by (auto simp add:  upd)
next
  case L83err
  then show ?thesis
    using t 
      I_tid [OF I]
    by (auto simp add:  upd)
next
  case L83timer
  then show ?thesis
    using t 
      I_tid [OF I]
    by (auto simp add:  upd)
next
  case L83
  then show ?thesis
    using t 
      I_tid [OF I]
    by (auto simp add:  upd)
next
  case L84
  then show ?thesis
    using t 
      I_tid [OF I]
    by (auto simp add:  upd)
next
  case L85
  then show ?thesis
    using t 
      I_tid [OF I]
    by (auto simp add:  upd)
next
  case L86
  then show ?thesis
    using t 
      I_tid [OF I]
    by (auto simp add:  upd)
next
  case L88
  then show ?thesis
    using t 
      I_tid [OF I]
    by (auto simp add:  upd)
next
  case L89
  then show ?thesis
    using t 
      I_tid [OF I]
    by (auto simp add:  upd)
next
  case L92
  then show ?thesis
    using t 
      I_tid [OF I]
    by (auto simp add:  upd)
next
  case L94
  then show ?thesis
    using t 
      I_tid [OF I]
    by (auto simp add:  upd)
next
  case L100
  then show ?thesis
    using t 
      I_tid [OF I]
    by (auto simp add:  upd)
next
  case L103
  then show ?thesis
    using t 
      I_tid [OF I]
    by (auto simp add:  upd)
next
  case L108
  then show ?thesis
    using t 
      I_tid [OF I]
    by (auto simp add:  upd)
next
  case L110miss
  then show ?thesis
    using t 
      I_tid [OF I]
    by (auto simp add:  upd)
next
  case (L110hit e0)
  then show ?thesis
    using t 
      I_tid [OF I]
    by (auto simp add:  upd)
next
  case L112
  then show ?thesis
    using t 
      I_tid [OF I]
    by (auto simp add:  upd)
next
  case L116
  then show ?thesis
    using t 
      I_tid [OF I]
    by (auto simp add:  upd)
next
  case L117
  then show ?thesis
    using t 
      I_tid [OF I]
    by (auto simp add:  upd)
next
  case L118
  then show ?thesis
    using t 
      I_tid [OF I]
    by (auto simp add:  upd)
next
  case L120
  then show ?thesis
    using t 
      I_tid [OF I]
    by (auto simp add:  upd)
next
  case L120nil
  then show ?thesis
    using t 
      I_tid [OF I]
    by (auto simp add:  upd)
next
  case L121
  then show ?thesis
    using t 
      I_tid [OF I]
    by (auto simp add:  upd)
next
  case SelTimer
  then show ?thesis
    using t 
      I_tid [OF I]
    by (auto simp add:  upd)
next
  case SelDone
  then show ?thesis
    using t 
      I_tid [OF I]
    by (auto simp add:  upd)
qed

lemma G_tid_step:
  fixes s :: "('k, 'v::zero) state"
  assumes st: "step a s = Some s'" and I: "inv s"
  shows "\<forall>ev \<in> set (trace s'). tid_of ev < length (threads s')"
  using st
proof (cases rule: step_kinds)
  case (Go c)
  then show ?thesis
    using 
      I_tid [OF I]
    by (auto simp add:  upd)
next
  case (Thread t)
  show ?thesis
    by (rule G_tid_tstep [OF st Thread I])
next
  case (Expire e0)
  then show ?thesis
    using 
      I_tid [OF I]
    by (auto simp add: )
qed

subsection \<open>The invariant holds in every reachable state\<close>

lemma inv_New: "inv ((New l :: ('k, 'v::zero) state)\<lparr>OnDelete := od\<rparr>)"
  by (simp add: inv_def New_def M_wf_def M_err_def M_tr_def lookup_def)

lemma inv_step:
  fixes s :: "('k, 'v::zero) state"
  assumes st: "step a s = Some s'" and I: "inv s"
  shows "inv s'"
proof -
  have 1: "length (creator s') = length (heap s')"
    by (rule G_lenC_step [OF st I])
  have 2: "\<forall>t. mu s' = Some t \<longrightarrow> t < length (threads s')"
    using G_mu_step [OF st I] by blast
  have 3: "\<forall>ev \<in> set (trace s'). ent_of ev < length (heap s')"
    by (rule G_tr_step [OF st I])
  have 8: "\<forall>ev \<in> set (trace s'). tid_of ev < length (threads s')"
    by (rule G_tid_step [OF st I])
  have 4: "\<forall>t < length (threads s'). T_lock s' t \<and> T_ins s' t \<and> T_own s' t \<and> T_hit s' t \<and> T_done s' t
           \<and> T_ret s' t \<and> T_nofn s' t \<and> T_obs s' t \<and> T_del s' t \<and> T_din s' t \<and> T_cancel s' t
           \<and> T_dout s' t \<and> T_life s' t \<and> T_calls s' t"
    by (simp add: T_lock_step [OF st I] T_ins_step [OF st I] T_own_step [OF st I]
        T_hit_step [OF st I] T_done_step [OF st I] T_ret_step [OF st I] T_nofn_step [OF st I]
        T_obs_step [OF st I] T_del_step [OF st I] T_din_step [OF st I] T_cancel_step [OF st I]
        T_dout_step [OF st I] T_life_step [OF st I] T_calls_step [OF st I])
  have 5: "\<forall>t < length (threads s'). \<forall>u < length (threads s'). P_del s' t u \<and> P_obs s' t u"
    by (simp add: P_del_step [OF st I] P_obs_step [OF st I])
  have 6: "\<forall>e < length (heap s'). E_own s' e \<and> E_wg s' e \<and> E_unw s' e \<and> E_wr s' e \<and> E_fail s' e
           \<and> E_notimer s' e \<and> E_timer s' e \<and> E_ctor s' e \<and> E_fresh s' e \<and> E_once s' e"
    by (simp add: E_own_step [OF st I] E_wg_step [OF st I] E_unw_step [OF st I]
        E_wr_step [OF st I] E_fail_step [OF st I] E_notimer_step [OF st I] E_timer_step [OF st I]
        E_ctor_step [OF st I] E_fresh_step [OF st I] E_once_step [OF st I])
  have 7: "\<forall>k e. M_wf s' k e \<and> M_err s' k e \<and> M_tr s' k e"
    by (simp add: M_wf_step [OF st I] M_err_step [OF st I] M_tr_step [OF st I])
  show ?thesis
    unfolding inv_def using 1 2 3 4 5 6 7 8 by blast
qed



section \<open>Runs without an explicit Delete of a key: every step keeps the invariant\<close>

lemma J_D_O: "dinv k s \<Longrightarrow> x < length (threads s) \<longrightarrow> D_O s x"
  by (simp add: dinv_def)

lemma J_D_P: "dinv k s \<Longrightarrow> x < length (threads s) \<longrightarrow> D_P s k x"
  by (simp add: dinv_def)

lemma J_D_Q: "dinv k s \<Longrightarrow> x < length (threads s) \<longrightarrow> D_Q s k x"
  by (simp add: dinv_def)

lemma J_D_R: "dinv k s \<Longrightarrow> x < length (threads s) \<longrightarrow> D_R s k x"
  by (simp add: dinv_def)

lemma J_D_E: "dinv k s \<Longrightarrow> x < length (threads s) \<longrightarrow> D_E s k x"
  by (simp add: dinv_def)

lemma J_D_S: "dinv k s \<Longrightarrow> x < length (heap s) \<longrightarrow> D_S s k x"
  by (simp add: dinv_def)

lemma pc_class3 [simp]: "constructing p \<Longrightarrow> allocated p" "constructing p \<Longrightarrow> \<not> spawned p"
  by (cases p; simp)+

lemma D_O_tstep:
  fixes s :: "('k, 'v::zero) state"
  assumes st: "step a s = Some s'" and a: "a = Run t \<or> (\<exists>c. a = Select t c)"
    and t: "t < length (threads s)" and I: "inv s" and D: "dinv k s" and u: "u < length (threads s')"
  shows "D_O s' u"
  using st a
proof (cases rule: tstep_cases)
  case L51
  then show ?thesis
    using t u
      J_D_O [OF D, of t]
      J_D_O [OF D, of u]
    by (auto simp add: D_O_def upd)
next
  case L56nil
  then show ?thesis
    using t u
      J_D_O [OF D, of t]
      J_D_O [OF D, of u]
    by (auto simp add: D_O_def upd)
next
  case L56
  then show ?thesis
    using t u
      J_D_O [OF D, of t]
      J_D_O [OF D, of u]
    by (auto simp add: D_O_def upd)
next
  case L60
  then show ?thesis
    using t u
      J_D_O [OF D, of t]
      J_D_O [OF D, of u]
    by (auto simp add: D_O_def upd)
next
  case L61
  then show ?thesis
    using t u
      J_D_O [OF D, of t]
      J_D_O [OF D, of u]
    by (auto simp add: D_O_def upd)
next
  case (L65hit e0)
  then show ?thesis
    using t u
      J_D_O [OF D, of t]
      J_D_O [OF D, of u]
    by (auto simp add: D_O_def upd)
next
  case L65miss
  then show ?thesis
    using t u
      J_D_O [OF D, of t]
      J_D_O [OF D, of u]
    by (auto simp add: D_O_def upd)
next
  case L66
  then show ?thesis
    using t u
      J_D_O [OF D, of t]
      J_D_O [OF D, of u]
    by (auto simp add: D_O_def upd)
next
  case L69
  then show ?thesis
    using t u
      J_D_O [OF D, of t]
      J_D_O [OF D, of u]
    by (auto simp add: D_O_def upd)
next
  case L70
  then show ?thesis
    using t u
      J_D_O [OF D, of t]
      J_D_O [OF D, of u]
    by (auto simp add: D_O_def upd)
next
  case L71
  then show ?thesis
    using t u
      J_D_O [OF D, of t]
      J_D_O [OF D, of u]
    by (auto simp add: D_O_def upd)
next
  case L74
  then show ?thesis
    using t u
      J_D_O [OF D, of t]
      J_D_O [OF D, of u]
    by (auto simp add: D_O_def upd)
next
  case L77
  then show ?thesis
    using t u
      J_D_O [OF D, of t]
      J_D_O [OF D, of u]
    by (auto simp add: D_O_def upd)
next
  case L78
  then show ?thesis
    using t u
      J_D_O [OF D, of t]
      J_D_O [OF D, of u]
    by (auto simp add: D_O_def upd)
next
  case L79
  then show ?thesis
    using t u
      J_D_O [OF D, of t]
      J_D_O [OF D, of u]
    by (auto simp add: D_O_def upd)
next
  case L81
  then show ?thesis
    using t u
      J_D_O [OF D, of t]
      J_D_O [OF D, of u]
    by (auto simp add: D_O_def upd)
next
  case (L81r v0 er0)
  then show ?thesis
    using t u
      J_D_O [OF D, of t]
      J_D_O [OF D, of u]
    by (auto simp add: D_O_def upd)
next
  case L83err
  then show ?thesis
    using t u
      J_D_O [OF D, of t]
      J_D_O [OF D, of u]
    by (auto simp add: D_O_def upd)
next
  case L83timer
  then show ?thesis
    using t u
      J_D_O [OF D, of t]
      J_D_O [OF D, of u]
    by (auto simp add: D_O_def upd)
next
  case L83
  then show ?thesis
    using t u
      J_D_O [OF D, of t]
      J_D_O [OF D, of u]
    by (auto simp add: D_O_def upd)
next
  case L84
  then show ?thesis
    using t u
      J_D_O [OF D, of t]
      J_D_O [OF D, of u]
    by (auto simp add: D_O_def upd)
next
  case L85
  then show ?thesis
    using t u
      J_D_O [OF D, of t]
      J_D_O [OF D, of u]
    by (auto simp add: D_O_def upd)
next
  case L86
  then show ?thesis
    using t u
      J_D_O [OF D, of t]
      J_D_O [OF D, of u]
    by (auto simp add: D_O_def upd)
next
  case L88
  then show ?thesis
    using t u
      J_D_O [OF D, of t]
      J_D_O [OF D, of u]
    by (auto simp add: D_O_def upd)
next
  case L89
  then show ?thesis
    using t u
      J_D_O [OF D, of t]
      J_D_O [OF D, of u]
    by (auto simp add: D_O_def upd)
next
  case L92
  then show ?thesis
    using t u
      J_D_O [OF D, of t]
      J_D_O [OF D, of u]
    by (auto simp add: D_O_def upd)
next
  case L94
  then show ?thesis
    using t u
      J_D_O [OF D, of t]
      J_D_O [OF D, of u]
    by (auto simp add: D_O_def upd)
next
  case L100
  then show ?thesis
    using t u
      J_D_O [OF D, of t]
      J_D_O [OF D, of u]
    by (auto simp add: D_O_def upd)
next
  case L103
  then show ?thesis
    using t u
      J_D_O [OF D, of t]
      J_D_O [OF D, of u]
    by (auto simp add: D_O_def upd)
next
  case L108
  then show ?thesis
    using t u
      J_D_O [OF D, of t]
      J_D_O [OF D, of u]
    by (auto simp add: D_O_def upd)
next
  case L110miss
  then show ?thesis
    using t u
      J_D_O [OF D, of t]
      J_D_O [OF D, of u]
    by (auto simp add: D_O_def upd)
next
  case (L110hit e0)
  then show ?thesis
    using t u
      J_D_O [OF D, of t]
      J_D_O [OF D, of u]
    by (auto simp add: D_O_def upd)
next
  case L112
  then show ?thesis
    using t u
      J_D_O [OF D, of t]
      J_D_O [OF D, of u]
    by (auto simp add: D_O_def upd)
next
  case L116
  then show ?thesis
    using t u
      J_D_O [OF D, of t]
      J_D_O [OF D, of u]
    by (auto simp add: D_O_def upd)
next
  case L117
  then show ?thesis
    using t u
      J_D_O [OF D, of t]
      J_D_O [OF D, of u]
    by (auto simp add: D_O_def upd)
next
  case L118
  then show ?thesis
    using t u
      J_D_O [OF D, of t]
      J_D_O [OF D, of u]
    by (auto simp add: D_O_def upd)
next
  case L120
  then show ?thesis
    using t u
      J_D_O [OF D, of t]
      J_D_O [OF D, of u]
    by (auto simp add: D_O_def upd)
next
  case L120nil
  then show ?thesis
    using t u
      J_D_O [OF D, of t]
      J_D_O [OF D, of u]
    by (auto simp add: D_O_def upd)
next
  case L121
  then show ?thesis
    using t u
      J_D_O [OF D, of t]
      J_D_O [OF D, of u]
    by (auto simp add: D_O_def upd)
next
  case SelTimer
  then show ?thesis
    using t u
      J_D_O [OF D, of t]
      J_D_O [OF D, of u]
    by (auto simp add: D_O_def upd)
next
  case SelDone
  then show ?thesis
    using t u
      J_D_O [OF D, of t]
      J_D_O [OF D, of u]
    by (auto simp add: D_O_def upd)
qed

lemma D_O_step:
  fixes s :: "('k, 'v::zero) state"
  assumes st: "step a s = Some s'" and nd: "\<not> is_Delete_of k a" and I: "inv s" and D: "dinv k s" and u: "u < length (threads s')"
  shows "D_O s' u"
  using st
proof (cases rule: step_kinds)
  case (Go c)
  then show ?thesis
    using nd u
      J_D_O [OF D, of u]
    by (cases c) (auto simp add: D_O_def upd)
next
  case (Thread t)
  show ?thesis
    by (rule D_O_tstep [OF st Thread I D u])
next
  case (Expire e0)
  then show ?thesis
    using u
      J_D_O [OF D, of u]
    by (auto simp add: D_O_def)
qed

lemma D_P_tstep:
  fixes s :: "('k, 'v::zero) state"
  assumes st: "step a s = Some s'" and a: "a = Run t \<or> (\<exists>c. a = Select t c)"
    and t: "t < length (threads s)" and I: "inv s" and D: "dinv k s" and u: "u < length (threads s')"
  shows "D_P s' k u"
  using st a
proof (cases rule: tstep_cases)
  case L51
  then show ?thesis
    using t u
      J_D_P [OF D, of t]
      J_D_P [OF D, of u]
      J_D_O [OF D, of t]
    by (auto simp add: D_P_def D_O_def upd)
next
  case L56nil
  then show ?thesis
    using t u
      J_D_P [OF D, of t]
      J_D_P [OF D, of u]
      J_D_O [OF D, of t]
    by (auto simp add: D_P_def D_O_def upd)
next
  case L56
  then show ?thesis
    using t u
      J_D_P [OF D, of t]
      J_D_P [OF D, of u]
      J_D_O [OF D, of t]
    by (auto simp add: D_P_def D_O_def upd)
next
  case L60
  then show ?thesis
    using t u
      J_D_P [OF D, of t]
      J_D_P [OF D, of u]
      J_D_O [OF D, of t]
    by (auto simp add: D_P_def D_O_def upd)
next
  case L61
  then show ?thesis
    using t u
      J_D_P [OF D, of t]
      J_D_P [OF D, of u]
      J_D_O [OF D, of t]
    by (auto simp add: D_P_def D_O_def upd)
next
  case (L65hit e0)
  then show ?thesis
    using t u
      J_D_P [OF D, of t]
      J_D_P [OF D, of u]
      J_D_O [OF D, of t]
    by (auto simp add: D_P_def D_O_def upd)
next
  case L65miss
  then show ?thesis
    using t u
      J_D_P [OF D, of t]
      J_D_P [OF D, of u]
      J_D_O [OF D, of t]
    by (auto simp add: D_P_def D_O_def upd)
next
  case L66
  then show ?thesis
    using t u
      J_D_P [OF D, of t]
      J_D_P [OF D, of u]
      J_D_O [OF D, of t]
    by (auto simp add: D_P_def D_O_def upd)
next
  case L69
  then show ?thesis
    using t u
      J_D_P [OF D, of t]
      J_D_P [OF D, of u]
      J_D_O [OF D, of t]
    by (auto simp add: D_P_def D_O_def upd)
next
  case L70
  then show ?thesis
    using t u
      J_D_P [OF D, of t]
      J_D_P [OF D, of u]
      J_D_O [OF D, of t]
    by (auto simp add: D_P_def D_O_def upd)
next
  case L71
  then show ?thesis
    using t u
      J_D_P [OF D, of t]
      J_D_P [OF D, of u]
      J_D_O [OF D, of t]
    by (auto simp add: D_P_def D_O_def upd)
next
  case L74
  then show ?thesis
    using t u
      J_D_P [OF D, of t]
      J_D_P [OF D, of u]
      J_D_O [OF D, of t]
    by (auto simp add: D_P_def D_O_def upd)
next
  case L77
  then show ?thesis
    using t u
      J_D_P [OF D, of t]
      J_D_P [OF D, of u]
      J_D_O [OF D, of t]
    by (auto simp add: D_P_def D_O_def upd)
next
  case L78
  then show ?thesis
    using t u
      J_D_P [OF D, of t]
      J_D_P [OF D, of u]
      J_D_O [OF D, of t]
    by (auto simp add: D_P_def D_O_def upd)
next
  case L79
  then show ?thesis
    using t u
      J_D_P [OF D, of t]
      J_D_P [OF D, of u]
      J_D_O [OF D, of t]
    by (auto simp add: D_P_def D_O_def upd)
next
  case L81
  then show ?thesis
    using t u
      J_D_P [OF D, of t]
      J_D_P [OF D, of u]
      J_D_O [OF D, of t]
    by (auto simp add: D_P_def D_O_def upd)
next
  case (L81r v0 er0)
  then show ?thesis
    using t u
      J_D_P [OF D, of t]
      J_D_P [OF D, of u]
      J_D_O [OF D, of t]
    by (auto simp add: D_P_def D_O_def upd)
next
  case L83err
  then show ?thesis
    using t u
      J_D_P [OF D, of t]
      J_D_P [OF D, of u]
      J_D_O [OF D, of t]
    by (auto simp add: D_P_def D_O_def upd)
next
  case L83timer
  then show ?thesis
    using t u
      J_D_P [OF D, of t]
      J_D_P [OF D, of u]
      J_D_O [OF D, of t]
    by (auto simp add: D_P_def D_O_def upd)
next
  case L83
  then show ?thesis
    using t u
      J_D_P [OF D, of t]
      J_D_P [OF D, of u]
      J_D_O [OF D, of t]
    by (auto simp add: D_P_def D_O_def upd)
next
  case L84
  then show ?thesis
    using t u
      J_D_P [OF D, of t]
      J_D_P [OF D, of u]
      J_D_O [OF D, of t]
    by (auto simp add: D_P_def D_O_def upd)
next
  case L85
  then show ?thesis
    using t u
      J_D_P [OF D, of t]
      J_D_P [OF D, of u]
      J_D_O [OF D, of t]
    by (auto simp add: D_P_def D_O_def upd)
next
  case L86
  then show ?thesis
    using t u
      J_D_P [OF D, of t]
      J_D_P [OF D, of u]
      J_D_O [OF D, of t]
    by (auto simp add: D_P_def D_O_def upd)
next
  case L88
  then show ?thesis
    using t u
      J_D_P [OF D, of t]
      J_D_P [OF D, of u]
      J_D_O [OF D, of t]
    by (auto simp add: D_P_def D_O_def upd)
next
  case L89
  then show ?thesis
    using t u
      J_D_P [OF D, of t]
      J_D_P [OF D, of u]
      J_D_O [OF D, of t]
    by (auto simp add: D_P_def D_O_def upd)
next
  case L92
  then show ?thesis
    using t u
      J_D_P [OF D, of t]
      J_D_P [OF D, of u]
      J_D_O [OF D, of t]
    by (auto simp add: D_P_def D_O_def upd)
next
  case L94
  then show ?thesis
    using t u
      J_D_P [OF D, of t]
      J_D_P [OF D, of u]
      J_D_O [OF D, of t]
    by (auto simp add: D_P_def D_O_def upd)
next
  case L100
  then show ?thesis
    using t u
      J_D_P [OF D, of t]
      J_D_P [OF D, of u]
      J_D_O [OF D, of t]
    by (auto simp add: D_P_def D_O_def upd)
next
  case L103
  then show ?thesis
    using t u
      J_D_P [OF D, of t]
      J_D_P [OF D, of u]
      J_D_O [OF D, of t]
    by (auto simp add: D_P_def D_O_def upd)
next
  case L108
  then show ?thesis
    using t u
      J_D_P [OF D, of t]
      J_D_P [OF D, of u]
      J_D_O [OF D, of t]
    by (auto simp add: D_P_def D_O_def upd)
next
  case L110miss
  then show ?thesis
    using t u
      J_D_P [OF D, of t]
      J_D_P [OF D, of u]
      J_D_O [OF D, of t]
    by (auto simp add: D_P_def D_O_def upd)
next
  case (L110hit e0)
  then show ?thesis
    using t u
      J_D_P [OF D, of t]
      J_D_P [OF D, of u]
      J_D_O [OF D, of t]
    by (auto simp add: D_P_def D_O_def upd)
next
  case L112
  then show ?thesis
    using t u
      J_D_P [OF D, of t]
      J_D_P [OF D, of u]
      J_D_O [OF D, of t]
    by (auto simp add: D_P_def D_O_def upd)
next
  case L116
  then show ?thesis
    using t u
      J_D_P [OF D, of t]
      J_D_P [OF D, of u]
      J_D_O [OF D, of t]
    by (auto simp add: D_P_def D_O_def upd)
next
  case L117
  then show ?thesis
    using t u
      J_D_P [OF D, of t]
      J_D_P [OF D, of u]
      J_D_O [OF D, of t]
    by (auto simp add: D_P_def D_O_def upd)
next
  case L118
  then show ?thesis
    using t u
      J_D_P [OF D, of t]
      J_D_P [OF D, of u]
      J_D_O [OF D, of t]
    by (auto simp add: D_P_def D_O_def upd)
next
  case L120
  then show ?thesis
    using t u
      J_D_P [OF D, of t]
      J_D_P [OF D, of u]
      J_D_O [OF D, of t]
    by (auto simp add: D_P_def D_O_def upd)
next
  case L120nil
  then show ?thesis
    using t u
      J_D_P [OF D, of t]
      J_D_P [OF D, of u]
      J_D_O [OF D, of t]
    by (auto simp add: D_P_def D_O_def upd)
next
  case L121
  then show ?thesis
    using t u
      J_D_P [OF D, of t]
      J_D_P [OF D, of u]
      J_D_O [OF D, of t]
    by (auto simp add: D_P_def D_O_def upd)
next
  case SelTimer
  then show ?thesis
    using t u
      J_D_P [OF D, of t]
      J_D_P [OF D, of u]
      J_D_O [OF D, of t]
    by (auto simp add: D_P_def D_O_def upd)
next
  case SelDone
  then show ?thesis
    using t u
      J_D_P [OF D, of t]
      J_D_P [OF D, of u]
      J_D_O [OF D, of t]
    by (auto simp add: D_P_def D_O_def upd)
qed

lemma D_P_step:
  fixes s :: "('k, 'v::zero) state"
  assumes st: "step a s = Some s'" and nd: "\<not> is_Delete_of k a" and I: "inv s" and D: "dinv k s" and u: "u < length (threads s')"
  shows "D_P s' k u"
  using st
proof (cases rule: step_kinds)
  case (Go c)
  then show ?thesis
    using nd u
      J_D_P [OF D, of u]
    by (cases c) (auto simp add: D_P_def upd)
next
  case (Thread t)
  show ?thesis
    by (rule D_P_tstep [OF st Thread I D u])
next
  case (Expire e0)
  then show ?thesis
    using u
      J_D_P [OF D, of u]
    by (auto simp add: D_P_def)
qed

lemma D_Q_tstep:
  fixes s :: "('k, 'v::zero) state"
  assumes st: "step a s = Some s'" and a: "a = Run t \<or> (\<exists>c. a = Select t c)"
    and t: "t < length (threads s)" and I: "inv s" and D: "dinv k s" and u: "u < length (threads s')"
  shows "D_Q s' k u"
  using st a
proof (cases rule: tstep_cases)
  case L51
  then show ?thesis
    using t u
      J_D_Q [OF D, of t]
      J_D_Q [OF D, of u]
    by (auto simp add: D_Q_def upd)
next
  case L56nil
  then show ?thesis
    using t u
      J_D_Q [OF D, of t]
      J_D_Q [OF D, of u]
    by (auto simp add: D_Q_def upd)
next
  case L56
  then show ?thesis
    using t u
      J_D_Q [OF D, of t]
      J_D_Q [OF D, of u]
    by (auto simp add: D_Q_def upd)
next
  case L60
  then show ?thesis
    using t u
      J_D_Q [OF D, of t]
      J_D_Q [OF D, of u]
    by (auto simp add: D_Q_def upd)
next
  case L61
  then show ?thesis
    using t u
      J_D_Q [OF D, of t]
      J_D_Q [OF D, of u]
    by (auto simp add: D_Q_def upd)
next
  case (L65hit e0)
  then show ?thesis
    using t u
      J_D_Q [OF D, of t]
      J_D_Q [OF D, of u]
    by (auto simp add: D_Q_def upd)
next
  case L65miss
  then show ?thesis
    using t u
      J_D_Q [OF D, of t]
      J_D_Q [OF D, of u]
    by (auto simp add: D_Q_def upd)
next
  case L66
  then show ?thesis
    using t u
      J_D_Q [OF D, of t]
      J_D_Q [OF D, of u]
    by (auto simp add: D_Q_def upd)
next
  case L69
  then show ?thesis
    using t u
      J_D_Q [OF D, of t]
      J_D_Q [OF D, of u]
    by (auto simp add: D_Q_def upd)
next
  case L70
  then show ?thesis
    using t u
      J_D_Q [OF D, of t]
      J_D_Q [OF D, of u]
    by (auto simp add: D_Q_def upd)
next
  case L71
  then show ?thesis
    using t u
      J_D_Q [OF D, of t]
      J_D_Q [OF D, of u]
    by (auto simp add: D_Q_def upd)
next
  case L74
  then show ?thesis
    using t u
      J_D_Q [OF D, of t]
      J_D_Q [OF D, of u]
    by (auto simp add: D_Q_def upd)
next
  case L77
  then show ?thesis
    using t u
      J_D_Q [OF D, of t]
      J_D_Q [OF D, of u]
    by (auto simp add: D_Q_def upd)
next
  case L78
  then show ?thesis
    using t u
      J_D_Q [OF D, of t]
      J_D_Q [OF D, of u]
      I_T_ins [OF I, of t]
    by (auto simp add: D_Q_def T_ins_def upd)
next
  case L79
  then show ?thesis
    using t u
      J_D_Q [OF D, of t]
      J_D_Q [OF D, of u]
    by (auto simp add: D_Q_def upd)
next
  case L81
  then show ?thesis
    using t u
      J_D_Q [OF D, of t]
      J_D_Q [OF D, of u]
    by (auto simp add: D_Q_def upd)
next
  case (L81r v0 er0)
  then show ?thesis
    using t u
      J_D_Q [OF D, of t]
      J_D_Q [OF D, of u]
    by (auto simp add: D_Q_def upd)
next
  case L83err
  then show ?thesis
    using t u
      J_D_Q [OF D, of t]
      J_D_Q [OF D, of u]
    by (auto simp add: D_Q_def upd)
next
  case L83timer
  then show ?thesis
    using t u
      J_D_Q [OF D, of t]
      J_D_Q [OF D, of u]
    by (auto simp add: D_Q_def upd)
next
  case L83
  then show ?thesis
    using t u
      J_D_Q [OF D, of t]
      J_D_Q [OF D, of u]
    by (auto simp add: D_Q_def upd)
next
  case L84
  then show ?thesis
    using t u
      J_D_Q [OF D, of t]
      J_D_Q [OF D, of u]
    by (auto simp add: D_Q_def upd)
next
  case L85
  then show ?thesis
    using t u
      J_D_Q [OF D, of t]
      J_D_Q [OF D, of u]
      I_T_own [OF I, of t]
      I_T_own [OF I, of u]
    by (auto simp add: D_Q_def T_own_def upd)
next
  case L86
  then show ?thesis
    using t u
      J_D_Q [OF D, of t]
      J_D_Q [OF D, of u]
    by (auto simp add: D_Q_def upd)
next
  case L88
  then show ?thesis
    using t u
      J_D_Q [OF D, of t]
      J_D_Q [OF D, of u]
    by (auto simp add: D_Q_def upd)
next
  case L89
  then show ?thesis
    using t u
      J_D_Q [OF D, of t]
      J_D_Q [OF D, of u]
    by (auto simp add: D_Q_def upd)
next
  case L92
  then show ?thesis
    using t u
      J_D_Q [OF D, of t]
      J_D_Q [OF D, of u]
    by (auto simp add: D_Q_def upd)
next
  case L94
  then show ?thesis
    using t u
      J_D_Q [OF D, of t]
      J_D_Q [OF D, of u]
    by (auto simp add: D_Q_def upd)
next
  case L100
  then show ?thesis
    using t u
      J_D_Q [OF D, of t]
      J_D_Q [OF D, of u]
    by (auto simp add: D_Q_def upd)
next
  case L103
  then show ?thesis
    using t u
      J_D_Q [OF D, of t]
      J_D_Q [OF D, of u]
    by (auto simp add: D_Q_def upd)
next
  case L108
  then show ?thesis
    using t u
      J_D_Q [OF D, of t]
      J_D_Q [OF D, of u]
    by (auto simp add: D_Q_def upd)
next
  case L110miss
  then show ?thesis
    using t u
      J_D_Q [OF D, of t]
      J_D_Q [OF D, of u]
    by (auto simp add: D_Q_def upd)
next
  case (L110hit e0)
  then show ?thesis
    using t u
      J_D_Q [OF D, of t]
      J_D_Q [OF D, of u]
    by (auto simp add: D_Q_def upd)
next
  case L112
  then show ?thesis
    using t u
      J_D_Q [OF D, of t]
      J_D_Q [OF D, of u]
    by (auto simp add: D_Q_def upd)
next
  case L116
  then show ?thesis
    using t u
      J_D_Q [OF D, of t]
      J_D_Q [OF D, of u]
    by (auto simp add: D_Q_def upd)
next
  case L117
  then show ?thesis
    using t u
      J_D_Q [OF D, of t]
      J_D_Q [OF D, of u]
      J_D_P [OF D, of t]
      J_D_R [OF D, of t]
      I_T_obs [OF I, of t]
      I_T_own [OF I, of u]
    by (auto simp add: D_Q_def D_P_def D_R_def T_obs_def T_own_def upd)
next
  case L118
  then show ?thesis
    using t u
      J_D_Q [OF D, of t]
      J_D_Q [OF D, of u]
    by (auto simp add: D_Q_def upd)
next
  case L120
  then show ?thesis
    using t u
      J_D_Q [OF D, of t]
      J_D_Q [OF D, of u]
    by (auto simp add: D_Q_def upd)
next
  case L120nil
  then show ?thesis
    using t u
      J_D_Q [OF D, of t]
      J_D_Q [OF D, of u]
    by (auto simp add: D_Q_def upd)
next
  case L121
  then show ?thesis
    using t u
      J_D_Q [OF D, of t]
      J_D_Q [OF D, of u]
    by (auto simp add: D_Q_def upd)
next
  case SelTimer
  then show ?thesis
    using t u
      J_D_Q [OF D, of t]
      J_D_Q [OF D, of u]
    by (auto simp add: D_Q_def upd)
next
  case SelDone
  then show ?thesis
    using t u
      J_D_Q [OF D, of t]
      J_D_Q [OF D, of u]
    by (auto simp add: D_Q_def upd)
qed

lemma D_Q_step:
  fixes s :: "('k, 'v::zero) state"
  assumes st: "step a s = Some s'" and nd: "\<not> is_Delete_of k a" and I: "inv s" and D: "dinv k s" and u: "u < length (threads s')"
  shows "D_Q s' k u"
  using st
proof (cases rule: step_kinds)
  case (Go c)
  then show ?thesis
    using nd u
      J_D_Q [OF D, of u]
    by (cases c) (auto simp add: D_Q_def upd)
next
  case (Thread t)
  show ?thesis
    by (rule D_Q_tstep [OF st Thread I D u])
next
  case (Expire e0)
  then show ?thesis
    using u
      J_D_Q [OF D, of u]
    by (auto simp add: D_Q_def)
qed

lemma D_R_tstep:
  fixes s :: "('k, 'v::zero) state"
  assumes st: "step a s = Some s'" and a: "a = Run t \<or> (\<exists>c. a = Select t c)"
    and t: "t < length (threads s)" and I: "inv s" and D: "dinv k s" and u: "u < length (threads s')"
  shows "D_R s' k u"
  using st a
proof (cases rule: tstep_cases)
  case L51
  then show ?thesis
    using t u
      J_D_R [OF D, of t]
      J_D_R [OF D, of u]
    by (auto simp add: D_R_def upd)
next
  case L56nil
  then show ?thesis
    using t u
      J_D_R [OF D, of t]
      J_D_R [OF D, of u]
    by (auto simp add: D_R_def upd)
next
  case L56
  then show ?thesis
    using t u
      J_D_R [OF D, of t]
      J_D_R [OF D, of u]
    by (auto simp add: D_R_def upd)
next
  case L60
  then show ?thesis
    using t u
      J_D_R [OF D, of t]
      J_D_R [OF D, of u]
    by (auto simp add: D_R_def upd)
next
  case L61
  then show ?thesis
    using t u
      J_D_R [OF D, of t]
      J_D_R [OF D, of u]
    by (auto simp add: D_R_def upd)
next
  case (L65hit e0)
  then show ?thesis
    using t u
      J_D_R [OF D, of t]
      J_D_R [OF D, of u]
      I_T_obs [OF I, of t]
    by (auto simp add: D_R_def T_obs_def upd)
next
  case L65miss
  then show ?thesis
    using t u
      J_D_R [OF D, of t]
      J_D_R [OF D, of u]
    by (auto simp add: D_R_def upd)
next
  case L66
  then show ?thesis
    using t u
      J_D_R [OF D, of t]
      J_D_R [OF D, of u]
    by (auto simp add: D_R_def upd)
next
  case L69
  then show ?thesis
    using t u
      J_D_R [OF D, of t]
      J_D_R [OF D, of u]
    by (auto simp add: D_R_def upd)
next
  case L70
  then show ?thesis
    using t u
      J_D_R [OF D, of t]
      J_D_R [OF D, of u]
    by (auto simp add: D_R_def upd)
next
  case L71
  then show ?thesis
    using t u
      J_D_R [OF D, of t]
      J_D_R [OF D, of u]
    by (auto simp add: D_R_def upd)
next
  case L74
  then show ?thesis
    using t u
      J_D_R [OF D, of t]
      J_D_R [OF D, of u]
      I_T_obs [OF I, of t]
    by (auto simp add: D_R_def T_obs_def upd)
next
  case L77
  then show ?thesis
    using t u
      J_D_R [OF D, of t]
      J_D_R [OF D, of u]
    by (auto simp add: D_R_def upd)
next
  case L78
  then show ?thesis
    using t u
      J_D_R [OF D, of t]
      J_D_R [OF D, of u]
      I_T_ins [OF I, of t]
    by (auto simp add: D_R_def T_ins_def upd)
next
  case L79
  then show ?thesis
    using t u
      J_D_R [OF D, of t]
      J_D_R [OF D, of u]
    by (auto simp add: D_R_def upd)
next
  case L81
  then show ?thesis
    using t u
      J_D_R [OF D, of t]
      J_D_R [OF D, of u]
    by (auto simp add: D_R_def upd)
next
  case (L81r v0 er0)
  then show ?thesis
    using t u
      J_D_R [OF D, of t]
      J_D_R [OF D, of u]
    by (auto simp add: D_R_def upd)
next
  case L83err
  then show ?thesis
    using t u
      J_D_R [OF D, of t]
      J_D_R [OF D, of u]
    by (auto simp add: D_R_def upd)
next
  case L83timer
  then show ?thesis
    using t u
      J_D_R [OF D, of t]
      J_D_R [OF D, of u]
    by (auto simp add: D_R_def upd)
next
  case L83
  then show ?thesis
    using t u
      J_D_R [OF D, of t]
      J_D_R [OF D, of u]
    by (auto simp add: D_R_def upd)
next
  case L84
  then show ?thesis
    using t u
      J_D_R [OF D, of t]
      J_D_R [OF D, of u]
    by (auto simp add: D_R_def upd)
next
  case L85
  then show ?thesis
    using t u
      J_D_R [OF D, of t]
      J_D_R [OF D, of u]
      J_D_Q [OF D, of t]
      I_T_own [OF I, of t]
      I_T_obs [OF I, of u]
    by (auto simp add: D_R_def D_Q_def T_own_def T_obs_def upd)
next
  case L86
  then show ?thesis
    using t u
      J_D_R [OF D, of t]
      J_D_R [OF D, of u]
    by (auto simp add: D_R_def upd)
next
  case L88
  then show ?thesis
    using t u
      J_D_R [OF D, of t]
      J_D_R [OF D, of u]
    by (auto simp add: D_R_def upd)
next
  case L89
  then show ?thesis
    using t u
      J_D_R [OF D, of t]
      J_D_R [OF D, of u]
      J_D_Q [OF D, of t]
    by (auto simp add: D_R_def D_Q_def less_Suc_eq upd)
next
  case L92
  then show ?thesis
    using t u
      J_D_R [OF D, of t]
      J_D_R [OF D, of u]
    by (auto simp add: D_R_def upd)
next
  case L94
  then show ?thesis
    using t u
      J_D_R [OF D, of t]
      J_D_R [OF D, of u]
    by (auto simp add: D_R_def upd)
next
  case L100
  then show ?thesis
    using t u
      J_D_R [OF D, of t]
      J_D_R [OF D, of u]
    by (auto simp add: D_R_def upd)
next
  case L103
  then show ?thesis
    using t u
      J_D_R [OF D, of t]
      J_D_R [OF D, of u]
    by (auto simp add: D_R_def upd)
next
  case L108
  then show ?thesis
    using t u
      J_D_R [OF D, of t]
      J_D_R [OF D, of u]
    by (auto simp add: D_R_def upd)
next
  case L110miss
  then show ?thesis
    using t u
      J_D_R [OF D, of t]
      J_D_R [OF D, of u]
    by (auto simp add: D_R_def upd)
next
  case (L110hit e0)
  then show ?thesis
    using t u
      J_D_R [OF D, of t]
      J_D_R [OF D, of u]
    by (auto simp add: D_R_def upd)
next
  case L112
  then show ?thesis
    using t u
      J_D_R [OF D, of t]
      J_D_R [OF D, of u]
    by (auto simp add: D_R_def upd)
next
  case L116
  then show ?thesis
    using t u
      J_D_R [OF D, of t]
      J_D_R [OF D, of u]
    by (auto simp add: D_R_def upd)
next
  case L117
  then show ?thesis
    using t u
      J_D_R [OF D, of t]
      J_D_R [OF D, of u]
      J_D_P [OF D, of t]
      I_P_obs [OF I, of t u]
    by (auto simp add: D_R_def D_P_def P_obs_def upd)
next
  case L118
  then show ?thesis
    using t u
      J_D_R [OF D, of t]
      J_D_R [OF D, of u]
    by (auto simp add: D_R_def upd)
next
  case L120
  then show ?thesis
    using t u
      J_D_R [OF D, of t]
      J_D_R [OF D, of u]
    by (auto simp add: D_R_def upd)
next
  case L120nil
  then show ?thesis
    using t u
      J_D_R [OF D, of t]
      J_D_R [OF D, of u]
    by (auto simp add: D_R_def upd)
next
  case L121
  then show ?thesis
    using t u
      J_D_R [OF D, of t]
      J_D_R [OF D, of u]
    by (auto simp add: D_R_def upd)
next
  case SelTimer
  then show ?thesis
    using t u
      J_D_R [OF D, of t]
      J_D_R [OF D, of u]
    by (auto simp add: D_R_def upd)
next
  case SelDone
  then show ?thesis
    using t u
      J_D_R [OF D, of t]
      J_D_R [OF D, of u]
    by (auto simp add: D_R_def upd)
qed

lemma D_R_step:
  fixes s :: "('k, 'v::zero) state"
  assumes st: "step a s = Some s'" and nd: "\<not> is_Delete_of k a" and I: "inv s" and D: "dinv k s" and u: "u < length (threads s')"
  shows "D_R s' k u"
  using st
proof (cases rule: step_kinds)
  case (Go c)
  then show ?thesis
    using nd u
      J_D_R [OF D, of u]
    by (cases c) (auto simp add: D_R_def upd)
next
  case (Thread t)
  show ?thesis
    by (rule D_R_tstep [OF st Thread I D u])
next
  case (Expire e0)
  then show ?thesis
    using u
      J_D_R [OF D, of u]
    by (auto simp add: D_R_def)
qed

lemma D_E_tstep:
  fixes s :: "('k, 'v::zero) state"
  assumes st: "step a s = Some s'" and a: "a = Run t \<or> (\<exists>c. a = Select t c)"
    and t: "t < length (threads s)" and I: "inv s" and D: "dinv k s" and u: "u < length (threads s')"
  shows "D_E s' k u"
  using st a
proof (cases rule: tstep_cases)
  case L51
  then show ?thesis
    using t u
      J_D_E [OF D, of t]
      J_D_E [OF D, of u]
    by (auto simp add: D_E_def upd)
next
  case L56nil
  then show ?thesis
    using t u
      J_D_E [OF D, of t]
      J_D_E [OF D, of u]
    by (auto simp add: D_E_def upd)
next
  case L56
  then show ?thesis
    using t u
      J_D_E [OF D, of t]
      J_D_E [OF D, of u]
    by (auto simp add: D_E_def upd)
next
  case L60
  then show ?thesis
    using t u
      J_D_E [OF D, of t]
      J_D_E [OF D, of u]
    by (auto simp add: D_E_def upd)
next
  case L61
  then show ?thesis
    using t u
      J_D_E [OF D, of t]
      J_D_E [OF D, of u]
    by (auto simp add: D_E_def upd)
next
  case (L65hit e0)
  then show ?thesis
    using t u
      J_D_E [OF D, of t]
      J_D_E [OF D, of u]
      I_T_obs [OF I, of t]
    by (auto simp add: D_E_def T_obs_def upd)
next
  case L65miss
  then show ?thesis
    using t u
      J_D_E [OF D, of t]
      J_D_E [OF D, of u]
    by (auto simp add: D_E_def upd)
next
  case L66
  then show ?thesis
    using t u
      J_D_E [OF D, of t]
      J_D_E [OF D, of u]
    by (auto simp add: D_E_def upd)
next
  case L69
  then show ?thesis
    using t u
      J_D_E [OF D, of t]
      J_D_E [OF D, of u]
    by (auto simp add: D_E_def upd)
next
  case L70
  then show ?thesis
    using t u
      J_D_E [OF D, of t]
      J_D_E [OF D, of u]
    by (auto simp add: D_E_def upd)
next
  case L71
  then show ?thesis
    using t u
      J_D_E [OF D, of t]
      J_D_E [OF D, of u]
    by (auto simp add: D_E_def upd)
next
  case L74
  then show ?thesis
    using t u
      J_D_E [OF D, of t]
      J_D_E [OF D, of u]
      I_T_obs [OF I, of t]
    by (auto simp add: D_E_def T_obs_def upd)
next
  case L77
  then show ?thesis
    using t u
      J_D_E [OF D, of t]
      J_D_E [OF D, of u]
    by (auto simp add: D_E_def upd)
next
  case L78
  then show ?thesis
    using t u
      J_D_E [OF D, of t]
      J_D_E [OF D, of u]
    by (auto simp add: D_E_def upd)
next
  case L79
  then show ?thesis
    using t u
      J_D_E [OF D, of t]
      J_D_E [OF D, of u]
    by (auto simp add: D_E_def upd)
next
  case L81
  then show ?thesis
    using t u
      J_D_E [OF D, of t]
      J_D_E [OF D, of u]
    by (auto simp add: D_E_def upd)
next
  case (L81r v0 er0)
  then show ?thesis
    using t u
      J_D_E [OF D, of t]
      J_D_E [OF D, of u]
    by (auto simp add: D_E_def upd)
next
  case L83err
  then show ?thesis
    using t u
      J_D_E [OF D, of t]
      J_D_E [OF D, of u]
    by (auto simp add: D_E_def upd)
next
  case L83timer
  then show ?thesis
    using t u
      J_D_E [OF D, of t]
      J_D_E [OF D, of u]
    by (auto simp add: D_E_def upd)
next
  case L83
  then show ?thesis
    using t u
      J_D_E [OF D, of t]
      J_D_E [OF D, of u]
    by (auto simp add: D_E_def upd)
next
  case L84
  then show ?thesis
    using t u
      J_D_E [OF D, of t]
      J_D_E [OF D, of u]
    by (auto simp add: D_E_def upd)
next
  case L85
  then show ?thesis
    using t u
      J_D_E [OF D, of t]
      J_D_E [OF D, of u]
    by (auto simp add: D_E_def upd)
next
  case L86
  then show ?thesis
    using t u
      J_D_E [OF D, of t]
      J_D_E [OF D, of u]
    by (auto simp add: D_E_def upd)
next
  case L88
  then show ?thesis
    using t u
      J_D_E [OF D, of t]
      J_D_E [OF D, of u]
    by (auto simp add: D_E_def upd)
next
  case L89
  then show ?thesis
    using t u
      J_D_E [OF D, of t]
      J_D_E [OF D, of u]
    by (auto simp add: D_E_def upd)
next
  case L92
  then show ?thesis
    using t u
      J_D_E [OF D, of t]
      J_D_E [OF D, of u]
    by (auto simp add: D_E_def upd)
next
  case L94
  then show ?thesis
    using t u
      J_D_E [OF D, of t]
      J_D_E [OF D, of u]
    by (auto simp add: D_E_def upd)
next
  case L100
  then show ?thesis
    using t u
      J_D_E [OF D, of t]
      J_D_E [OF D, of u]
    by (auto simp add: D_E_def upd)
next
  case L103
  then show ?thesis
    using t u
      J_D_E [OF D, of t]
      J_D_E [OF D, of u]
    by (auto simp add: D_E_def upd)
next
  case L108
  then show ?thesis
    using t u
      J_D_E [OF D, of t]
      J_D_E [OF D, of u]
    by (auto simp add: D_E_def upd)
next
  case L110miss
  then show ?thesis
    using t u
      J_D_E [OF D, of t]
      J_D_E [OF D, of u]
    by (auto simp add: D_E_def upd)
next
  case (L110hit e0)
  then show ?thesis
    using t u
      J_D_E [OF D, of t]
      J_D_E [OF D, of u]
      J_D_R [OF D, of t]
    by (auto simp add: D_E_def D_R_def upd)
next
  case L112
  then show ?thesis
    using t u
      J_D_E [OF D, of t]
      J_D_E [OF D, of u]
    by (auto simp add: D_E_def upd)
next
  case L116
  then show ?thesis
    using t u
      J_D_E [OF D, of t]
      J_D_E [OF D, of u]
    by (auto simp add: D_E_def upd)
next
  case L117
  then show ?thesis
    using t u
      J_D_E [OF D, of t]
      J_D_E [OF D, of u]
    by (auto simp add: D_E_def upd)
next
  case L118
  then show ?thesis
    using t u
      J_D_E [OF D, of t]
      J_D_E [OF D, of u]
    by (auto simp add: D_E_def upd)
next
  case L120
  then show ?thesis
    using t u
      J_D_E [OF D, of t]
      J_D_E [OF D, of u]
    by (auto simp add: D_E_def upd)
next
  case L120nil
  then show ?thesis
    using t u
      J_D_E [OF D, of t]
      J_D_E [OF D, of u]
    by (auto simp add: D_E_def upd)
next
  case L121
  then show ?thesis
    using t u
      J_D_E [OF D, of t]
      J_D_E [OF D, of u]
    by (auto simp add: D_E_def upd)
next
  case SelTimer
  then show ?thesis
    using t u
      J_D_E [OF D, of t]
      J_D_E [OF D, of u]
    by (auto simp add: D_E_def upd)
next
  case SelDone
  then show ?thesis
    using t u
      J_D_E [OF D, of t]
      J_D_E [OF D, of u]
    by (auto simp add: D_E_def upd)
qed

lemma D_E_step:
  fixes s :: "('k, 'v::zero) state"
  assumes st: "step a s = Some s'" and nd: "\<not> is_Delete_of k a" and I: "inv s" and D: "dinv k s" and u: "u < length (threads s')"
  shows "D_E s' k u"
  using st
proof (cases rule: step_kinds)
  case (Go c)
  then show ?thesis
    using nd u
      J_D_E [OF D, of u]
    by (cases c) (auto simp add: D_E_def upd)
next
  case (Thread t)
  show ?thesis
    by (rule D_E_tstep [OF st Thread I D u])
next
  case (Expire e0)
  then show ?thesis
    using u
      J_D_E [OF D, of u]
    by (auto simp add: D_E_def)
qed

lemma D_S_tstep:
  fixes s :: "('k, 'v::zero) state"
  assumes st: "step a s = Some s'" and a: "a = Run t \<or> (\<exists>c. a = Select t c)"
    and t: "t < length (threads s)" and I: "inv s" and D: "dinv k s" and e: "e < length (heap s')"
  shows "D_S s' k e"
  using st a
proof (cases rule: tstep_cases)
  case L51
  then show ?thesis
    using t e
      J_D_S [OF D, of e]
      I_E_own [OF I, of e]
      I_lenC [OF I]
    by (auto simp add: D_S_def E_own_def upd)
next
  case L56nil
  then show ?thesis
    using t e
      J_D_S [OF D, of e]
      I_E_own [OF I, of e]
      I_lenC [OF I]
    by (auto simp add: D_S_def E_own_def upd)
next
  case L56
  then show ?thesis
    using t e
      J_D_S [OF D, of e]
      I_E_own [OF I, of e]
      I_lenC [OF I]
    by (auto simp add: D_S_def E_own_def upd)
next
  case L60
  then show ?thesis
    using t e
      J_D_S [OF D, of e]
      I_E_own [OF I, of e]
      I_lenC [OF I]
    by (auto simp add: D_S_def E_own_def upd)
next
  case L61
  then show ?thesis
    using t e
      J_D_S [OF D, of e]
      I_E_own [OF I, of e]
      I_lenC [OF I]
    by (auto simp add: D_S_def E_own_def upd)
next
  case (L65hit e0)
  then show ?thesis
    using t e
      J_D_S [OF D, of e]
      I_E_own [OF I, of e]
      I_lenC [OF I]
    by (auto simp add: D_S_def E_own_def upd)
next
  case L65miss
  then show ?thesis
    using t e
      J_D_S [OF D, of e]
      I_E_own [OF I, of e]
      I_lenC [OF I]
    by (auto simp add: D_S_def E_own_def upd)
next
  case L66
  then show ?thesis
    using t e
      J_D_S [OF D, of e]
      I_E_own [OF I, of e]
      I_lenC [OF I]
    by (auto simp add: D_S_def E_own_def upd)
next
  case L69
  then show ?thesis
    using t e
      J_D_S [OF D, of e]
      I_E_own [OF I, of e]
      I_lenC [OF I]
    by (auto simp add: D_S_def E_own_def upd)
next
  case L70
  then show ?thesis
    using t e
      J_D_S [OF D, of e]
      I_E_own [OF I, of e]
      I_lenC [OF I]
    by (auto simp add: D_S_def E_own_def upd)
next
  case L71
  then show ?thesis
    using t e
      J_D_S [OF D, of e]
      I_E_own [OF I, of e]
      I_lenC [OF I]
    by (auto simp add: D_S_def E_own_def upd)
next
  case L74
  then show ?thesis
    using t e
      J_D_S [OF D, of e]
      I_E_own [OF I, of e]
      I_lenC [OF I]
    by (auto simp add: D_S_def E_own_def less_Suc_eq upd)
next
  case L77
  then show ?thesis
    using t e
      J_D_S [OF D, of e]
      I_E_own [OF I, of e]
      I_lenC [OF I]
    by (auto simp add: D_S_def E_own_def upd)
next
  case L78
  then show ?thesis
    using t e
      J_D_S [OF D, of e]
      I_E_own [OF I, of e]
      I_lenC [OF I]
      I_T_ins [OF I, of t]
    by (auto simp add: D_S_def E_own_def T_ins_def upd)
next
  case L79
  then show ?thesis
    using t e
      J_D_S [OF D, of e]
      I_E_own [OF I, of e]
      I_lenC [OF I]
    by (auto simp add: D_S_def E_own_def upd)
next
  case L81
  then show ?thesis
    using t e
      J_D_S [OF D, of e]
      I_E_own [OF I, of e]
      I_lenC [OF I]
    by (auto simp add: D_S_def E_own_def upd)
next
  case (L81r v0 er0)
  then show ?thesis
    using t e
      J_D_S [OF D, of e]
      I_E_own [OF I, of e]
      I_lenC [OF I]
      I_T_own [OF I, of t]
    by (auto simp add: D_S_def E_own_def T_own_def upd)
next
  case L83err
  then show ?thesis
    using t e
      J_D_S [OF D, of e]
      I_E_own [OF I, of e]
      I_lenC [OF I]
    by (auto simp add: D_S_def E_own_def upd)
next
  case L83timer
  then show ?thesis
    using t e
      J_D_S [OF D, of e]
      I_E_own [OF I, of e]
      I_lenC [OF I]
    by (auto simp add: D_S_def E_own_def upd)
next
  case L83
  then show ?thesis
    using t e
      J_D_S [OF D, of e]
      I_E_own [OF I, of e]
      I_lenC [OF I]
      J_D_Q [OF D, of t]
      I_T_own [OF I, of t]
    by (auto simp add: D_S_def E_own_def D_Q_def T_own_def upd)
next
  case L84
  then show ?thesis
    using t e
      J_D_S [OF D, of e]
      I_E_own [OF I, of e]
      I_lenC [OF I]
    by (auto simp add: D_S_def E_own_def upd)
next
  case L85
  then show ?thesis
    using t e
      J_D_S [OF D, of e]
      I_E_own [OF I, of e]
      I_lenC [OF I]
      J_D_Q [OF D, of t]
      I_T_own [OF I, of t]
    by (auto simp add: D_S_def E_own_def D_Q_def T_own_def upd)
next
  case L86
  then show ?thesis
    using t e
      J_D_S [OF D, of e]
      I_E_own [OF I, of e]
      I_lenC [OF I]
      I_E_fail [OF I, of e]
    by (auto simp add: D_S_def E_own_def E_fail_def upd)
next
  case L88
  then show ?thesis
    using t e
      J_D_S [OF D, of e]
      I_E_own [OF I, of e]
      I_lenC [OF I]
    by (auto simp add: D_S_def E_own_def upd)
next
  case L89
  then show ?thesis
    using t e
      J_D_S [OF D, of e]
      I_E_own [OF I, of e]
      I_lenC [OF I]
      I_T_life [OF I, of t]
    by (auto simp add: D_S_def E_own_def T_life_def upd)
next
  case L92
  then show ?thesis
    using t e
      J_D_S [OF D, of e]
      I_E_own [OF I, of e]
      I_lenC [OF I]
    by (auto simp add: D_S_def E_own_def upd)
next
  case L94
  then show ?thesis
    using t e
      J_D_S [OF D, of e]
      I_E_own [OF I, of e]
      I_lenC [OF I]
    by (auto simp add: D_S_def E_own_def upd)
next
  case L100
  then show ?thesis
    using t e
      J_D_S [OF D, of e]
      I_E_own [OF I, of e]
      I_lenC [OF I]
    by (auto simp add: D_S_def E_own_def upd)
next
  case L103
  then show ?thesis
    using t e
      J_D_S [OF D, of e]
      I_E_own [OF I, of e]
      I_lenC [OF I]
    by (auto simp add: D_S_def E_own_def upd)
next
  case L108
  then show ?thesis
    using t e
      J_D_S [OF D, of e]
      I_E_own [OF I, of e]
      I_lenC [OF I]
    by (auto simp add: D_S_def E_own_def upd)
next
  case L110miss
  then show ?thesis
    using t e
      J_D_S [OF D, of e]
      I_E_own [OF I, of e]
      I_lenC [OF I]
    by (auto simp add: D_S_def E_own_def upd)
next
  case (L110hit e0)
  then show ?thesis
    using t e
      J_D_S [OF D, of e]
      I_E_own [OF I, of e]
      I_lenC [OF I]
    by (auto simp add: D_S_def E_own_def upd)
next
  case L112
  then show ?thesis
    using t e
      J_D_S [OF D, of e]
      I_E_own [OF I, of e]
      I_lenC [OF I]
    by (auto simp add: D_S_def E_own_def upd)
next
  case L116
  then show ?thesis
    using t e
      J_D_S [OF D, of e]
      I_E_own [OF I, of e]
      I_lenC [OF I]
    by (auto simp add: D_S_def E_own_def upd)
next
  case L117
  then show ?thesis
    using t e
      J_D_S [OF D, of e]
      I_E_own [OF I, of e]
      I_lenC [OF I]
      J_D_P [OF D, of t]
      I_T_obs [OF I, of t]
    by (auto simp add: D_S_def E_own_def D_P_def T_obs_def upd)
next
  case L118
  then show ?thesis
    using t e
      J_D_S [OF D, of e]
      I_E_own [OF I, of e]
      I_lenC [OF I]
    by (auto simp add: D_S_def E_own_def upd)
next
  case L120
  then show ?thesis
    using t e
      J_D_S [OF D, of e]
      I_E_own [OF I, of e]
      I_lenC [OF I]
    by (auto simp add: D_S_def E_own_def upd)
next
  case L120nil
  then show ?thesis
    using t e
      J_D_S [OF D, of e]
      I_E_own [OF I, of e]
      I_lenC [OF I]
    by (auto simp add: D_S_def E_own_def upd)
next
  case L121
  then show ?thesis
    using t e
      J_D_S [OF D, of e]
      I_E_own [OF I, of e]
      I_lenC [OF I]
    by (auto simp add: D_S_def E_own_def upd)
next
  case SelTimer
  then show ?thesis
    using t e
      J_D_S [OF D, of e]
      I_E_own [OF I, of e]
      I_lenC [OF I]
    by (auto simp add: D_S_def E_own_def upd)
next
  case SelDone
  then show ?thesis
    using t e
      J_D_S [OF D, of e]
      I_E_own [OF I, of e]
      I_lenC [OF I]
    by (auto simp add: D_S_def E_own_def upd)
qed

lemma D_S_step:
  fixes s :: "('k, 'v::zero) state"
  assumes st: "step a s = Some s'" and nd: "\<not> is_Delete_of k a" and I: "inv s" and D: "dinv k s" and e: "e < length (heap s')"
  shows "D_S s' k e"
  using st
proof (cases rule: step_kinds)
  case (Go c)
  then show ?thesis
    using nd e
      J_D_S [OF D, of e]
      I_E_own [OF I, of e]
      I_lenC [OF I]
    by (cases c) (auto simp add: D_S_def E_own_def upd)
next
  case (Thread t)
  show ?thesis
    by (rule D_S_tstep [OF st Thread I D e])
next
  case (Expire e0)
  then show ?thesis
    using e
      J_D_S [OF D, of e]
      I_E_own [OF I, of e]
      I_lenC [OF I]
    by (auto simp add: D_S_def E_own_def)
qed

lemma dinv_New: "dinv k ((New l :: ('k, 'v::zero) state)\<lparr>OnDelete := od\<rparr>)"
  by (simp add: dinv_def New_def)

lemma dinv_step:
  fixes s :: "('k, 'v::zero) state"
  assumes st: "step a s = Some s'" and nd: "\<not> is_Delete_of k a" and I: "inv s" and D: "dinv k s"
  shows "dinv k s'"
proof -
  have 1: "\<forall>t < length (threads s'). D_O s' t \<and> D_P s' k t \<and> D_Q s' k t \<and> D_R s' k t \<and> D_E s' k t"
    by (simp add: D_O_step [OF st nd I D] D_P_step [OF st nd I D] D_Q_step [OF st nd I D]
        D_R_step [OF st nd I D] D_E_step [OF st nd I D])
  have 2: "\<forall>e < length (heap s'). D_S s' k e"
    by (simp add: D_S_step [OF st nd I D])
  show ?thesis
    unfolding dinv_def using 1 2 by blast
qed

lemma run_dinv:
  fixes s :: "('k, 'v::zero) state"
  assumes "run as s = Some s'" and "list_all (\<lambda>a. \<not> is_Delete_of k a) as" and "inv s" and "dinv k s"
  shows "dinv k s'"
  using assms
proof (induction as arbitrary: s)
  case Nil
  then show ?case by simp
next
  case (Cons a as)
  then obtain s1 where s1: "step a s = Some s1" "run as s1 = Some s'"
    by (auto split: option.splits)
  have nd: "\<not> is_Delete_of k a" and rest: "list_all (\<lambda>a. \<not> is_Delete_of k a) as"
    using Cons.prems(2) by simp_all
  from Cons.IH [OF s1(2) rest inv_step [OF s1(1) Cons.prems(3)]
      dinv_step [OF s1(1) nd Cons.prems(3,4)]]
  show ?case .
qed

lemma reachable_dinv:
  fixes s :: "('k, 'v::zero) state"
  assumes "run as ((New l)\<lparr>OnDelete := od\<rparr>) = Some s" and "list_all (\<lambda>a. \<not> is_Delete_of k a) as"
  shows "dinv k s"
  by (rule run_dinv [OF assms inv_New dinv_New])

subsection \<open>Concrete runs\<close>







section \<open>The claims\<close>

text \<open>C5. A call of \<open>LoadOrCtor\<close> with a nil constructor, from any state \<open>s\<close> of the map
  (even while another goroutine holds the lock), returns after two statements with the
  zero value and \<open>ErrCtorNotProvided\<close>. Every state on the way is \<open>s\<close> with the frame of the
  calling goroutine added: the mutex, the map, the entities and the trace are what they
  were, so the lock is not taken and nothing is touched.\<close>

theorem C5_nil_constructor:
  fixes s :: "('k, 'v::zero) state" and c :: "context option" and k :: 'k
  defines "f0 \<equiv> start (LoadOrCtorCall c k None)"
  shows "step (Go (LoadOrCtorCall c k None)) s = Some (s\<lparr>threads := threads s @ [f0]\<rparr>)
     \<and> step (Run (length (threads s))) (s\<lparr>threads := threads s @ [f0]\<rparr>)
         = Some (s\<lparr>threads := threads s @ [f0\<lparr>pc := L56, ctx := Some (ctx_or_background c)\<rparr>]\<rparr>)
     \<and> step (Run (length (threads s)))
           (s\<lparr>threads := threads s @ [f0\<lparr>pc := L56, ctx := Some (ctx_or_background c)\<rparr>]\<rparr>)
         = Some (s\<lparr>threads := threads s @ [f0\<lparr>pc := Returned, ctx := Some (ctx_or_background c),
              result := Some (0, Some ErrCtorNotProvided)\<rparr>]\<rparr>)"
  by (simp add: f0_def exec_simps)

theorem C5_nil_constructor_witness:
  "run [Go (LoadOrCtorCall None (1::nat) None), Run 0, Run 0] (New 5 :: (nat, nat) state)
     = Some ((New 5)\<lparr>threads := [\<lparr>pc = Returned, ctx = Some Background, key = 1, fn = None,
          ent = 0, del_ent = 0, observer = False,
          result = Some (0, Some ErrCtorNotProvided)\<rparr>]\<rparr>)"
  using C5_nil_constructor [of None "1::nat" "New 5 :: (nat, nat) state"]
  by (simp add: New_def ctx_or_background_def)












end
